(* ===== verification/Go_Prelude.thy ===== *)
theory Go_Prelude
  imports Main "HOL-Library.Sublist" "HOL-Library.Char_ord" "HOL-Library.List_Lexorder"
begin

text \<open>
  The prelude of the development: the collections of rewrite rules the component proofs
  share, the fragment of Go's \<open>strings\<close> and \<open>strconv\<close> packages that the repository uses,
  Go's \<open>int64\<close> arithmetic, and error values.

  A Go string is a sequence of bytes, as is \<^typ>\<open>string\<close>. Case mapping is Go's on ASCII
  letters; bytes outside ASCII are kept as they are.
\<close>

named_theorems store_simps \<open>what a query of the store returns after a write\<close>
named_theorems path_simps \<open>component view of lexical path operations\<close>
named_theorems fs_simps \<open>what a file operation leaves at a path\<close>
named_theorems frame_simps \<open>fields an operation does not touch\<close>

section \<open>Lists and association lists\<close>

lemma map_of_filter_key [fs_simps]:
  "map_of (filter (\<lambda>kv. P (fst kv)) xs) k = (if P k then map_of xs k else None)"
  by (induction xs) auto

lemma distinct_map_inj_eq:
  "distinct (map f xs) \<Longrightarrow> x \<in> set xs \<Longrightarrow> y \<in> set xs \<Longrightarrow> f x = f y \<Longrightarrow> x = y"
  by (simp add: distinct_map inj_on_def)

lemma distinct_map_key_cong:
  "(\<And>x. f (g x) = f x) \<Longrightarrow> distinct (map f (map g xs)) = distinct (map f xs)"
  by (simp add: o_def)

lemma find_eq_None_iff: "find P xs = None \<longleftrightarrow> (\<forall>x\<in>set xs. \<not> P x)"
  by (auto simp: find_None_iff)

lemma find_SomeD: "find P xs = Some x \<Longrightarrow> x \<in> set xs \<and> P x"
  by (auto simp: find_Some_iff)

lemma find_unique:
  "distinct (map f xs) \<Longrightarrow> x \<in> set xs \<Longrightarrow> f x = k \<Longrightarrow> find (\<lambda>y. f y = k) xs = Some x"
  by (induction xs) auto

lemma find_map_preserving:
  "(\<And>x. P (g x) = P x) \<Longrightarrow> find P (map g xs) = map_option g (find P xs)"
  by (induction xs) auto

lemma distinct_map_filterI: "distinct (map f xs) \<Longrightarrow> distinct (map f (filter P xs))"
  by (induction xs) auto

section \<open>Signed 64-bit integers\<close>

text \<open>
  Go's \<open>int64\<close> is a mathematical integer kept between \<open>-2^63\<close> and \<open>2^63 - 1\<close>; addition
  wraps around.
\<close>

definition wrap64 :: "int \<Rightarrow> int" where
  "wrap64 x = (x + 2 ^ 63) mod 2 ^ 64 - 2 ^ 63"

definition int64_ok :: "int \<Rightarrow> bool" where
  "int64_ok x \<longleftrightarrow> - (2 ^ 63) \<le> x \<and> x < 2 ^ 63"

lemma wrap64_id [simp]: "int64_ok x \<Longrightarrow> wrap64 x = x"
  by (simp add: wrap64_def int64_ok_def)

lemma wrap64_range [simp]: "int64_ok (wrap64 x)"
  by (simp add: wrap64_def int64_ok_def)

lemma wrap64_add_left [simp]: "wrap64 (wrap64 x + y) = wrap64 (x + y)"
proof -
  have "(wrap64 x + y + 2 ^ 63) mod 2 ^ 64 = ((x + 2 ^ 63) mod 2 ^ 64 + y) mod 2 ^ 64"
    by (simp add: wrap64_def)
  also have "\<dots> = (x + 2 ^ 63 + y) mod 2 ^ 64" by (rule mod_add_left_eq)
  finally show ?thesis by (simp add: wrap64_def ac_simps)
qed

section \<open>Decimal numbers\<close>

text \<open>The decimal digits of a non-negative number.\<close>

function digits_of :: "int \<Rightarrow> string" where
  "digits_of n = (if n < 10 then [char_of (48 + n)] else digits_of (n div 10) @ [char_of (48 + n mod 10)])"
  by pat_completeness auto
termination
  by (relation "measure nat") auto

declare digits_of.simps [simp del]

text \<open>\<open>strconv.Itoa\<close> and the verb \<open>%d\<close>.\<close>

definition itoa :: "int \<Rightarrow> string" where
  "itoa i = (if i < 0 then ''-'' @ digits_of (- i) else digits_of i)"

text \<open>Exactly \<open>w\<close> digits, the low ones.\<close>

fun fixed_digits :: "nat \<Rightarrow> int \<Rightarrow> string" where
  "fixed_digits 0 n = []"
| "fixed_digits (Suc w) n = fixed_digits w (n div 10) @ [char_of (48 + n mod 10)]"

text \<open>The verb \<open>%0wd\<close>: padded with zeros on the left to at least \<open>w\<close> digits.\<close>

definition pad_digits :: "nat \<Rightarrow> int \<Rightarrow> string" where
  "pad_digits w n = (let d = digits_of n in replicate (w - length d) (CHR ''0'') @ d)"

lemma length_fixed_digits [simp]: "length (fixed_digits w n) = w"
  by (induction w arbitrary: n) auto

text \<open>\<open>strconv.ParseInt(s, 10, 64)\<close>: an optional sign and decimal digits, within 64 bits.\<close>

definition digit :: "char \<Rightarrow> int option" where
  "digit c = (let n = (of_char c :: int) in if 48 \<le> n \<and> n \<le> 57 then Some (n - 48) else None)"

fun parse_digits :: "int \<Rightarrow> string \<Rightarrow> int option" where
  "parse_digits acc [] = Some acc"
| "parse_digits acc (c # cs) = (case digit c of None \<Rightarrow> None | Some d \<Rightarrow> parse_digits (acc * 10 + d) cs)"

definition ParseInt :: "string \<Rightarrow> int option" where
  "ParseInt s =
     (let (neg, ds) = (case s of [] \<Rightarrow> (False, []) | c # cs \<Rightarrow>
            if c = CHR ''-'' then (True, cs) else if c = CHR ''+'' then (False, cs) else (False, s))
      in if ds = [] then None
         else case parse_digits 0 ds of
           None \<Rightarrow> None
         | Some n \<Rightarrow> let v = (if neg then - n else n) in if int64_ok v then Some v else None)"

section \<open>Strings\<close>

definition ascii_lower :: "char \<Rightarrow> char" where
  "ascii_lower c = (let n = (of_char c :: nat) in if 65 \<le> n \<and> n \<le> 90 then char_of (n + 32) else c)"

definition ToLower :: "string \<Rightarrow> string" where
  "ToLower s = map ascii_lower s"

definition EqualFold :: "string \<Rightarrow> string \<Rightarrow> bool" where
  "EqualFold a b \<longleftrightarrow> ToLower a = ToLower b"

definition HasPrefix :: "string \<Rightarrow> string \<Rightarrow> bool" where
  "HasPrefix s p \<longleftrightarrow> prefix p s"

definition HasSuffix :: "string \<Rightarrow> string \<Rightarrow> bool" where
  "HasSuffix s p \<longleftrightarrow> suffix p s"

definition Contains :: "string \<Rightarrow> string \<Rightarrow> bool" where
  "Contains s p \<longleftrightarrow> list_ex (prefix p) (suffixes s)"

text \<open>The UTF-8 encodings of the code points with Unicode's White Space property.\<close>

definition space_runes :: "string list" where
  "space_runes =
     [[CHR 0x20], [CHR 0x09], [CHR 0x0A], [CHR 0x0B], [CHR 0x0C], [CHR 0x0D],
      [CHR 0xC2, CHR 0x85], [CHR 0xC2, CHR 0xA0], [CHR 0xE1, CHR 0x9A, CHR 0x80],
      [CHR 0xE2, CHR 0x80, CHR 0x80], [CHR 0xE2, CHR 0x80, CHR 0x81], [CHR 0xE2, CHR 0x80, CHR 0x82],
      [CHR 0xE2, CHR 0x80, CHR 0x83], [CHR 0xE2, CHR 0x80, CHR 0x84], [CHR 0xE2, CHR 0x80, CHR 0x85],
      [CHR 0xE2, CHR 0x80, CHR 0x86], [CHR 0xE2, CHR 0x80, CHR 0x87], [CHR 0xE2, CHR 0x80, CHR 0x88],
      [CHR 0xE2, CHR 0x80, CHR 0x89], [CHR 0xE2, CHR 0x80, CHR 0x8A], [CHR 0xE2, CHR 0x80, CHR 0xA8],
      [CHR 0xE2, CHR 0x80, CHR 0xA9], [CHR 0xE2, CHR 0x80, CHR 0xAF], [CHR 0xE2, CHR 0x81, CHR 0x9F],
      [CHR 0xE3, CHR 0x80, CHR 0x80]]"

text \<open>Drop encodings of the given list from the front as long as one is there.\<close>

function trim_front :: "string list \<Rightarrow> string \<Rightarrow> string" where
  "trim_front encs s =
     (case find (\<lambda>e. e \<noteq> [] \<and> prefix e s) encs of
        None \<Rightarrow> s
      | Some e \<Rightarrow> trim_front encs (drop (length e) s))"
  by pat_completeness auto
termination
proof (relation "measure (\<lambda>(encs, s). length s)")
  fix encs :: "string list" and s e :: string
  assume "find (\<lambda>e. e \<noteq> [] \<and> prefix e s) encs = Some e"
  then have "e \<noteq> []" and "prefix e s" by (auto dest: find_SomeD)
  then show "((encs, drop (length e) s), (encs, s)) \<in> measure (\<lambda>(encs, s). length s)"
    by (auto simp: prefix_def)
qed simp

declare trim_front.simps [simp del]

definition TrimSpace :: "string \<Rightarrow> string" where
  "TrimSpace s = rev (trim_front (map rev space_runes) (rev (trim_front space_runes s)))"

text \<open>\<open>strings.Trim(s, cutset)\<close> for a cutset of ASCII characters.\<close>

definition TrimCut :: "string \<Rightarrow> string \<Rightarrow> string" where
  "TrimCut cs s = rev (dropWhile (\<lambda>c. c \<in> set cs) (rev (dropWhile (\<lambda>c. c \<in> set cs) s)))"

fun split_on :: "char \<Rightarrow> string \<Rightarrow> string list" where
  "split_on c [] = [[]]"
| "split_on c (x # xs) =
     (if x = c then [] # split_on c xs
      else (case split_on c xs of [] \<Rightarrow> [[x]] | y # ys \<Rightarrow> (x # y) # ys))"

fun join_with :: "string \<Rightarrow> string list \<Rightarrow> string" where
  "join_with sep [] = []"
| "join_with sep [x] = x"
| "join_with sep (x # y # ys) = x @ sep @ join_with sep (y # ys)"

lemma split_on_nonempty [simp]: "split_on c s \<noteq> []"
  by (induction s) (auto split: list.splits)

lemma split_on_no_sep: "c \<notin> set s \<Longrightarrow> split_on c s = [s]"
  by (induction s) auto

lemma split_on_append_sep:
  "split_on c (a @ c # b) = split_on c a @ split_on c b"
  by (induction a) (auto split: list.splits)

lemma split_on_parts: "x \<in> set (split_on c s) \<Longrightarrow> c \<notin> set x"
proof (induction s arbitrary: x)
  case Nil
  then show ?case by simp
next
  case (Cons a s)
  obtain y ys where s: "split_on c s = y # ys"
    by (cases "split_on c s") auto
  from Cons s show ?case by (auto split: if_splits)
qed

lemma split_on_join:
  assumes "xs \<noteq> []" and "\<forall>x\<in>set xs. c \<notin> set x"
  shows "split_on c (join_with [c] xs) = xs"
  using assms
proof (induction "[c]" xs rule: join_with.induct)
  case (3 x y ys)
  then have "split_on c (join_with [c] (y # ys)) = y # ys" by simp
  with 3 show ?case by (simp add: split_on_append_sep split_on_no_sep)
qed (auto simp: split_on_no_sep)

lemma trim_front_suffix: "suffix (trim_front encs s) s"
proof (induction encs s rule: trim_front.induct)
  case (1 encs s)
  show ?case
  proof (cases "find (\<lambda>e. e \<noteq> [] \<and> prefix e s) encs")
    case None
    then show ?thesis by (simp add: trim_front.simps [of encs s])
  next
    case (Some e)
    from 1 [OF Some] have "suffix (trim_front encs (drop (length e) s)) s"
      by (meson suffix_drop suffix_order.trans)
    with Some show ?thesis by (simp add: trim_front.simps [of encs s])
  qed
qed

lemma trim_front_stop: "find (\<lambda>e. e \<noteq> [] \<and> prefix e (trim_front encs s)) encs = None"
proof (induction encs s rule: trim_front.induct)
  case (1 encs s)
  then show ?case
    by (cases "find (\<lambda>e. e \<noteq> [] \<and> prefix e s) encs")
       (auto simp: trim_front.simps [of encs s])
qed

lemma trim_front_fixed:
  "find (\<lambda>e. e \<noteq> [] \<and> prefix e s) encs = None \<Longrightarrow> trim_front encs s = s"
  by (simp add: trim_front.simps [of encs s])

lemma set_TrimSpace: "set (TrimSpace s) \<subseteq> set s"
proof -
  have "set (trim_front encs t) \<subseteq> set t" for encs t
    using trim_front_suffix [of encs t] by (rule set_mono_suffix)
  from this [of "map rev space_runes" "rev (trim_front space_runes s)"] this [of space_runes s]
  show ?thesis unfolding TrimSpace_def by auto
qed

lemma TrimSpace_Nil [simp]: "TrimSpace [] = []"
proof -
  have "trim_front encs [] = []" for encs
    using trim_front_suffix [of encs "[]"] by simp
  then show ?thesis by (simp add: TrimSpace_def)
qed

text \<open>Trimming twice trims no more.\<close>

lemma TrimSpace_idem [simp]: "TrimSpace (TrimSpace s) = TrimSpace s"
proof -
  let ?a = "trim_front space_runes s"
  let ?b = "trim_front (map rev space_runes) (rev ?a)"
  have pre: "prefix (rev ?b) ?a"
    using trim_front_suffix [of "map rev space_runes" "rev ?a"]
    by (simp add: suffix_to_prefix)
  have none: "find (\<lambda>e. e \<noteq> [] \<and> prefix e ?a) space_runes = None"
    by (rule trim_front_stop)
  have "find (\<lambda>e. e \<noteq> [] \<and> prefix e (rev ?b)) space_runes = None"
    unfolding find_eq_None_iff
  proof
    fix e assume e: "e \<in> set space_runes"
    show "\<not> (e \<noteq> [] \<and> prefix e (rev ?b))"
    proof
      assume a: "e \<noteq> [] \<and> prefix e (rev ?b)"
      then have "prefix e ?a" using pre by (auto intro: prefix_order.trans)
      with a e none show False by (auto simp: find_eq_None_iff)
    qed
  qed
  then have left: "trim_front space_runes (rev ?b) = rev ?b"
    by (rule trim_front_fixed)
  have right: "trim_front (map rev space_runes) ?b = ?b"
    by (rule trim_front_fixed, rule trim_front_stop)
  show ?thesis by (simp add: TrimSpace_def left right)
qed

section \<open>Error values\<close>

text \<open>
  A Go error is a message, a message that wraps another error (\<open>fmt.Errorf("...: %w", err)\<close>),
  an error marked retryable (\<open>torbox.RetryableError\<close>), a status error of the range
  downloader (\<open>files.HTTPStatusError\<close>), or an error of the SQL driver, which has a result code.
\<close>

datatype go_error =
    ErrText string
  | ErrWrap string go_error
  | RetryableError go_error
  | HTTPStatusError int
  | CodeError int string

fun Error :: "go_error \<Rightarrow> string" where
  "Error (ErrText m) = m"
| "Error (ErrWrap p e) = p @ '': '' @ Error e"
| "Error (RetryableError e) = Error e"
| "Error (HTTPStatusError n) = ''download part status '' @ itoa n"
| "Error (CodeError c m) = m"

text \<open>\<open>errors.As(err, *HTTPStatusError)\<close>: the first status error of the chain.\<close>

fun as_status :: "go_error \<Rightarrow> int option" where
  "as_status (ErrText m) = None"
| "as_status (ErrWrap p e) = as_status e"
| "as_status (RetryableError e) = as_status e"
| "as_status (HTTPStatusError n) = Some n"
| "as_status (CodeError c m) = None"

text \<open>An operation that returns only an error: \<open>None\<close> is Go's \<open>nil\<close>.\<close>

type_synonym err = "go_error option"

abbreviation nil :: err where
  "nil \<equiv> None"

end
