(* ===== verification/Go_Path.thy ===== *)
theory Go_Path
  imports Go_Prelude
begin

text \<open>
  The lexical path operations of Go's \<open>path\<close> and \<open>path/filepath\<close> packages on a Unix system
  (\<open>Clean\<close>, \<open>Join\<close>, \<open>Dir\<close>, \<open>Abs\<close>, \<open>Rel\<close>), and their view on lists of components, which the
  file system and the containment checks use.
\<close>

abbreviation slash :: char where "slash \<equiv> CHR ''/''"

abbreviation split_path :: "string \<Rightarrow> string list" where
  "split_path \<equiv> split_on slash"

abbreviation join_path :: "string list \<Rightarrow> string" where
  "join_path \<equiv> join_with ''/''"

text \<open>
  The loop of \<open>Clean\<close>: \<open>out\<close> holds the components kept so far, last first. A rooted path
  drops \<open>..\<close> at its root, a relative one keeps it.
\<close>

fun clean_loop :: "bool \<Rightarrow> string list \<Rightarrow> string list \<Rightarrow> string list" where
  "clean_loop rooted out [] = rev out"
| "clean_loop rooted out (c # cs) =
     (if c = '''' \<or> c = ''.'' then clean_loop rooted out cs
      else if c = ''..'' then
        (case out of
           [] \<Rightarrow> if rooted then clean_loop rooted [] cs else clean_loop rooted [''..''] cs
         | x # xs \<Rightarrow> if x = ''..'' then clean_loop rooted (''..'' # out) cs else clean_loop rooted xs cs)
      else clean_loop rooted (c # out) cs)"

definition IsAbs :: "string \<Rightarrow> bool" where
  "IsAbs p \<longleftrightarrow> (case p of [] \<Rightarrow> False | c # _ \<Rightarrow> c = slash)"

definition clean_comps :: "string \<Rightarrow> string list" where
  "clean_comps p = clean_loop (IsAbs p) [] (split_path p)"

definition Clean :: "string \<Rightarrow> string" where
  "Clean p =
     (if p = [] then ''.''
      else let cs = clean_comps p in
        if IsAbs p then ''/'' @ join_path cs
        else if cs = [] then ''.'' else join_path cs)"

text \<open>\<open>filepath.Join\<close>: leading empty elements are dropped, the rest is joined and cleaned.\<close>

definition Join :: "string list \<Rightarrow> string" where
  "Join elems = (case dropWhile (\<lambda>e. e = []) elems of [] \<Rightarrow> [] | es \<Rightarrow> Clean (join_path es))"

text \<open>\<open>filepath.Dir\<close>: everything up to the last slash, cleaned.\<close>

definition Dir :: "string \<Rightarrow> string" where
  "Dir p = Clean (rev (dropWhile (\<lambda>c. c \<noteq> slash) (rev p)))"

text \<open>\<open>filepath.Base\<close>: the last element, without trailing slashes.\<close>

definition Base :: "string \<Rightarrow> string" where
  "Base path =
     (if path = [] then ''.''
      else let trimmed = rev (dropWhile (\<lambda>c. c = slash) (rev path)) in
        if trimmed = [] then ''/'' else rev (takeWhile (\<lambda>c. c \<noteq> slash) (rev trimmed)))"

definition Abs :: "string \<Rightarrow> string \<Rightarrow> string" where
  "Abs cwd p = (if IsAbs p then Clean p else Join [cwd, p])"

fun strip_common :: "string list \<Rightarrow> string list \<Rightarrow> string list \<times> string list" where
  "strip_common (b # bs) (t # ts) = (if b = t then strip_common bs ts else (b # bs, t # ts))"
| "strip_common bs ts = (bs, ts)"

text \<open>\<open>filepath.Rel\<close>; \<open>None\<close> is its error "can't make target relative to base".\<close>

definition Rel :: "string \<Rightarrow> string \<Rightarrow> string option" where
  "Rel base targ =
     (let b = Clean base; t = Clean targ in
      if t = b then Some ''.''
      else let b' = (if b = ''.'' then [] else b) in
        if IsAbs b' \<noteq> IsAbs t then None
        else
          let (bs, ts) = strip_common (filter (\<lambda>c. c \<noteq> []) (split_path b')) (filter (\<lambda>c. c \<noteq> []) (split_path t)) in
          (case bs of
             [] \<Rightarrow> Some (join_path ts)
           | x # _ \<Rightarrow> if x = ''..'' then None else Some (join_path (replicate (length bs) ''..'' @ ts))))"

section \<open>Components\<close>

definition plain_comp :: "string \<Rightarrow> bool" where
  "plain_comp c \<longleftrightarrow> c \<noteq> '''' \<and> c \<noteq> ''.'' \<and> c \<noteq> ''..''"

abbreviation plain :: "string list \<Rightarrow> bool" where
  "plain cs \<equiv> \<forall>c\<in>set cs. plain_comp c"

abbreviation no_slash :: "string list \<Rightarrow> bool" where
  "no_slash cs \<equiv> \<forall>c\<in>set cs. slash \<notin> set c"

lemma clean_loop_plain:
  "plain cs \<Longrightarrow> clean_loop r out (cs @ ds) = clean_loop r (rev cs @ out) ds"
  by (induction cs arbitrary: out) (auto simp: plain_comp_def)

lemma clean_loop_plain_id [path_simps]: "plain cs \<Longrightarrow> clean_loop r [] cs = cs"
  using clean_loop_plain [of cs r "[]" "[]"] by simp

text \<open>The three kinds of component, and what the loop does with each below the root.\<close>

lemma comp_cases:
  obtains "c = '''' \<or> c = ''.''" | "c = ''..''" | "plain_comp c"
  by (auto simp: plain_comp_def)

lemma clean_loop_skip: "c = '''' \<or> c = ''.'' \<Longrightarrow> clean_loop r out (c # cs) = clean_loop r out cs"
  by simp

lemma clean_loop_push: "plain_comp c \<Longrightarrow> clean_loop r out (c # cs) = clean_loop r (c # out) cs"
  by (simp add: plain_comp_def)

lemma clean_loop_up: "plain out \<Longrightarrow> clean_loop True out (''..'' # cs) = clean_loop True (tl out) cs"
  by (cases out) (auto simp: plain_comp_def)

lemma plain_tl: "plain out \<Longrightarrow> plain (tl out)"
  by (cases out) auto

lemma clean_loop_rooted_plain: "plain out \<Longrightarrow> plain (clean_loop True out cs)"
proof (induction cs arbitrary: out)
  case (Cons c cs)
  show ?case
  proof (cases c rule: comp_cases)
    case 1
    from Cons show ?thesis by (simp only: clean_loop_skip [OF 1] append_Cons)
  next
    case 2
    have "plain (tl out)" using Cons.prems by (rule plain_tl)
    from Cons.IH [OF this] show ?thesis
      by (simp only: 2 clean_loop_up [OF Cons.prems] append_Cons)
  next
    case 3
    with Cons.prems have "plain (c # out)" by simp
    from Cons.IH [OF this] show ?thesis by (simp only: clean_loop_push [OF 3] append_Cons)
  qed
qed simp

lemma clean_loop_append: "plain out \<Longrightarrow>
  clean_loop True out (cs @ ds) = clean_loop True (rev (clean_loop True out cs)) ds"
proof (induction cs arbitrary: out)
  case (Cons c cs)
  show ?case
  proof (cases c rule: comp_cases)
    case 1
    from Cons show ?thesis by (simp only: clean_loop_skip [OF 1] append_Cons)
  next
    case 2
    have "plain (tl out)" using Cons.prems by (rule plain_tl)
    from Cons.IH [OF this] show ?thesis
      by (simp only: 2 clean_loop_up [OF Cons.prems] append_Cons)
  next
    case 3
    with Cons.prems have "plain (c # out)" by simp
    from Cons.IH [OF this] show ?thesis by (simp only: clean_loop_push [OF 3] append_Cons)
  qed
qed simp

lemma clean_loop_subset: "set (clean_loop r out cs) \<subseteq> set out \<union> set cs"
  by (induction r out cs rule: clean_loop.induct) (auto split: list.splits if_splits)

lemma clean_comps_no_slash [path_simps]: "no_slash (clean_comps p)"
  using clean_loop_subset [of "IsAbs p" "[]" "split_path p"] split_on_parts
  by (auto simp: clean_comps_def)

lemma clean_comps_plain: "IsAbs p \<Longrightarrow> plain (clean_comps p)"
  using clean_loop_rooted_plain [of "[]"] by (simp add: clean_comps_def)

lemma IsAbs_Cons [simp]: "IsAbs (c # s) \<longleftrightarrow> c = slash" "\<not> IsAbs []"
  by (simp_all add: IsAbs_def)

lemma IsAbs_append: "IsAbs a \<Longrightarrow> IsAbs (a @ b)"
  by (cases a) auto

lemma split_abs: "split_path (slash # s) = [] # split_path s"
  by simp

lemma clean_comps_abs: "clean_comps (slash # s) = clean_loop True [] (split_path s)"
  by (simp add: clean_comps_def)

lemma clean_comps_join_abs:
  assumes "no_slash cs" and "plain cs"
  shows "clean_comps (slash # join_path cs) = cs"
proof (cases "cs = []")
  case True
  then show ?thesis by (simp add: clean_comps_abs)
next
  case False
  with assms(1) have "split_path (join_path cs) = cs" by (simp add: split_on_join)
  with assms(2) show ?thesis by (simp add: clean_comps_abs clean_loop_plain_id)
qed

lemma Clean_abs: "IsAbs p \<Longrightarrow> Clean p = slash # join_path (clean_comps p)"
  by (cases p) (auto simp: Clean_def Let_def)

lemma IsAbs_Clean [simp]: "IsAbs p \<Longrightarrow> IsAbs (Clean p)"
  by (simp add: Clean_abs)

lemma clean_comps_Clean [path_simps]: "IsAbs p \<Longrightarrow> clean_comps (Clean p) = clean_comps p"
  by (simp add: Clean_abs clean_comps_join_abs clean_comps_no_slash clean_comps_plain)

text \<open>Two clean absolute paths with the same components are the same string.\<close>

lemma Clean_eq_iff:
  "IsAbs p \<Longrightarrow> IsAbs q \<Longrightarrow> Clean p = Clean q \<longleftrightarrow> clean_comps p = clean_comps q"
  by (metis Clean_abs clean_comps_Clean)

lemma clean_comps_append:
  assumes "IsAbs a"
  shows "clean_comps (a @ slash # b) = clean_loop True (rev (clean_comps a)) (split_path b)"
proof -
  have "clean_comps (a @ slash # b) = clean_loop True [] (split_path a @ split_path b)"
    using assms by (simp add: clean_comps_def split_on_append_sep IsAbs_append)
  also have "\<dots> = clean_loop True (rev (clean_loop True [] (split_path a))) (split_path b)"
    by (rule clean_loop_append) simp
  finally show ?thesis using assms by (simp add: clean_comps_def)
qed

text \<open>\<open>Join\<close> of an absolute directory and a path below it appends the path's components.\<close>

lemma Join_abs:
  assumes "IsAbs a"
  shows "IsAbs (Join [a, b])" and "clean_comps (Join [a, b]) = clean_loop True (rev (clean_comps a)) (split_path b)"
proof -
  from assms have ne: "a \<noteq> []" by auto
  have J: "Join [a, b] = Clean (a @ slash # b)" using ne by (simp add: Join_def)
  show "IsAbs (Join [a, b])" using assms by (simp add: J IsAbs_append)
  show "clean_comps (Join [a, b]) = clean_loop True (rev (clean_comps a)) (split_path b)"
    using assms by (simp add: J clean_comps_Clean IsAbs_append clean_comps_append)
qed

lemma Join_plain [path_simps]:
  assumes "IsAbs a" and "plain (split_path b)"
  shows "clean_comps (Join [a, b]) = clean_comps a @ split_path b"
  using Join_abs(2) [OF assms(1)] clean_loop_plain [OF assms(2), of True "rev (clean_comps a)" "[]"]
  by simp

lemma Join_component [path_simps]:
  assumes "IsAbs a" and "plain_comp c" and "slash \<notin> set c"
  shows "clean_comps (Join [a, c]) = clean_comps a @ [c]"
  using Join_plain [OF assms(1), of c] assms(2,3) by (simp add: split_on_no_sep)

lemma Join3:
  assumes "IsAbs a"
  shows "IsAbs (Join [a, b, c])" and
    "clean_comps (Join [a, b, c]) = clean_loop True (rev (clean_comps a)) (split_path b @ split_path c)"
proof -
  from assms have ne: "a \<noteq> []" by auto
  have J: "Join [a, b, c] = Clean (a @ slash # (b @ slash # c))" using ne by (simp add: Join_def)
  show "IsAbs (Join [a, b, c])" using assms by (simp add: J IsAbs_append)
  show "clean_comps (Join [a, b, c]) = clean_loop True (rev (clean_comps a)) (split_path b @ split_path c)"
    using assms by (simp add: J clean_comps_Clean IsAbs_append clean_comps_append split_on_append_sep)
qed

lemma IsAbs_Abs: "IsAbs cwd \<Longrightarrow> IsAbs (Abs cwd p)"
  by (simp add: Abs_def Join_abs)

text \<open>Where the kernel finds a path: the components of its absolute form.\<close>

definition resolve :: "string \<Rightarrow> string \<Rightarrow> string list" where
  "resolve cwd p = clean_comps (Abs cwd p)"

lemma resolve_abs [path_simps]: "IsAbs p \<Longrightarrow> resolve cwd p = clean_comps p"
  by (simp add: resolve_def Abs_def clean_comps_Clean)

lemma resolve_plain: "IsAbs cwd \<Longrightarrow> plain (resolve cwd p)"
  unfolding resolve_def by (rule clean_comps_plain) (rule IsAbs_Abs)

section \<open>The parent of a clean path\<close>

lemma join_with_snoc: "xs \<noteq> [] \<Longrightarrow> join_with s (xs @ [x]) = join_with s xs @ s @ x"
  by (induction s xs rule: join_with.induct) auto

lemma drop_last_component:
  "slash \<notin> set c \<Longrightarrow> rev (dropWhile (\<lambda>x. x \<noteq> slash) (rev (s @ slash # c))) = s @ [slash]"
proof -
  assume "slash \<notin> set c"
  then have "dropWhile (\<lambda>x. x \<noteq> slash) (rev c @ slash # rev s) = slash # rev s"
    by (subst dropWhile_append2) auto
  then show ?thesis by simp
qed

lemma clean_comps_trailing_slash: "IsAbs p \<Longrightarrow> clean_comps (p @ [slash]) = clean_comps p"
  by (simp add: clean_comps_append clean_loop_skip)

lemma Dir_Clean:
  assumes "IsAbs p"
  shows "IsAbs (Dir (Clean p))" and "clean_comps (Dir (Clean p)) = butlast (clean_comps p)"
proof -
  let ?cs = "clean_comps p"
  have ns: "no_slash ?cs" and pl: "plain ?cs" using assms by (simp_all add: clean_comps_no_slash clean_comps_plain)
  have "\<exists>q. IsAbs q \<and> rev (dropWhile (\<lambda>x. x \<noteq> slash) (rev (Clean p))) = q \<and> clean_comps q = butlast ?cs"
  proof (cases "?cs = []")
    case True
    then have "Clean p = [slash]" using assms by (simp add: Clean_abs)
    then show ?thesis using True by (simp add: clean_comps_def)
  next
    case False
    then obtain xs c where cs: "?cs = xs @ [c]" by (metis append_butlast_last_id)
    have c: "slash \<notin> set c" using ns cs by simp
    show ?thesis
    proof (cases "xs = []")
      case True
      then have "Clean p = [] @ slash # c" using assms cs by (simp add: Clean_abs)
      with drop_last_component [OF c, of "[]"] True cs show ?thesis by (simp add: clean_comps_def)
    next
      case False
      let ?q = "slash # join_path xs"
      have "Clean p = ?q @ slash # c" using assms cs False by (simp add: Clean_abs join_with_snoc)
      then have "rev (dropWhile (\<lambda>x. x \<noteq> slash) (rev (Clean p))) = ?q @ [slash]"
        using drop_last_component [OF c, of ?q] by simp
      moreover have "clean_comps ?q = xs"
        using False ns pl cs by (simp add: clean_comps_join_abs)
      ultimately show ?thesis using cs clean_comps_trailing_slash [of ?q] by simp
    qed
  qed
  then obtain q where "IsAbs q" "Dir (Clean p) = Clean q" "clean_comps q = butlast ?cs" by (auto simp: Dir_def)
  then show "IsAbs (Dir (Clean p))" and "clean_comps (Dir (Clean p)) = butlast ?cs"
    by (simp_all add: clean_comps_Clean)
qed

end
