(* ===== verification/Go_Time.thy ===== *)
theory Go_Time
  imports Go_Prelude
begin

text \<open>
  Instants and their stored text. The store writes every \<open>time.Time\<close> with
  \<open>formatTime\<close> (RFC 3339 with the fraction's trailing zeros dropped) and its SQL compares
  and sorts that text, byte by byte. This theory models the text and shows when its order
  is the order of the instants: whenever the whole seconds differ. Within one second it may
  not be.
\<close>

type_synonym time = int \<comment> \<open>nanoseconds since 1970-01-01T00:00:00Z\<close>

abbreviation second :: time where "second \<equiv> 1000000000"

text \<open>The zero \<open>time.Time\<close>, 0001-01-01T00:00:00Z, and \<open>Time.IsZero\<close>.\<close>

definition zero_time :: time where
  "zero_time = - 62135596800 * second"

definition IsZero :: "time \<Rightarrow> bool" where
  "IsZero t \<longleftrightarrow> t = zero_time"

section \<open>Calendar\<close>

text \<open>One digit of the mixed-radix year count: the quotient, capped, and what is left.\<close>

definition radix_step :: "int \<Rightarrow> int \<Rightarrow> int \<Rightarrow> int \<times> int" where
  "radix_step cap b d = (let q = min cap (d div b) in (q, d - b * q))"

definition year_yday :: "int \<Rightarrow> int \<times> int" where
  "year_yday d0 =
     (let n400 = d0 div 146097; d1 = d0 mod 146097;
          (n100, d2) = radix_step 3 36524 d1;
          (n4, d3) = radix_step 24 1461 d2;
          (n1, d4) = radix_step 3 365 d3
      in (400 * n400 + 100 * n100 + 4 * n4 + n1 + 1, d4))"

definition leap :: "int \<Rightarrow> bool" where
  "leap y \<longleftrightarrow> y mod 4 = 0 \<and> (y mod 100 \<noteq> 0 \<or> y mod 400 = 0)"

definition month_lengths :: "int \<Rightarrow> int list" where
  "month_lengths y = [31, if leap y then 29 else 28, 31, 30, 31, 30, 31, 31, 30, 31, 30, 31]"

fun month_day :: "int list \<Rightarrow> int \<Rightarrow> int \<times> int" where
  "month_day [] n = (0, n)"
| "month_day (l # ls) n = (if n < l then (0, n) else (let (m, d) = month_day ls (n - l) in (m + 1, d)))"

text \<open>Days of 0001-01-01 before 1970-01-01, so that day numbers count from year 1.\<close>

definition epoch_days :: int where
  "epoch_days = 719162"

definition civil :: "int \<Rightarrow> int \<times> int \<times> int" where
  "civil day = (let (y, yd) = year_yday day; (m, d) = month_day (month_lengths y) yd in (y, m + 1, d + 1))"

lemma civil_examples:
  "civil epoch_days = (1970, 1, 1)"
  "civil (epoch_days + 11016) = (2000, 2, 29)"
  "civil (epoch_days + 19722) = (2023, 12, 31)"
  "civil (epoch_days + 19723) = (2024, 1, 1)"
  "civil 0 = (1, 1, 1)"
  by code_simp+

section \<open>The stored text\<close>

definition date_text :: "int \<times> int \<times> int \<Rightarrow> string" where
  "date_text ymd = (case ymd of (y, m, d) \<Rightarrow>
     pad_digits 4 y @ ''-'' @ pad_digits 2 m @ ''-'' @ pad_digits 2 d)"

definition clock_text :: "int \<Rightarrow> string" where
  "clock_text s = pad_digits 2 (s div 3600) @ '':'' @ pad_digits 2 (s div 60 mod 60) @ '':'' @ pad_digits 2 (s mod 60)"

definition fraction_text :: "int \<Rightarrow> string" where
  "fraction_text ns =
     (if ns = 0 then []
      else ''.'' @ rev (dropWhile (\<lambda>c. c = CHR ''0'') (rev (fixed_digits 9 ns))))"

definition seconds_text :: "int \<Rightarrow> string" where
  "seconds_text s = date_text (civil (s div 86400 + epoch_days)) @ ''T'' @ clock_text (s mod 86400)"

definition formatTime :: "time \<Rightarrow> string" where
  "formatTime t = seconds_text (t div second) @ fraction_text (t mod second) @ ''Z''"

text \<open>The instants whose year has four digits, which Go's RFC 3339 layout is made for.\<close>

definition time_ok :: "time \<Rightarrow> bool" where
  "time_ok t \<longleftrightarrow> zero_time \<le> t \<and> t < 253402300800 * second"

text \<open>SQL's \<open><=\<close>, \<open><\<close> and \<open>ORDER BY\<close> on the stored columns.\<close>

definition text_le :: "time \<Rightarrow> time \<Rightarrow> bool" where
  "text_le a b \<longleftrightarrow> formatTime a \<le> formatTime b"

definition text_less :: "time \<Rightarrow> time \<Rightarrow> bool" where
  "text_less a b \<longleftrightarrow> formatTime a < formatTime b"

lemma formatTime_examples:
  "formatTime 0 = ''1970-01-01T00:00:00Z''"
  "formatTime (1709209845 * second + 500000000) = ''2024-02-29T12:30:45.5Z''"
  "formatTime zero_time = ''0001-01-01T00:00:00Z''"
  by code_simp+

section \<open>Text order and time order\<close>

lemma less_append_eq_length:
  "length a = length b \<Longrightarrow> (a :: string) < b \<Longrightarrow> a @ x < b @ y"
  by (induction a b rule: list_induct2) auto

lemma less_append_same [simp]: "(a :: string) @ x < a @ y \<longleftrightarrow> x < y"
  by (induction a) auto

lemma digit_less:
  assumes "0 \<le> a" and "a < b" and "b < (10 :: int)"
  shows "(char_of (48 + a) :: char) < char_of (48 + b)"
proof -
  have "of_char (char_of (48 + x) :: char) = nat (48 + x)" if "0 \<le> x" "x < 10" for x :: int
  proof -
    have "(char_of (48 + x) :: char) = char_of (nat (48 + x))"
      using that char_of_nat [of "nat (48 + x)", where ?'a = int] by simp
    with that show ?thesis by simp
  qed
  with assms show ?thesis by (simp add: less_char_def)
qed

lemma fixed_digits_less:
  "0 \<le> n \<Longrightarrow> n < n' \<Longrightarrow> n' < 10 ^ w \<Longrightarrow> fixed_digits w n < fixed_digits w n'"
proof (induction w arbitrary: n n')
  case 0
  then show ?case by simp
next
  case (Suc w)
  from Suc.prems have b: "n' div 10 < 10 ^ w" by auto
  show ?case
  proof (cases "n div 10 < n' div 10")
    case True
    with Suc.IH Suc.prems b show ?thesis by (auto intro: less_append_eq_length)
  next
    case False
    with Suc.prems(2) have "n div 10 = n' div 10" and "n mod 10 < n' mod 10" by presburger+
    then show ?thesis by (simp add: digit_less)
  qed
qed

lemma length_digits_of: "n < 10 ^ Suc w \<Longrightarrow> length (digits_of n) \<le> Suc w"
proof (induction w arbitrary: n)
  case 0
  then show ?case by (simp add: digits_of.simps [of n])
next
  case (Suc w)
  then have "n div 10 < 10 ^ Suc w" by auto
  then have "length (digits_of (n div 10)) \<le> Suc w" by (rule Suc.IH)
  then show ?case by (simp add: digits_of.simps [of n])
qed

lemma char_of_48 [simp]: "(char_of (48 :: int) :: char) = CHR ''0''"
  by code_simp

lemma fixed_digits_zero: "fixed_digits w 0 = replicate w (CHR ''0'')"
  by (induction w) (auto simp: replicate_append_same)

lemma pad_digits_fixed:
  "0 \<le> n \<Longrightarrow> n < 10 ^ Suc w \<Longrightarrow> pad_digits (Suc w) n = fixed_digits (Suc w) n"
proof (induction w arbitrary: n)
  case 0
  then show ?case by (simp add: pad_digits_def digits_of.simps [of n])
next
  case (Suc w)
  show ?case
  proof (cases "n < 10")
    case True
    with Suc.prems have "n div 10 = 0" by auto
    with True Suc.prems show ?thesis
      by (simp add: pad_digits_def digits_of.simps [of n] fixed_digits_zero replicate_append_same)
  next
    case False
    from Suc.prems have b: "n div 10 < 10 ^ Suc w" "0 \<le> n div 10" by auto
    from Suc.IH [OF b(2,1)] length_digits_of [OF b(1)] False show ?thesis
      by (simp add: pad_digits_def Let_def digits_of.simps [of n])
  qed
qed


lemma fixed_digits_eq_or_less:
  "0 \<le> n \<Longrightarrow> n < n' \<Longrightarrow> n' < 10 ^ Suc w \<Longrightarrow> pad_digits (Suc w) n @ x < pad_digits (Suc w) n' @ y"
  by (intro less_append_eq_length) (simp_all only: pad_digits_fixed fixed_digits_less length_fixed_digits)

lemma pad2_less:
  "0 \<le> n \<Longrightarrow> n < n' \<Longrightarrow> n' < 100 \<Longrightarrow> pad_digits 2 n @ x < pad_digits 2 n' @ y"
  using fixed_digits_eq_or_less [of n n' 1 x y] by (simp add: numeral_eq_Suc)

lemma radix_step_bounds:
  assumes "radix_step c b d = (q, r)" and "0 \<le> d" and "0 < b" and "0 \<le> c" and "d \<le> b * (c + 1)"
  shows "0 \<le> q" and "q \<le> c" and "0 \<le> r" and "d = b * q + r" and "r \<le> b" and "q < c \<Longrightarrow> r < b"
    and "d < b * (c + 1) \<Longrightarrow> r < b"
proof -
  from assms(1) have q: "q = min c (d div b)" and r: "r = d - b * q"
    by (auto simp: radix_step_def Let_def)
  from q assms show q0: "0 \<le> q" and "q \<le> c" by (auto simp: pos_imp_zdiv_nonneg_iff)
  show "d = b * q + r" using r by simp
  have "b * q \<le> b * (d div b)" using q assms(3) by (simp add: mult_left_mono)
  also have "\<dots> \<le> d" using assms(3) by (metis div_mult_mod_eq mult.commute le_add_same_cancel1 pos_mod_sign)
  finally show "0 \<le> r" using r by simp
  have lt: "d < b * (d div b) + b"
    using assms(3) by (metis add.commute add_less_cancel_right div_mult_mod_eq mult.commute pos_mod_bound)
  show "r < b" if "q < c"
  proof -
    from that q have "q = d div b" by (simp add: min_def split: if_splits)
    with lt r show ?thesis by simp
  qed
  have small: "r < b" if "d div b \<le> c"
  proof -
    from that q have "q = d div b" by (simp add: min_def)
    with lt r show ?thesis by simp
  qed
  have big: "r = d - b * c" if "c < d div b" using that q r by simp
  show "r \<le> b"
    using small big assms(5) by (cases "d div b \<le> c") (auto simp: algebra_simps)
  show "r < b" if "d < b * (c + 1)"
    using small big that by (cases "d div b \<le> c") (auto simp: algebra_simps)
qed

lemma radix_step_mono:
  assumes "radix_step c b d = (q, r)" and "radix_step c b d' = (q', r')" and "d < d'" and "0 < b"
  shows "q < q' \<or> q = q' \<and> r < r'"
proof -
  have "d div b \<le> d' div b" using assms(3,4) by (simp add: zdiv_mono1)
  with assms show ?thesis by (auto simp: radix_step_def Let_def min_def split: if_splits)
qed

lemma div_mod_mono:
  "d < d' \<Longrightarrow> 0 < b \<Longrightarrow> d div b < d' div b \<or> d div b = d' div b \<and> d mod b < d' mod (b :: int)"
proof -
  assume "d < d'" and "0 < b"
  then have "d div b \<le> d' div b" by (simp add: zdiv_mono1)
  moreover have "d mod b < d' mod b" if "d div b = d' div b"
    using \<open>d < d'\<close> that div_mult_mod_eq [of d b] div_mult_mod_eq [of d' b]
    by (metis add_less_cancel_left)
  ultimately show ?thesis by linarith
qed

lemma year_yday_mono:
  assumes y: "year_yday d = (y, n)" and y': "year_yday d' = (y', n')" and "0 \<le> d" and "d < d'"
  shows "y < y' \<or> y = y' \<and> n < n'"
proof -
  obtain a b where s1: "radix_step 3 36524 (d mod 146097) = (a, b)" by force
  obtain e f where s2: "radix_step 24 1461 b = (e, f)" by force
  obtain g h where s3: "radix_step 3 365 f = (g, h)" by force
  obtain a' b' where s1': "radix_step 3 36524 (d' mod 146097) = (a', b')" by force
  obtain e' f' where s2': "radix_step 24 1461 b' = (e', f')" by force
  obtain g' h' where s3': "radix_step 3 365 f' = (g', h')" by force
  have m: "0 \<le> d mod 146097" "d mod 146097 \<le> 36524 * (3 + 1)" "0 \<le> d' mod 146097" "d' mod 146097 \<le> 36524 * (3 + 1)"
    by (auto intro: order_trans [OF less_imp_le [OF pos_mod_bound]])
  note B1 = radix_step_bounds [OF s1 m(1) _ _ m(2), simplified]
    and B1' = radix_step_bounds [OF s1' m(3) _ _ m(4), simplified]
  have u: "b \<le> 1461 * (24 + 1)" "b' \<le> 1461 * (24 + 1)" using B1(5) B1'(5) by simp_all
  note B2 = radix_step_bounds [OF s2 B1(3) _ _ u(1), simplified]
    and B2' = radix_step_bounds [OF s2' B1'(3) _ _ u(2), simplified]
  have v: "f \<le> 365 * (3 + 1)" "f' \<le> 365 * (3 + 1)"
    using B2(7) B2'(7) B1(5) B1'(5) by simp_all
  note B3 = radix_step_bounds [OF s3 B2(3) _ _ v(1), simplified]
    and B3' = radix_step_bounds [OF s3' B2'(3) _ _ v(2), simplified]
  have Y: "y = 400 * (d div 146097) + 100 * a + 4 * e + g + 1" "n = h"
    using y by (simp_all add: year_yday_def Let_def s1 s2 s3)
  have Y': "y' = 400 * (d' div 146097) + 100 * a' + 4 * e' + g' + 1" "n' = h'"
    using y' by (simp_all add: year_yday_def Let_def s1' s2' s3')
  have "d div 146097 < d' div 146097 \<or> d div 146097 = d' div 146097 \<and> d mod 146097 < d' mod 146097"
    using div_mod_mono [OF assms(4), of 146097] by simp
  moreover have "d mod 146097 < d' mod 146097 \<Longrightarrow> a < a' \<or> a = a' \<and> b < b'"
    by (rule radix_step_mono [OF s1 s1']) simp_all
  moreover have "b < b' \<Longrightarrow> e < e' \<or> e = e' \<and> f < f'"
    by (rule radix_step_mono [OF s2 s2']) simp_all
  moreover have "f < f' \<Longrightarrow> g < g' \<or> g = g' \<and> h < h'"
    by (rule radix_step_mono [OF s3 s3']) simp_all
  ultimately have "d div 146097 < d' div 146097 \<or> d div 146097 = d' div 146097 \<and>
      (a < a' \<or> a = a' \<and> (e < e' \<or> e = e' \<and> (g < g' \<or> g = g' \<and> h < h')))"
    by blast
  then show ?thesis
    unfolding Y Y' using B1(1,2) B1'(1,2) B2(1,2) B2'(1,2) B3(1,2) B3'(1,2)
    by (elim disjE conjE) linarith+
qed


lemma month_day_mono:
  "month_day ls n = (m, k) \<Longrightarrow> month_day ls n' = (m', k') \<Longrightarrow> n < n' \<Longrightarrow> \<forall>l\<in>set ls. 0 < l \<Longrightarrow>
     0 \<le> m \<and> 0 \<le> m' \<and> (m < m' \<or> m = m' \<and> k < k')"
proof (induction ls arbitrary: n n' m m' k k')
  case Nil
  then show ?case by simp
next
  case (Cons l ls)
  have nn: "month_day xs x = (p, q) \<Longrightarrow> 0 \<le> p" for xs x p q
    by (induction xs arbitrary: x p q) (auto split: if_splits prod.splits)
  show ?case
  proof (cases "n < l")
    case True
    with Cons.prems show ?thesis by (auto split: if_splits prod.splits dest: nn)
  next
    case False
    with Cons.prems have "\<not> n' < l" by simp
    obtain a b where a: "month_day ls (n - l) = (a, b)" by force
    obtain a' b' where a': "month_day ls (n' - l) = (a', b')" by force
    have "0 \<le> a \<and> 0 \<le> a' \<and> (a < a' \<or> a = a' \<and> b < b')"
      by (rule Cons.IH [OF a a']) (use Cons.prems in auto)
    with Cons.prems False \<open>\<not> n' < l\<close> a a' show ?thesis by auto
  qed
qed

lemma month_day_bounds:
  "month_day ls n = (m, k) \<Longrightarrow> 0 \<le> n \<Longrightarrow> n < sum_list ls \<Longrightarrow> \<forall>l\<in>set ls. l \<le> u \<Longrightarrow>
     0 \<le> m \<and> m < int (length ls) \<and> 0 \<le> k \<and> k < u"
proof (induction ls arbitrary: n m k)
  case (Cons l ls)
  show ?case
  proof (cases "n < l")
    case True
    with Cons.prems show ?thesis by auto
  next
    case False
    obtain a b where a: "month_day ls (n - l) = (a, b)" by force
    have "0 \<le> a \<and> a < int (length ls) \<and> 0 \<le> b \<and> b < u"
      by (rule Cons.IH [OF a]) (use Cons.prems False in auto)
    with Cons.prems False a show ?thesis by auto
  qed
qed simp

lemma leap_day:
  assumes "y = 400 * n400 + 100 * a + 4 * e + g + 1" and "0 \<le> a" "a \<le> 3" "0 \<le> e" "e \<le> 24" "0 \<le> g" "g \<le> 3"
  shows "leap y \<longleftrightarrow> g = 3 \<and> (e < 24 \<or> a = 3)"
proof -
  have "y = (g + 1) + 4 * (100 * n400 + 25 * a + e)" using assms(1) by simp
  then have m4: "y mod 4 = (g + 1) mod 4" by (simp only: mod_mult_self2)
  have "y = (4 * e + g + 1) + 100 * (4 * n400 + a)" using assms(1) by simp
  then have m100: "y mod 100 = (4 * e + g + 1) mod 100" by (simp only: mod_mult_self2)
  have "y = (100 * a + 4 * e + g + 1) + 400 * n400" using assms(1) by simp
  then have m400: "y mod 400 = (100 * a + 4 * e + g + 1) mod 400" by (simp only: mod_mult_self2)
  have e100: "4 * e + g + 1 = 100 \<longleftrightarrow> g = 3 \<and> e = 24" using assms(4-7) by presburger
  have "4 * e + g + 1 < 100" if "\<not> (g = 3 \<and> e = 24)"
    using e100 that assms(4-7) by linarith
  then have h100: "y mod 100 = 0 \<longleftrightarrow> g = 3 \<and> e = 24"
    unfolding m100 using e100 assms(4-7) mod_pos_pos_trivial [of "4 * e + g + 1" 100] by fastforce
  have "y mod 4 = 0 \<longleftrightarrow> g = 3" unfolding m4 using assms(6,7) by presburger
  moreover note h100
  moreover have "y mod 400 = 0 \<longleftrightarrow> a = 3" if "g = 3" "e = 24"
    unfolding m400 that using assms(2,3) by (cases "a = 3") (auto simp: mod_pos_pos_trivial)
  ultimately show ?thesis using assms(5) unfolding leap_def by auto
qed

text \<open>The day of the year fits the year's months.\<close>

lemma year_yday_bounds:
  assumes y: "year_yday d = (y, n)" and "0 \<le> d"
  shows "1 \<le> y" and "0 \<le> n" and "n < sum_list (month_lengths y)" and "365 * (y - 1) \<le> d"
proof -
  obtain a b where s1: "radix_step 3 36524 (d mod 146097) = (a, b)" by force
  obtain e f where s2: "radix_step 24 1461 b = (e, f)" by force
  obtain g h where s3: "radix_step 3 365 f = (g, h)" by force
  have m: "0 \<le> d mod 146097" "d mod 146097 \<le> 36524 * (3 + 1)"
    by (auto intro: order_trans [OF less_imp_le [OF pos_mod_bound]])
  note B1 = radix_step_bounds [OF s1 m(1) _ _ m(2), simplified]
  have u: "b \<le> 1461 * (24 + 1)" using B1(5) by simp
  note B2 = radix_step_bounds [OF s2 B1(3) _ _ u(1), simplified]
  have v: "f \<le> 365 * (3 + 1)" using B2(7) B1(5) by simp
  note B3 = radix_step_bounds [OF s3 B2(3) _ _ v(1), simplified]
  have Y: "y = 400 * (d div 146097) + 100 * a + 4 * e + g + 1" and n: "n = h"
    using y by (simp_all add: year_yday_def Let_def s1 s2 s3)
  have q: "0 \<le> d div 146097" using assms(2) by simp
  show "1 \<le> y" and "0 \<le> n" using Y n q B1(1) B2(1) B3(1,3) by simp_all
  have "d = 146097 * (d div 146097) + d mod 146097" by simp
  then show "365 * (y - 1) \<le> d" using Y q B1(1,4) B2(1,4) B3(1,3,4) by simp
  have lp: "leap y \<longleftrightarrow> g = 3 \<and> (e < 24 \<or> a = 3)"
    by (rule leap_day [OF Y]) (use B1(1,2) B2(1,2) B3(1,2) in auto)
  have "h < (if leap y then 366 else 365)"
  proof (cases "leap y")
    case True
    with B3(5) show ?thesis by simp
  next
    case False
    with lp B3(2) consider "g < 3" | "g = 3" "e = 24" "a < 3" using B2(2) B1(2) by linarith
    then show ?thesis
    proof cases
      case 1
      with B3(6) False show ?thesis by simp
    next
      case 2
      with B1(6) B1(4) B2(4) B3(4) have "1461 * 24 + (365 * 3 + h) < 36524" by simp
      with False show ?thesis by simp
    qed
  qed
  then show "n < sum_list (month_lengths y)" using n by (auto simp: month_lengths_def split: if_splits)
qed


lemma month_lengths_pos: "\<forall>l\<in>set (month_lengths y). 0 < l" "\<forall>l\<in>set (month_lengths y). l \<le> 31"
  by (auto simp: month_lengths_def)

lemma civil_bounds:
  assumes "civil d = (y, m, k)" and "0 \<le> d"
  shows "1 \<le> y" and "1 \<le> m" and "m \<le> 12" and "1 \<le> k" and "k \<le> 31" and "365 * (y - 1) \<le> d"
proof -
  obtain n where y: "year_yday d = (y, n)"
    using assms(1) by (auto simp: civil_def Let_def split: prod.splits)
  obtain m' k' where m: "month_day (month_lengths y) n = (m', k')" by force
  have mk: "m = m' + 1" "k = k' + 1" using assms(1) y m by (auto simp: civil_def)
  note b = year_yday_bounds [OF y assms(2)]
  have "0 \<le> m' \<and> m' < int (length (month_lengths y)) \<and> 0 \<le> k' \<and> k' < 31"
    by (rule month_day_bounds [OF m b(2,3) month_lengths_pos(2)])
  then show "1 \<le> m" "m \<le> 12" "1 \<le> k" "k \<le> 31" using mk by (auto simp: month_lengths_def)
  show "1 \<le> y" "365 * (y - 1) \<le> d" using b by auto
qed

lemma civil_mono:
  assumes "civil d = (y, m, k)" and "civil d' = (y', m', k')" and "0 \<le> d" and "d < d'"
  shows "y < y' \<or> y = y' \<and> (m < m' \<or> m = m' \<and> k < k')"
proof -
  obtain n where y: "year_yday d = (y, n)"
    using assms(1) by (auto simp: civil_def Let_def split: prod.splits)
  obtain n' where y': "year_yday d' = (y', n')"
    using assms(2) by (auto simp: civil_def Let_def split: prod.splits)
  consider "y < y'" | "y = y'" "n < n'" using year_yday_mono [OF y y' assms(3,4)] by blast
  then show ?thesis
  proof cases
    case 2
    obtain p q where m: "month_day (month_lengths y) n = (p, q)" by force
    obtain p' q' where m': "month_day (month_lengths y) n' = (p', q')" by force
    have "p < p' \<or> p = p' \<and> q < q'"
      using month_day_mono [OF m m' 2(2) month_lengths_pos(1)] by blast
    with 2 m m' y y' assms(1,2) show ?thesis by (auto simp: civil_def)
  qed simp
qed

lemma civil_last: "civil 3652058 = (9999, 12, 31)"
  by code_simp

lemma civil_year_le:
  assumes "civil d = (y, m, k)" and "0 \<le> d" and "d < 3652059"
  shows "y \<le> 9999"
proof (cases "d = 3652058")
  case True
  with assms(1) civil_last show ?thesis by simp
next
  case False
  with civil_mono [OF assms(1) civil_last assms(2)] assms(3) show ?thesis by linarith
qed

lemma date_text_less:
  assumes c: "civil d = (y, m, k)" "civil d' = (y', m', k')" and "0 \<le> d" "d < d'" and "d' < 3652059"
  shows "date_text (civil d) @ x < date_text (civil d') @ z"
proof -
  note b = civil_bounds [OF c(1) assms(3)]
  have b': "1 \<le> y'" "1 \<le> m'" "m' \<le> 12" "1 \<le> k'" "k' \<le> 31" "365 * (y' - 1) \<le> d'"
    using civil_bounds [OF c(2)] assms(3,4) by auto
  have yu: "y' < 10 ^ Suc 3" using civil_year_le [OF c(2)] assms(3-5) by simp
  note pad = fixed_digits_eq_or_less
  consider "y < y'" | "y = y'" "m < m'" | "y = y'" "m = m'" "k < k'"
    using civil_mono [OF c assms(3,4)] by blast
  then show ?thesis
  proof cases
    case 1
    from pad [OF _ 1 yu] b show ?thesis by (simp add: date_text_def c numeral_eq_Suc)
  next
    case 2
    from pad [OF _ 2(2), of 1] b b' show ?thesis by (simp add: date_text_def c 2 numeral_eq_Suc)
  next
    case 3
    from pad [OF _ 3(3), of 1] b b' show ?thesis by (simp add: date_text_def c 3 numeral_eq_Suc)
  qed
qed


section \<open>Order of the whole text\<close>

lemma civil_cases: obtains y m k where "civil d = (y, m, k)"
  by (cases "civil d") auto

lemma length_date_text:
  assumes "civil d = (y, m, k)" and "0 \<le> d" and "d < 3652059"
  shows "length (date_text (civil d)) = 10"
proof -
  note b = civil_bounds [OF assms(1,2)]
  have "y < 10 ^ Suc 3" using civil_year_le [OF assms] by simp
  with b pad_digits_fixed [of y 3] pad_digits_fixed [of m 1] pad_digits_fixed [of k 1]
  show ?thesis by (simp add: date_text_def assms(1) numeral_eq_Suc)
qed

lemma clock_text_less:
  assumes "0 \<le> s" and "s < s'" and "s' < 86400"
  shows "clock_text s @ x < clock_text s' @ y"
proof -
  have b: "0 \<le> s div 3600" "s' div 3600 < 100" "0 \<le> s div 60 mod 60" "0 \<le> s mod 60"
    using assms by auto
  have b': "s' div 60 mod 60 < 100" "s' mod 60 < 100"
    using pos_mod_bound [of 60 "s' div 60"] pos_mod_bound [of 60 s'] by linarith+
  have h: "t div 3600 = t div 60 div 60" for t :: int by (simp add: zdiv_zmult2_eq [symmetric])
  have "s div 60 < s' div 60 \<or> s div 60 = s' div 60 \<and> s mod 60 < s' mod 60"
    by (rule div_mod_mono [OF assms(2)]) simp
  moreover have "s div 60 < s' div 60 \<Longrightarrow>
      s div 3600 < s' div 3600 \<or> s div 3600 = s' div 3600 \<and> s div 60 mod 60 < s' div 60 mod 60"
    unfolding h by (rule div_mod_mono) simp_all
  ultimately consider "s div 3600 < s' div 3600"
    | "s div 3600 = s' div 3600" "s div 60 mod 60 < s' div 60 mod 60"
    | "s div 3600 = s' div 3600" "s div 60 mod 60 = s' div 60 mod 60" "s mod 60 < s' mod 60"
    unfolding h by metis
  then show ?thesis
  proof cases
    case 1
    show ?thesis unfolding clock_text_def append_assoc by (rule pad2_less [OF b(1) 1 b(2)])
  next
    case 2
    show ?thesis unfolding clock_text_def append_assoc 2(1) less_append_same
      by (rule pad2_less [OF b(3) 2(2) b'(1)])
  next
    case 3
    show ?thesis unfolding clock_text_def append_assoc 3(1,2) less_append_same
      by (rule pad2_less [OF b(4) 3(3) b'(2)])
  qed
qed

lemma time_ok_days:
  assumes "time_ok t"
  shows "0 \<le> t div second div 86400 + epoch_days" and "t div second div 86400 + epoch_days < 3652059"
proof -
  have e: "t div second div 86400 = t div (second * 86400)"
    by (rule zdiv_zmult2_eq [symmetric]) simp
  have "(- 719162 * (second * 86400)) div (second * 86400) \<le> t div (second * 86400)"
    using assms by (intro zdiv_mono1) (simp_all add: time_ok_def zero_time_def)
  then show "0 \<le> t div second div 86400 + epoch_days" unfolding e epoch_days_def by simp
  have "t div (second * 86400) \<le> (2932897 * (second * 86400) - 1) div (second * 86400)"
    using assms by (intro zdiv_mono1) (simp_all add: time_ok_def)
  then show "t div second div 86400 + epoch_days < 3652059" unfolding e epoch_days_def by simp
qed

lemma seconds_text_less:
  assumes "time_ok t" and "time_ok t'" and "t div second < t' div second"
  shows "seconds_text (t div second) @ x < seconds_text (t' div second) @ y"
proof -
  let ?d = "t div second div 86400 + epoch_days" and ?d' = "t' div second div 86400 + epoch_days"
  note b = time_ok_days [OF assms(1)] and b' = time_ok_days [OF assms(2)]
  obtain y1 m1 k1 where c: "civil ?d = (y1, m1, k1)" by (rule civil_cases)
  obtain y2 m2 k2 where c': "civil ?d' = (y2, m2, k2)" by (rule civil_cases)
  consider "?d < ?d'" | "?d = ?d'" "t div second mod 86400 < t' div second mod 86400"
    using div_mod_mono [OF assms(3), of 86400] by auto
  then show ?thesis
  proof cases
    case 1
    from date_text_less [OF c c' b(1) 1 b'(2)] show ?thesis by (simp add: seconds_text_def)
  next
    case 2
    from clock_text_less [OF _ 2(2)] show ?thesis by (simp add: seconds_text_def 2(1))
  qed
qed

text \<open>Instants in different seconds compare as their text does.\<close>

lemma text_order_seconds:
  assumes "time_ok a" and "time_ok b" and "a div second \<noteq> b div second"
  shows "text_le a b \<longleftrightarrow> a \<le> b" and "text_less a b \<longleftrightarrow> a < b"
proof -
  have *: "formatTime a < formatTime b \<and> a < b" if "time_ok a" "time_ok b" "a div second < b div second" for a b
  proof
    show "formatTime a < formatTime b"
      unfolding formatTime_def by (rule seconds_text_less [OF that])
    show "a < b" using that(3) zdiv_mono1 [of b a second] by linarith
  qed
  consider "a div second < b div second" | "b div second < a div second" using assms(3) by linarith
  then have "(text_le a b \<longleftrightarrow> a \<le> b) \<and> (text_less a b \<longleftrightarrow> a < b)"
  proof cases
    case 1
    with * [OF assms(1,2)] have "formatTime a < formatTime b" "a < b" by blast+
    then show ?thesis unfolding text_le_def text_less_def by (meson less_imp_le)
  next
    case 2
    with * [OF assms(2,1)] have "formatTime b < formatTime a" "b < a" by blast+
    then show ?thesis unfolding text_le_def text_less_def by (meson leD less_asym)
  qed
  then show "text_le a b \<longleftrightarrow> a \<le> b" and "text_less a b \<longleftrightarrow> a < b" by blast+
qed

text \<open>Within one second the text order can be the wrong way round: a fraction that is a
  proper prefix of the other is followed by \<open>Z\<close>, which is above every digit.\<close>

lemma text_order_same_second:
  "formatTime (second div 2) = ''1970-01-01T00:00:00.5Z''"
  "formatTime (second * 51 div 100) = ''1970-01-01T00:00:00.51Z''"
  "\<not> text_le 0 (second div 2)"
  "\<not> text_le (second div 2) (second * 51 div 100)"
  by code_simp+

end
