(* ===== verification/Job_Model.thy ===== *)
theory Job_Model
  imports Go_Time
begin

text \<open>
  The data model of \<open>internal/store/model.go\<close>: jobs, transfer parts, job events, and the
  states of a job. A Go pointer field is an option, an \<open>int64\<close> an \<^typ>\<open>int\<close>, a \<open>time.Time\<close>
  an instant. \<open>SourceType\<close> is a string type in Go; the constructor \<open>OtherSource\<close> stands for
  every string that is neither constant.
\<close>

datatype source_type = SourceTypeTorrent | SourceTypeNZB | OtherSource string

datatype client_kind = ClientKindQBit | ClientKindSAB

datatype job_state =
    StateAccepted
  | StateSubmitPending
  | StateSubmitRetry
  | StateRemoteQueued
  | StateRemoteActive
  | StateRemoteFailed
  | StateLocalDownloadPending
  | StateLocalDownloading
  | StateLocalVerify
  | StateCompleted
  | StateRemovePending
  | StateRemoved
  | StateFailed

text \<open>The constants of the Go string types.\<close>

fun source_text :: "source_type \<Rightarrow> string" where
  "source_text SourceTypeTorrent = ''torrent''"
| "source_text SourceTypeNZB = ''nzb''"
| "source_text (OtherSource s) = s"

fun kind_text :: "client_kind \<Rightarrow> string" where
  "kind_text ClientKindQBit = ''qbit''"
| "kind_text ClientKindSAB = ''sab''"

fun state_text :: "job_state \<Rightarrow> string" where
  "state_text StateAccepted = ''accepted''"
| "state_text StateSubmitPending = ''submit_pending''"
| "state_text StateSubmitRetry = ''submit_retry''"
| "state_text StateRemoteQueued = ''remote_queued''"
| "state_text StateRemoteActive = ''remote_active''"
| "state_text StateRemoteFailed = ''remote_failed''"
| "state_text StateLocalDownloadPending = ''local_download_pending''"
| "state_text StateLocalDownloading = ''local_downloading''"
| "state_text StateLocalVerify = ''local_verify''"
| "state_text StateCompleted = ''completed''"
| "state_text StateRemovePending = ''remove_pending''"
| "state_text StateRemoved = ''removed''"
| "state_text StateFailed = ''failed''"

fun Closed :: "job_state \<Rightarrow> bool" where
  "Closed StateRemoteFailed = True"
| "Closed StateRemoved = True"
| "Closed StateFailed = True"
| "Closed _ = False"

record submission_metadata =
  SavePath :: string
  Rename :: string
  Tags :: "string list"
  SkipChecking :: bool
  Paused :: bool
  RootFolder :: bool
  Password :: string
  PostProcessing :: int
  AsQueued :: bool
  AddOnlyIfCached :: bool
  UploadedFilename :: string
  OriginalFilename :: string

definition no_metadata :: submission_metadata where
  "no_metadata =
     \<lparr>SavePath = [], Rename = [], Tags = [], SkipChecking = False, Paused = False, RootFolder = False,
      Password = [], PostProcessing = 0, AsQueued = False, AddOnlyIfCached = False,
      UploadedFilename = [], OriginalFilename = []\<rparr>"

record job =
  jID :: string
  jPublicID :: string
  jSourceType :: source_type
  jClientKind :: client_kind
  jCategory :: string
  jState :: job_state
  jSubmissionKey :: string
  jRemoteID :: "string option"
  jQueuedID :: "string option"
  jQueueAuthID :: "string option"
  jRemoteHash :: "string option"
  jDisplayName :: string
  jInfoHash :: "string option"
  jSourceURI :: "string option"
  jPayloadRef :: "string option"
  jStagingPath :: "string option"
  jCompletedPath :: "string option"
  jBytesTotal :: int
  jBytesDone :: int
  jLocalDownloadStartedAt :: "time option"
  jErrorMessage :: "string option"
  jRetryCount :: int
  jNextRunAt :: "time option"
  jLastRemoteStatus :: "string option"
  jMetadata :: submission_metadata
  jDeleteRequested :: bool
  jClaimedBy :: "string option"
  jClaimedAt :: "time option"
  jCreatedAt :: time
  jUpdatedAt :: time

text \<open>The zero value of \<open>store.Job\<close>, from which composite literals are built.\<close>

definition zero_job :: job where
  "zero_job =
     \<lparr>jID = [], jPublicID = [], jSourceType = OtherSource [], jClientKind = ClientKindQBit, jCategory = [],
      jState = StateAccepted, jSubmissionKey = [], jRemoteID = None, jQueuedID = None, jQueueAuthID = None,
      jRemoteHash = None, jDisplayName = [], jInfoHash = None, jSourceURI = None, jPayloadRef = None,
      jStagingPath = None, jCompletedPath = None, jBytesTotal = 0, jBytesDone = 0,
      jLocalDownloadStartedAt = None, jErrorMessage = None, jRetryCount = 0, jNextRunAt = None,
      jLastRemoteStatus = None, jMetadata = no_metadata, jDeleteRequested = False, jClaimedBy = None,
      jClaimedAt = None, jCreatedAt = zero_time, jUpdatedAt = zero_time\<rparr>"

record transfer_part =
  pID :: int
  pJobID :: string
  pPartKey :: string
  pFileID :: "string option"
  pSourceURL :: string
  pTempPath :: string
  pRelativePath :: string
  pContentLength :: int
  pBytesDone :: int
  pETag :: "string option"
  pCompleted :: bool
  pCreatedAt :: time
  pUpdatedAt :: time

record job_event =
  eID :: int
  eJobID :: string
  eFromState :: "job_state option"
  eToState :: "job_state option"
  eMessage :: string
  eCreatedAt :: time

text \<open>\<open>deref\<close> and \<open>ptr\<close> of the worker: the empty string and the nil pointer stand for each other.\<close>

definition deref :: "string option \<Rightarrow> string" where
  "deref v = (case v of None \<Rightarrow> [] | Some s \<Rightarrow> s)"

definition ptr :: "string \<Rightarrow> string option" where
  "ptr v = (if v = [] then None else Some v)"

lemma deref_ptr [simp]: "deref (ptr v) = v"
  by (simp add: deref_def ptr_def)

lemma ptr_None_iff [simp]: "ptr v = None \<longleftrightarrow> v = []"
  by (simp add: ptr_def)

lemma ptr_Some_iff [simp]: "ptr v = Some w \<longleftrightarrow> v = w \<and> w \<noteq> []"
  by (auto simp: ptr_def)

lemma deref_simps [simp]: "deref None = []" "deref (Some v) = v"
  by (simp_all add: deref_def)

lemma inj_state_text: "state_text a = state_text b \<Longrightarrow> a = b"
  by (cases a; cases b) simp_all

end
