(* ===== verification/Store.thy ===== *)
theory Store
  imports Job_Model
begin

text \<open>
  The SQLite store of \<open>internal/store/store.go\<close> over the schema of
  \<open>internal/store/migrations\<close>: one record with a list of rows per table, in insertion
  order, and one definition per method. The constraints the schema declares are checked
  where SQLite checks them: primary keys, the unique \<open>public_id\<close>, the partial unique index
  on \<open>submission_key\<close> over the active states, the foreign keys of parts and events with
  their cascade. A violated constraint is the error of the statement. Instants are kept as
  instants; the comparisons and sort orders of the SQL are those of their text
  (\<open>text_le\<close> of \<open>Go_Time\<close>).
\<close>

record qbit_session =
  qSID :: string
  qUsername :: string
  qExpiresAt :: time
  qCreatedAt :: time

record store =
  sJobs :: "job list"
  sParts :: "transfer_part list"
  sEvents :: "job_event list"
  sSessions :: "qbit_session list"
  sNextPart :: int
  sNextEvent :: int

definition empty_store :: store where
  "empty_store = \<lparr>sJobs = [], sParts = [], sEvents = [], sSessions = [], sNextPart = 1, sNextEvent = 1\<rparr>"

section \<open>Writes\<close>

text \<open>The states of the partial unique index, which are those the duplicate search looks in.\<close>

definition active_states :: "job_state list" where
  "active_states =
     [StateAccepted, StateSubmitPending, StateSubmitRetry, StateRemoteQueued, StateRemoteActive,
      StateLocalDownloadPending, StateLocalDownloading, StateLocalVerify, StateCompleted, StateRemovePending]"

definition active :: "job \<Rightarrow> bool" where
  "active j \<longleftrightarrow> jState j \<in> set active_states"

definition job_exists :: "store \<Rightarrow> string \<Rightarrow> bool" where
  "job_exists st i \<longleftrightarrow> i \<in> jID ` set (sJobs st)"

text \<open>Another active row with the submission key of \<open>job\<close>.\<close>

definition key_taken :: "store \<Rightarrow> job \<Rightarrow> bool" where
  "key_taken st job \<longleftrightarrow>
     active job \<and> list_ex (\<lambda>r. jID r \<noteq> jID job \<and> active r \<and> jSubmissionKey r = jSubmissionKey job) (sJobs st)"

definition AppendEvent ::
  "store \<Rightarrow> time \<Rightarrow> string \<Rightarrow> job_state option \<Rightarrow> job_state option \<Rightarrow> string \<Rightarrow> err \<times> store" where
  "AppendEvent st now jobID from to message =
     (if \<not> job_exists st jobID
      then (Some (ErrWrap ''append job event'' (ErrText ''FOREIGN KEY constraint failed'')), st)
      else (nil, st\<lparr>sEvents := sEvents st @
             [\<lparr>eID = sNextEvent st, eJobID = jobID, eFromState = from, eToState = to,
               eMessage = message, eCreatedAt = now\<rparr>],
             sNextEvent := sNextEvent st + 1\<rparr>))"

text \<open>The row that an insert stores: the columns it does not name are NULL.\<close>

definition inserted_row :: "job \<Rightarrow> job" where
  "inserted_row job = job\<lparr>jLocalDownloadStartedAt := None, jClaimedBy := None, jClaimedAt := None\<rparr>"

definition CreateJob :: "store \<Rightarrow> time \<Rightarrow> job \<Rightarrow> err \<times> store" where
  "CreateJob st now job =
     (if job_exists st (jID job)
      then (Some (ErrWrap ''insert job'' (ErrText ''UNIQUE constraint failed: jobs.id'')), st)
      else if list_ex (\<lambda>r. jPublicID r = jPublicID job) (sJobs st)
      then (Some (ErrWrap ''insert job'' (ErrText ''UNIQUE constraint failed: jobs.public_id'')), st)
      else if key_taken st job
      then (Some (ErrWrap ''insert job'' (ErrText ''UNIQUE constraint failed: jobs.submission_key'')), st)
      else AppendEvent (st\<lparr>sJobs := sJobs st @ [inserted_row job]\<rparr>) now (jID job) None (Some (jState job)) ''job created'')"

text \<open>The row after an update: identifiers and creation time stay, the claim is cleared.\<close>

definition updated_row :: "job \<Rightarrow> job \<Rightarrow> job" where
  "updated_row job row =
     job\<lparr>jID := jID row, jPublicID := jPublicID row, jCreatedAt := jCreatedAt row,
         jLocalDownloadStartedAt := None, jClaimedBy := None, jClaimedAt := None\<rparr>"

definition UpdateJob :: "store \<Rightarrow> job \<Rightarrow> err \<times> store" where
  "UpdateJob st job =
     (if job_exists st (jID job) \<and> key_taken st job
      then (Some (ErrWrap ''update job'' (ErrText ''UNIQUE constraint failed: jobs.submission_key'')), st)
      else (nil, st\<lparr>sJobs := map (\<lambda>r. if jID r = jID job then updated_row job r else r) (sJobs st)\<rparr>))"

definition UpdateJobState :: "store \<Rightarrow> time \<Rightarrow> job \<Rightarrow> job_state \<Rightarrow> string \<Rightarrow> err \<times> job \<times> store" where
  "UpdateJobState st now job next_state message =
     (let prev = jState job;
          job' = job\<lparr>jState := next_state, jUpdatedAt := now\<rparr>
      in case UpdateJob st job' of
           (Some e, st') \<Rightarrow> (Some e, job', st')
         | (None, st') \<Rightarrow> (case AppendEvent st' now (jID job') (Some prev) (Some next_state) message of
             (e, st'') \<Rightarrow> (e, job', st'')))"

text \<open>The row that \<open>ON CONFLICT(job_id, part_key) DO UPDATE\<close> leaves.\<close>

definition merged_part :: "transfer_part \<Rightarrow> transfer_part \<Rightarrow> transfer_part" where
  "merged_part part row = part\<lparr>pID := pID row, pCreatedAt := pCreatedAt row\<rparr>"

definition same_part :: "transfer_part \<Rightarrow> transfer_part \<Rightarrow> bool" where
  "same_part p r \<longleftrightarrow> pJobID r = pJobID p \<and> pPartKey r = pPartKey p"

definition UpsertTransferPart :: "store \<Rightarrow> transfer_part \<Rightarrow> err \<times> store" where
  "UpsertTransferPart st part =
     (if \<not> job_exists st (pJobID part)
      then (Some (ErrWrap ''upsert transfer part'' (ErrText ''FOREIGN KEY constraint failed'')), st)
      else if list_ex (same_part part) (sParts st)
      then (nil, st\<lparr>sParts := map (\<lambda>r. if same_part part r then merged_part part r else r) (sParts st)\<rparr>)
      else (nil, st\<lparr>sParts := sParts st @ [part\<lparr>pID := sNextPart st\<rparr>], sNextPart := sNextPart st + 1\<rparr>))"

definition DeleteTransferParts :: "store \<Rightarrow> string \<Rightarrow> err \<times> store" where
  "DeleteTransferParts st jobID = (nil, st\<lparr>sParts := filter (\<lambda>p. pJobID p \<noteq> jobID) (sParts st)\<rparr>)"

text \<open>Deleting job rows deletes their parts and events (\<open>ON DELETE CASCADE\<close>).\<close>

definition delete_jobs :: "store \<Rightarrow> (job \<Rightarrow> bool) \<Rightarrow> store" where
  "delete_jobs st gone =
     (let ids = map jID (filter gone (sJobs st)) in
      st\<lparr>sJobs := filter (\<lambda>r. \<not> gone r) (sJobs st),
         sParts := filter (\<lambda>p. pJobID p \<notin> set ids) (sParts st),
         sEvents := filter (\<lambda>e. eJobID e \<notin> set ids) (sEvents st)\<rparr>)"

definition prunable :: "time \<Rightarrow> job \<Rightarrow> bool" where
  "prunable cutoff j \<longleftrightarrow> jState j = StateRemoved \<and> text_less (jUpdatedAt j) cutoff"

definition DeleteRemovedOlderThan :: "store \<Rightarrow> time \<Rightarrow> int \<times> store" where
  "DeleteRemovedOlderThan st cutoff =
     (int (length (filter (prunable cutoff) (sJobs st))), delete_jobs st (prunable cutoff))"

section \<open>Queries\<close>

text \<open>\<open>LIMIT n\<close>: a negative limit is no limit.\<close>

definition sql_limit :: "int \<Rightarrow> 'a list \<Rightarrow> 'a list" where
  "sql_limit n xs = (if n < 0 then xs else take (nat n) xs)"

definition by_created :: "job list \<Rightarrow> job list" where
  "by_created js = sort_key (\<lambda>j. formatTime (jCreatedAt j)) js"

definition by_created_desc :: "job list \<Rightarrow> job list" where
  "by_created_desc js = rev (sort_key (\<lambda>j. formatTime (jCreatedAt j)) (rev js))"

definition FindActiveBySubmissionKey :: "store \<Rightarrow> string \<Rightarrow> job option" where
  "FindActiveBySubmissionKey st key = find (\<lambda>j. jSubmissionKey j = key \<and> active j) (sJobs st)"

definition GetJobByID :: "store \<Rightarrow> string \<Rightarrow> job option" where
  "GetJobByID st i = find (\<lambda>j. jID j = i) (sJobs st)"

definition GetJobByPublicID :: "store \<Rightarrow> string \<Rightarrow> job option" where
  "GetJobByPublicID st i = find (\<lambda>j. jPublicID j = i) (sJobs st)"

definition ListVisibleClientJobs :: "store \<Rightarrow> client_kind \<Rightarrow> string \<Rightarrow> int \<Rightarrow> job list" where
  "ListVisibleClientJobs st kind category limit =
     sql_limit limit (by_created_desc (filter (\<lambda>j. jClientKind j = kind \<and> jState j \<noteq> StateRemoved \<and>
        (category \<noteq> [] \<longrightarrow> jCategory j = category)) (sJobs st)))"

definition due :: "time \<Rightarrow> job \<Rightarrow> bool" where
  "due now j \<longleftrightarrow> (case jNextRunAt j of None \<Rightarrow> True | Some t \<Rightarrow> text_le t now)"

definition ListJobsDue :: "store \<Rightarrow> job_state list \<Rightarrow> time \<Rightarrow> int \<Rightarrow> job list" where
  "ListJobsDue st states now limit =
     (if states = [] then []
      else sql_limit limit (by_created (filter (\<lambda>j. jState j \<in> set states \<and> due now j) (sJobs st))))"

definition ListOpenJobs :: "store \<Rightarrow> job list" where
  "ListOpenJobs st =
     by_created (filter (\<lambda>j. jState j \<notin> {StateRemoteFailed, StateRemoved, StateFailed}) (sJobs st))"

definition ListTransferParts :: "store \<Rightarrow> string \<Rightarrow> transfer_part list" where
  "ListTransferParts st jobID = sort_key pID (filter (\<lambda>p. pJobID p = jobID) (sParts st))"

definition GetJobsByIDs :: "store \<Rightarrow> string list \<Rightarrow> job list" where
  "GetJobsByIDs st ids = (if ids = [] then [] else by_created (filter (\<lambda>j. jID j \<in> set ids) (sJobs st)))"

section \<open>Claims\<close>

definition claimable :: "job_state list \<Rightarrow> time \<Rightarrow> job \<Rightarrow> bool" where
  "claimable states now j \<longleftrightarrow> jState j \<in> set states \<and> due now j \<and> jClaimedBy j = None"

text \<open>The transaction of \<open>ClaimJobsDue\<close>: the identifiers it selects and marks.\<close>

definition claim_ids :: "store \<Rightarrow> job_state list \<Rightarrow> time \<Rightarrow> int \<Rightarrow> string list" where
  "claim_ids st states now limit =
     map jID (sql_limit limit (by_created (filter (claimable states now) (sJobs st))))"

definition mark_claimed :: "string \<Rightarrow> time \<Rightarrow> string list \<Rightarrow> job \<Rightarrow> job" where
  "mark_claimed workerID now ids j =
     (if jID j \<in> set ids then j\<lparr>jClaimedBy := Some workerID, jClaimedAt := Some now\<rparr> else j)"

definition ClaimJobsDue :: "store \<Rightarrow> string \<Rightarrow> job_state list \<Rightarrow> time \<Rightarrow> int \<Rightarrow> job list \<times> store" where
  "ClaimJobsDue st workerID states now limit =
     (if states = [] then ([], st)
      else let ids = claim_ids st states now limit;
               st' = st\<lparr>sJobs := map (mark_claimed workerID now ids) (sJobs st)\<rparr>
           in (GetJobsByIDs st' ids, st'))"

definition unclaimed :: "job \<Rightarrow> job" where
  "unclaimed j = j\<lparr>jClaimedBy := None, jClaimedAt := None\<rparr>"

definition ReleaseJobClaim :: "store \<Rightarrow> string \<Rightarrow> store" where
  "ReleaseJobClaim st jobID = st\<lparr>sJobs := map (\<lambda>j. if jID j = jobID then unclaimed j else j) (sJobs st)\<rparr>"

definition ReleaseAllClaims :: "store \<Rightarrow> store" where
  "ReleaseAllClaims st = st\<lparr>sJobs := map (\<lambda>j. if jClaimedBy j \<noteq> None then unclaimed j else j) (sJobs st)\<rparr>"

section \<open>Sessions\<close>

definition CreateQBitSession :: "store \<Rightarrow> time \<Rightarrow> string \<Rightarrow> string \<Rightarrow> time \<Rightarrow> err \<times> store" where
  "CreateQBitSession st now sid username expiresAt =
     (if list_ex (\<lambda>q. qSID q = sid) (sSessions st)
      then (Some (ErrWrap ''create qbit session'' (ErrText ''UNIQUE constraint failed: qbit_sessions.sid'')), st)
      else (nil, st\<lparr>sSessions := sSessions st @
              [\<lparr>qSID = sid, qUsername = username, qExpiresAt = expiresAt, qCreatedAt = now\<rparr>]\<rparr>))"

definition ValidateQBitSession :: "store \<Rightarrow> time \<Rightarrow> string \<Rightarrow> bool" where
  "ValidateQBitSession st now sid =
     (case find (\<lambda>q. qSID q = sid) (sSessions st) of None \<Rightarrow> False | Some q \<Rightarrow> now < qExpiresAt q)"

definition DeleteQBitSession :: "store \<Rightarrow> string \<Rightarrow> store" where
  "DeleteQBitSession st sid = st\<lparr>sSessions := filter (\<lambda>q. qSID q \<noteq> sid) (sSessions st)\<rparr>"

definition PruneExpiredQBitSessions :: "store \<Rightarrow> time \<Rightarrow> int \<times> store" where
  "PruneExpiredQBitSessions st now =
     (int (length (filter (\<lambda>q. text_le (qExpiresAt q) now) (sSessions st))),
      st\<lparr>sSessions := filter (\<lambda>q. \<not> text_le (qExpiresAt q) now) (sSessions st)\<rparr>)"

end
