(* ===== verification/Store_Facts.thy ===== *)
theory Store_Facts
  imports Store
begin

text \<open>
  The facts about the store that its clients use: what a query returns after a write, the
  well-formedness of a store and its preservation by every method, the audit log, and the
  contract \<open>write_invariant\<close> under which the workers' handlers are proved once for every
  such invariant.
\<close>

section \<open>Lookups after writes\<close>

lemma active_iff: "active j \<longleftrightarrow> \<not> Closed (jState j)"
  by (cases "jState j") (auto simp: active_def active_states_def)

lemma updated_row_simps [simp]:
  "jID (updated_row job r) = jID r" "jPublicID (updated_row job r) = jPublicID r"
  "jState (updated_row job r) = jState job" "jSubmissionKey (updated_row job r) = jSubmissionKey job"
  "jCreatedAt (updated_row job r) = jCreatedAt r" "jClaimedBy (updated_row job r) = None"
  "jNextRunAt (updated_row job r) = jNextRunAt job" "jUpdatedAt (updated_row job r) = jUpdatedAt job"
  "jClientKind (updated_row job r) = jClientKind job" "jCategory (updated_row job r) = jCategory job"
  "active (updated_row job r) = active job" "jRetryCount (updated_row job r) = jRetryCount job"
  "jRemoteID (updated_row job r) = jRemoteID job" "jQueuedID (updated_row job r) = jQueuedID job"
  "jQueueAuthID (updated_row job r) = jQueueAuthID job" "jRemoteHash (updated_row job r) = jRemoteHash job"
  "jErrorMessage (updated_row job r) = jErrorMessage job" "jStagingPath (updated_row job r) = jStagingPath job"
  "jCompletedPath (updated_row job r) = jCompletedPath job" "jPayloadRef (updated_row job r) = jPayloadRef job"
  "jBytesTotal (updated_row job r) = jBytesTotal job" "jBytesDone (updated_row job r) = jBytesDone job"
  "jLastRemoteStatus (updated_row job r) = jLastRemoteStatus job" "jDeleteRequested (updated_row job r) = jDeleteRequested job"
  by (simp_all add: updated_row_def active_def)

lemma unclaimed_simps [simp]:
  "jID (unclaimed j) = jID j" "jPublicID (unclaimed j) = jPublicID j" "jState (unclaimed j) = jState j"
  "jSubmissionKey (unclaimed j) = jSubmissionKey j" "jCreatedAt (unclaimed j) = jCreatedAt j"
  "jClaimedBy (unclaimed j) = None" "active (unclaimed j) = active j"
  by (simp_all add: unclaimed_def active_def)

lemma mark_claimed_simps [simp]:
  "jID (mark_claimed w now ids j) = jID j" "jPublicID (mark_claimed w now ids j) = jPublicID j"
  "jState (mark_claimed w now ids j) = jState j" "jSubmissionKey (mark_claimed w now ids j) = jSubmissionKey j"
  "jCreatedAt (mark_claimed w now ids j) = jCreatedAt j" "active (mark_claimed w now ids j) = active j"
  by (simp_all add: mark_claimed_def active_def)

lemma job_exists_iff_find: "job_exists st i \<longleftrightarrow> GetJobByID st i \<noteq> None"
  by (auto simp: job_exists_def GetJobByID_def find_None_iff)

lemma job_existsI: "j \<in> set (sJobs st) \<Longrightarrow> jID j = i \<Longrightarrow> job_exists st i"
  by (auto simp: job_exists_def)

lemma GetJobByID_SomeD: "GetJobByID st i = Some j \<Longrightarrow> j \<in> set (sJobs st) \<and> jID j = i"
  by (auto simp: GetJobByID_def dest: find_SomeD)

lemma GetJobByID_unique:
  "distinct (map jID (sJobs st)) \<Longrightarrow> j \<in> set (sJobs st) \<Longrightarrow> GetJobByID st (jID j) = Some j"
  unfolding GetJobByID_def by (rule find_unique) simp_all

text \<open>A pass over the rows that keeps identifiers changes what a lookup returns, and nothing else.\<close>

lemma GetJobByID_map [store_simps]:
  "(\<And>r. jID (g r) = jID r) \<Longrightarrow>
   GetJobByID (st\<lparr>sJobs := map g (sJobs st)\<rparr>) i = map_option g (GetJobByID st i)"
  by (simp add: GetJobByID_def find_map_preserving)

lemma job_exists_map [store_simps]:
  "(\<And>r. jID (g r) = jID r) \<Longrightarrow> job_exists (st\<lparr>sJobs := map g (sJobs st)\<rparr>) i = job_exists st i"
  by (auto simp: job_exists_def image_iff)

lemma AppendEvent_jobs [store_simps]:
  "sJobs (snd (AppendEvent st now i f t m)) = sJobs st"
  "sParts (snd (AppendEvent st now i f t m)) = sParts st"
  "sSessions (snd (AppendEvent st now i f t m)) = sSessions st"
  "GetJobByID (snd (AppendEvent st now i f t m)) k = GetJobByID st k"
  "job_exists (snd (AppendEvent st now i f t m)) k = job_exists st k"
  by (simp_all add: AppendEvent_def GetJobByID_def job_exists_def)

lemma AppendEvent_ok [store_simps]:
  "fst (AppendEvent st now i f t m) = nil \<longleftrightarrow> job_exists st i"
  by (simp add: AppendEvent_def)

lemma UpdateJob_parts [store_simps]:
  "sParts (snd (UpdateJob st job)) = sParts st"
  "sEvents (snd (UpdateJob st job)) = sEvents st"
  "sSessions (snd (UpdateJob st job)) = sSessions st"
  "job_exists (snd (UpdateJob st job)) k = job_exists st k"
  by (simp_all add: UpdateJob_def job_exists_map)

lemma UpdateJob_error: "fst (UpdateJob st job) \<noteq> nil \<Longrightarrow> snd (UpdateJob st job) = st"
  by (simp add: UpdateJob_def split: if_splits)

lemma GetJobByID_UpdateJob [store_simps]:
  "fst (UpdateJob st job) = nil \<Longrightarrow>
   GetJobByID (snd (UpdateJob st job)) k =
     (if k = jID job then map_option (updated_row job) (GetJobByID st k) else GetJobByID st k)"
  by (cases "GetJobByID st k") (auto simp: UpdateJob_def GetJobByID_map dest: GetJobByID_SomeD split: if_splits)

lemma UpdateJobState_eq:
  assumes "fst (UpdateJob st (job\<lparr>jState := s, jUpdatedAt := now\<rparr>)) = nil"
  shows "UpdateJobState st now job s m =
    (case AppendEvent (snd (UpdateJob st (job\<lparr>jState := s, jUpdatedAt := now\<rparr>))) now (jID job) (Some (jState job)) (Some s) m of
       (e, st') \<Rightarrow> (e, job\<lparr>jState := s, jUpdatedAt := now\<rparr>, st'))"
  using assms by (auto simp: UpdateJobState_def Let_def split: prod.splits)

lemma UpdateJobState_job [simp]:
  "fst (snd (UpdateJobState st now job s m)) = job\<lparr>jState := s, jUpdatedAt := now\<rparr>"
  by (auto simp: UpdateJobState_def Let_def split: prod.splits option.splits)

lemma UpdateJobState_store:
  "snd (snd (UpdateJobState st now job s m)) =
     (let job' = job\<lparr>jState := s, jUpdatedAt := now\<rparr>; st' = snd (UpdateJob st job') in
      if fst (UpdateJob st job') = nil
      then snd (AppendEvent st' now (jID job) (Some (jState job)) (Some s) m) else st)"
  by (auto simp: UpdateJobState_def Let_def split: prod.splits option.splits dest: UpdateJob_error [THEN sym, THEN trans])
     (metis UpdateJob_error fst_conv option.distinct(1) snd_conv)

lemma UpdateJobState_parts [store_simps]:
  "sParts (snd (snd (UpdateJobState st now job s m))) = sParts st"
  "sSessions (snd (snd (UpdateJobState st now job s m))) = sSessions st"
  "job_exists (snd (snd (UpdateJobState st now job s m))) k = job_exists st k"
  by (simp_all add: UpdateJobState_store Let_def store_simps)

lemma GetJobByID_UpdateJobState [store_simps]:
  "GetJobByID (snd (snd (UpdateJobState st now job s m))) k =
     (if k = jID job \<and> fst (UpdateJob st (job\<lparr>jState := s, jUpdatedAt := now\<rparr>)) = nil
      then map_option (updated_row (job\<lparr>jState := s, jUpdatedAt := now\<rparr>)) (GetJobByID st k)
      else GetJobByID st k)"
  by (simp add: UpdateJobState_store Let_def store_simps)

text \<open>When no other active row has the key, a write succeeds.\<close>

lemma UpdateJob_ok_iff:
  "fst (UpdateJob st job) = nil \<longleftrightarrow> \<not> (job_exists st (jID job) \<and> key_taken st job)"
  by (simp add: UpdateJob_def)

lemma key_taken_inactive [simp]: "\<not> active job \<Longrightarrow> \<not> key_taken st job"
  by (simp add: key_taken_def)

lemma UpsertTransferPart_jobs [store_simps]:
  "sJobs (snd (UpsertTransferPart st p)) = sJobs st"
  "sEvents (snd (UpsertTransferPart st p)) = sEvents st"
  "sSessions (snd (UpsertTransferPart st p)) = sSessions st"
  "GetJobByID (snd (UpsertTransferPart st p)) k = GetJobByID st k"
  "job_exists (snd (UpsertTransferPart st p)) k = job_exists st k"
  by (simp_all add: UpsertTransferPart_def GetJobByID_def job_exists_def)

lemma ReleaseJobClaim_simps [store_simps]:
  "sParts (ReleaseJobClaim st i) = sParts st" "sEvents (ReleaseJobClaim st i) = sEvents st"
  "sSessions (ReleaseJobClaim st i) = sSessions st"
  "job_exists (ReleaseJobClaim st i) k = job_exists st k"
  "GetJobByID (ReleaseJobClaim st i) k =
     map_option (\<lambda>j. if jID j = i then unclaimed j else j) (GetJobByID st k)"
  by (simp_all add: ReleaseJobClaim_def job_exists_map GetJobByID_map)

lemma UpdateJob_row:
  assumes "fst (UpdateJob st job) = nil" and "job_exists st (jID job)"
  obtains row where "GetJobByID st (jID job) = Some row"
    and "GetJobByID (snd (UpdateJob st job)) (jID job) = Some (updated_row job row)"
  using assms GetJobByID_UpdateJob [OF assms(1), of "jID job"] by (auto simp: job_exists_iff_find)

text \<open>A state update that reports no error has written the row.\<close>

lemma UpdateJobState_row:
  assumes "fst (UpdateJobState st now job s m) = nil"
  obtains row where "GetJobByID st (jID job) = Some row"
    and "GetJobByID (snd (snd (UpdateJobState st now job s m))) (jID job) =
      Some (updated_row (job\<lparr>jState := s, jUpdatedAt := now\<rparr>) row)"
proof -
  let ?job = "job\<lparr>jState := s, jUpdatedAt := now\<rparr>"
  have u: "fst (UpdateJob st ?job) = nil"
    using assms by (auto simp: UpdateJobState_def Let_def split: prod.splits option.splits)
  then have "fst (AppendEvent (snd (UpdateJob st ?job)) now (jID job) (Some (jState job)) (Some s) m) = nil"
    using assms by (simp add: UpdateJobState_eq split: prod.splits)
  then have "job_exists st (jID job)" by (simp add: store_simps)
  then obtain row where "GetJobByID st (jID job) = Some row" by (auto simp: job_exists_iff_find)
  with u that show thesis by (simp add: store_simps)
qed

section \<open>Well-formed stores\<close>

text \<open>What the schema's constraints make of every store the methods can reach.\<close>

definition keys_unique :: "job list \<Rightarrow> bool" where
  "keys_unique js \<longleftrightarrow>
     (\<forall>r\<in>set js. \<forall>q\<in>set js. active r \<and> active q \<and> jSubmissionKey r = jSubmissionKey q \<longrightarrow> jID r = jID q)"

lemma keys_uniqueI:
  "(\<And>r q. r \<in> set js \<Longrightarrow> q \<in> set js \<Longrightarrow> active r \<Longrightarrow> active q \<Longrightarrow>
      jSubmissionKey r = jSubmissionKey q \<Longrightarrow> jID r = jID q) \<Longrightarrow> keys_unique js"
  unfolding keys_unique_def by blast

lemma keys_uniqueD:
  "keys_unique js \<Longrightarrow> r \<in> set js \<Longrightarrow> q \<in> set js \<Longrightarrow> active r \<Longrightarrow> active q \<Longrightarrow>
     jSubmissionKey r = jSubmissionKey q \<Longrightarrow> jID r = jID q"
  unfolding keys_unique_def by blast

lemma keys_unique_subset: "keys_unique js \<Longrightarrow> set ks \<subseteq> set js \<Longrightarrow> keys_unique ks"
  unfolding keys_unique_def by blast

definition jobs_wf :: "job list \<Rightarrow> bool" where
  "jobs_wf js \<longleftrightarrow> distinct (map jID js) \<and> distinct (map jPublicID js) \<and> keys_unique js"

definition parts_wf :: "store \<Rightarrow> bool" where
  "parts_wf st \<longleftrightarrow>
     (\<forall>p\<in>set (sParts st). job_exists st (pJobID p) \<and> pID p < sNextPart st) \<and>
     distinct (map pID (sParts st)) \<and> distinct (map (\<lambda>p. (pJobID p, pPartKey p)) (sParts st))"

definition events_wf :: "store \<Rightarrow> bool" where
  "events_wf st \<longleftrightarrow> (\<forall>e\<in>set (sEvents st). job_exists st (eJobID e))"

definition store_wf :: "store \<Rightarrow> bool" where
  "store_wf st \<longleftrightarrow> jobs_wf (sJobs st) \<and> parts_wf st \<and> events_wf st \<and> distinct (map qSID (sSessions st))"

lemma empty_store_wf: "store_wf empty_store"
  by (simp add: store_wf_def jobs_wf_def keys_unique_def parts_wf_def events_wf_def empty_store_def)

lemma store_wfD:
  assumes "store_wf st"
  shows "distinct (map jID (sJobs st))" and "distinct (map jPublicID (sJobs st))" and "keys_unique (sJobs st)"
    and "parts_wf st" and "events_wf st" and "distinct (map qSID (sSessions st))"
  using assms by (simp_all add: store_wf_def jobs_wf_def)

text \<open>A write that keeps the columns the constraints speak of keeps them satisfied.\<close>

lemma jobs_wf_map:
  assumes "jobs_wf js" and "\<And>r. jID (g r) = jID r" and "\<And>r. jPublicID (g r) = jPublicID r"
    and "keys_unique (map g js)"
  shows "jobs_wf (map g js)"
  using assms by (simp add: jobs_wf_def comp_def)

lemma keys_unique_map_same:
  assumes "keys_unique js" and "\<And>r. jID (g r) = jID r" and "\<And>r. active (g r) = active r"
    and "\<And>r. jSubmissionKey (g r) = jSubmissionKey r"
  shows "keys_unique (map g js)"
proof (rule keys_uniqueI)
  fix r q
  assume "r \<in> set (map g js)" and "q \<in> set (map g js)" and a: "active r" "active q"
    and k: "jSubmissionKey r = jSubmissionKey q"
  then obtain r' q' where *: "r = g r'" "r' \<in> set js" "q = g q'" "q' \<in> set js" by auto
  have "jID r' = jID q'"
    by (rule keys_uniqueD [OF assms(1) *(2,4)]) (use a k assms(3,4) * in simp_all)
  then show "jID r = jID q" using * assms(2) by simp
qed

lemma store_wf_jobs:
  assumes "store_wf st" and "jobs_wf js" and "jID ` set js = jID ` set (sJobs st)"
  shows "store_wf (st\<lparr>sJobs := js\<rparr>)"
  using assms by (simp add: store_wf_def parts_wf_def events_wf_def job_exists_def)

lemma store_wf_map:
  assumes "store_wf st" and "\<And>r. jID (g r) = jID r" and "\<And>r. jPublicID (g r) = jPublicID r"
    and "keys_unique (map g (sJobs st))"
  shows "store_wf (st\<lparr>sJobs := map g (sJobs st)\<rparr>)"
  using assms by (intro store_wf_jobs jobs_wf_map) (auto simp: store_wf_def image_iff)

lemma AppendEvent_wf: "store_wf st \<Longrightarrow> store_wf (snd (AppendEvent st now i f t m))"
  by (auto simp: AppendEvent_def store_wf_def parts_wf_def events_wf_def job_exists_def)

lemma UpdateJob_wf:
  assumes "store_wf st"
  shows "store_wf (snd (UpdateJob st job))"
proof (cases "job_exists st (jID job) \<and> key_taken st job")
  case True
  with assms show ?thesis by (simp add: UpdateJob_def)
next
  case False
  let ?g = "\<lambda>r. if jID r = jID job then updated_row job r else r"
  note u = store_wfD [OF assms]
  have "keys_unique (map ?g (sJobs st))"
  proof (cases "job_exists st (jID job)")
    case True
    with False have free: "\<not> key_taken st job" by simp
    have fresh: "jID (?g x) = jID job"
      if "x \<in> set (sJobs st)" "active job" "active (?g x)" "jSubmissionKey (?g x) = jSubmissionKey job" for x
      using that free by (auto simp: key_taken_def list_ex_iff split: if_splits)
    show ?thesis
    proof (rule keys_uniqueI)
      fix r q
      assume r: "r \<in> set (map ?g (sJobs st))" and q: "q \<in> set (map ?g (sJobs st))"
        and a: "active r" "active q" and k: "jSubmissionKey r = jSubmissionKey q"
      obtain x where x: "r = ?g x" "x \<in> set (sJobs st)" using r unfolding set_map by (rule imageE)
      obtain y where y: "q = ?g y" "y \<in> set (sJobs st)" using q unfolding set_map by (rule imageE)
      consider "jID x = jID job" | "jID y = jID job" | "jID x \<noteq> jID job" "jID y \<noteq> jID job" by blast
      then show "jID r = jID q"
      proof cases
        case 1
        with x y a k fresh [of y] show ?thesis by simp
      next
        case 2
        with x y a k fresh [of x] show ?thesis by simp
      next
        case 3
        with x y a k keys_uniqueD [OF u(3) x(2) y(2)] show ?thesis by simp
      qed
    qed
  next
    case out: False
    then have "map ?g (sJobs st) = sJobs st"
      by (intro map_idI) (auto dest: job_existsI)
    with u(3) show ?thesis by simp
  qed
  with assms have "store_wf (st\<lparr>sJobs := map ?g (sJobs st)\<rparr>)"
    by (intro store_wf_map) simp_all
  then show ?thesis by (simp add: UpdateJob_def if_not_P [OF False])
qed

lemma UpdateJobState_wf: "store_wf st \<Longrightarrow> store_wf (snd (snd (UpdateJobState st now job s m)))"
  by (simp add: UpdateJobState_store Let_def UpdateJob_wf AppendEvent_wf)

lemma UpsertTransferPart_wf:
  assumes "store_wf st"
  shows "store_wf (snd (UpsertTransferPart st p))"
proof -
  have pw: "parts_wf st" using assms by (simp add: store_wf_def)
  let ?g = "\<lambda>r. if same_part p r then merged_part p r else r"
  have g: "pID (?g r) = pID r" "pJobID (?g r) = pJobID r" "pPartKey (?g r) = pPartKey r" for r
    by (simp_all add: merged_part_def same_part_def)
  consider "\<not> job_exists st (pJobID p)" | "job_exists st (pJobID p)" "list_ex (same_part p) (sParts st)"
    | "job_exists st (pJobID p)" "\<not> list_ex (same_part p) (sParts st)" by blast
  then show ?thesis
  proof cases
    case 1
    with assms show ?thesis by (simp add: UpsertTransferPart_def)
  next
    case 2
    have "parts_wf (st\<lparr>sParts := map ?g (sParts st)\<rparr>)"
      using pw by (auto simp: parts_wf_def job_exists_def comp_def g simp del: if_image_distrib)
    with 2 assms show ?thesis
      by (simp add: UpsertTransferPart_def store_wf_def events_wf_def job_exists_def)
  next
    case 3
    with assms pw show ?thesis
      by (auto simp: UpsertTransferPart_def store_wf_def parts_wf_def events_wf_def job_exists_def
          list_ex_iff same_part_def)
  qed
qed

lemma ReleaseJobClaim_wf: "store_wf st \<Longrightarrow> store_wf (ReleaseJobClaim st i)"
  unfolding ReleaseJobClaim_def
  by (intro store_wf_map keys_unique_map_same) (auto simp: store_wf_def jobs_wf_def)

lemma ReleaseAllClaims_wf: "store_wf st \<Longrightarrow> store_wf (ReleaseAllClaims st)"
  unfolding ReleaseAllClaims_def
  by (intro store_wf_map keys_unique_map_same) (auto simp: store_wf_def jobs_wf_def)

lemma ClaimJobsDue_wf: "store_wf st \<Longrightarrow> store_wf (snd (ClaimJobsDue st w states now n))"
proof -
  assume wf: "store_wf st"
  have "store_wf (st\<lparr>sJobs := map (mark_claimed w now ids) (sJobs st)\<rparr>)" for ids
    using wf store_wfD(3) [OF wf] by (intro store_wf_map keys_unique_map_same) simp_all
  with wf show ?thesis by (simp add: ClaimJobsDue_def Let_def)
qed

lemma CreateJob_wf:
  assumes "store_wf st"
  shows "store_wf (snd (CreateJob st now job))"
proof -
  let ?st = "st\<lparr>sJobs := sJobs st @ [inserted_row job]\<rparr>"
  have r: "jID (inserted_row job) = jID job" "jPublicID (inserted_row job) = jPublicID job"
    "active (inserted_row job) = active job" "jSubmissionKey (inserted_row job) = jSubmissionKey job"
    by (simp_all add: inserted_row_def active_def)
  have "store_wf ?st"
    if "\<not> job_exists st (jID job)" "\<not> list_ex (\<lambda>r. jPublicID r = jPublicID job) (sJobs st)" "\<not> key_taken st job"
  proof -
    have free: "jSubmissionKey x \<noteq> jSubmissionKey job" if "x \<in> set (sJobs st)" "active x" "active job" for x
      using \<open>\<not> key_taken st job\<close> \<open>\<not> job_exists st (jID job)\<close> that
      by (auto simp: key_taken_def list_ex_iff dest: job_existsI)
    have "keys_unique (sJobs st @ [inserted_row job])"
    proof (rule keys_uniqueI)
      fix r q
      assume m: "r \<in> set (sJobs st @ [inserted_row job])" "q \<in> set (sJobs st @ [inserted_row job])"
        and a: "active r" "active q" and k: "jSubmissionKey r = jSubmissionKey q"
      from m consider "r \<in> set (sJobs st)" "q \<in> set (sJobs st)" | "r = inserted_row job" "q = inserted_row job"
        | "r \<in> set (sJobs st)" "q = inserted_row job" | "r = inserted_row job" "q \<in> set (sJobs st)" by auto
      then show "jID r = jID q"
      proof cases
        case 1
        then show ?thesis using keys_uniqueD [OF store_wfD(3) [OF assms]] a k by blast
      qed (use a k r free in auto)
    qed
    then have "jobs_wf (sJobs st @ [inserted_row job])"
      using store_wfD(1,2) [OF assms] that r
      by (auto simp: jobs_wf_def job_exists_def list_ex_iff)
    then show ?thesis
      using assms by (auto simp: store_wf_def parts_wf_def events_wf_def job_exists_def)
  qed
  with assms show ?thesis by (simp add: CreateJob_def AppendEvent_wf)
qed

lemma delete_jobs_wf:
  assumes "store_wf st"
  shows "store_wf (delete_jobs st gone)"
proof -
  have ex: "i \<in> jID ` set (filter (\<lambda>r. \<not> gone r) (sJobs st))"
    if "i \<in> jID ` set (sJobs st)" "i \<notin> jID ` set (filter gone (sJobs st))" for i
    using that by auto
  note u = store_wfD [OF assms]
  have "keys_unique (filter (\<lambda>r. \<not> gone r) (sJobs st))"
    by (rule keys_unique_subset [OF u(3)]) auto
  with u(1,2,6) have "jobs_wf (filter (\<lambda>r. \<not> gone r) (sJobs st))" "distinct (map qSID (sSessions st))"
    by (simp_all add: jobs_wf_def distinct_map_filterI)
  with u(4,5) ex show ?thesis
    by (simp add: delete_jobs_def store_wf_def parts_wf_def events_wf_def job_exists_def Let_def
        distinct_map_filterI)
qed

lemma DeleteRemovedOlderThan_wf: "store_wf st \<Longrightarrow> store_wf (snd (DeleteRemovedOlderThan st cutoff))"
  by (simp add: DeleteRemovedOlderThan_def delete_jobs_wf)

lemma session_writes_wf:
  assumes "store_wf st"
  shows "store_wf (snd (CreateQBitSession st now sid u e))" and "store_wf (DeleteQBitSession st sid)"
    and "store_wf (snd (PruneExpiredQBitSessions st now))"
  using assms
  by (auto simp: CreateQBitSession_def DeleteQBitSession_def PruneExpiredQBitSessions_def store_wf_def
      parts_wf_def events_wf_def job_exists_def list_ex_iff distinct_map_filterI)

section \<open>The contract of a write\<close>

text \<open>A handler that ends in a write returns its error; the job it holds is not used any more.\<close>

definition returning :: "err \<times> job \<times> store \<Rightarrow> err \<times> store" where
  "returning out = (case out of (e, _, st) \<Rightarrow> (e, st))"

lemma snd_returning [simp]: "snd (returning out) = snd (snd out)"
  by (simp add: returning_def split: prod.split)

lemma fst_returning [simp]: "fst (returning out) = fst out"
  by (simp add: returning_def split: prod.split)

text \<open>
  A property \<open>I\<close> of stores that survives every write a handler makes about a job it may write
  to: \<open>P st job\<close> says that it may, and depends on the job's identifier, state and row only;
  \<open>T\<close> says which states the handlers may write, and \<open>G\<close> which parts they may store. The
  handlers of the workers are proved to keep such a property once, inside this locale. Its
  interpretations make an instance of well-formedness, of the rows and the parts of other
  jobs, of the sessions, and (in \<open>Store_Audit\<close>) of the audit log.
\<close>

definition same_place :: "transfer_part \<Rightarrow> transfer_part \<Rightarrow> bool" where
  "same_place p q \<longleftrightarrow> pJobID p = pJobID q \<and> pTempPath p = pTempPath q \<and> pRelativePath p = pRelativePath q"

text \<open>A complete part has all its bytes counted.\<close>

definition counted :: "transfer_part \<Rightarrow> bool" where
  "counted p \<longleftrightarrow> (pCompleted p \<longrightarrow> pContentLength p = 0 \<or> pContentLength p \<le> pBytesDone p)"

locale write_contract =
  fixes I :: "store \<Rightarrow> bool" and P :: "store \<Rightarrow> job \<Rightarrow> bool" and T :: "job_state \<Rightarrow> bool"
    and G :: "transfer_part \<Rightarrow> bool"
  assumes may_write_cong: "P st job \<Longrightarrow> jID job' = jID job \<Longrightarrow> jState job' = jState job \<Longrightarrow> P st job'"
    and may_write_row: "P st job \<Longrightarrow> GetJobByID st' (jID job) = GetJobByID st (jID job) \<Longrightarrow> P st' job"
    and update_keeps: "I st \<Longrightarrow> P st job \<Longrightarrow> I (snd (UpdateJob st job)) \<and> P (snd (UpdateJob st job)) job"
    and update_state_keeps: "I st \<Longrightarrow> P st job \<Longrightarrow> T s \<Longrightarrow> UpdateJobState st now job s m = (e, job', st') \<Longrightarrow>
      I st' \<and> (e = nil \<longrightarrow> P st' job')"
    and part_good: "I st \<Longrightarrow> p \<in> set (sParts st) \<Longrightarrow> G p"
    and good_cong: "G p \<Longrightarrow> same_place p q \<Longrightarrow> counted q \<Longrightarrow> G q"
    and upsert_keeps: "I st \<Longrightarrow> P st job \<Longrightarrow> pJobID p = jID job \<Longrightarrow> G p \<Longrightarrow>
      I (snd (UpsertTransferPart st p)) \<and> P (snd (UpsertTransferPart st p)) job"
    and release_keeps: "I st \<Longrightarrow> P st job \<Longrightarrow> I (ReleaseJobClaim st (jID job))"
begin

lemma update_state_keeps_store:
  assumes "I st" and "P st job" and "T s"
  shows "I (snd (snd (UpdateJobState st now job s m)))"
proof -
  obtain e job' st' where u: "UpdateJobState st now job s m = (e, job', st')" by (metis prod_cases3)
  from update_state_keeps [OF assms u] u show ?thesis by simp
qed

lemma update_keeps_store: "I st \<Longrightarrow> P st job \<Longrightarrow> I (snd (UpdateJob st job))"
  using update_keeps by blast

text \<open>The writes of a handler, about the job with some of its other fields set.\<close>

lemma update_state_returns:
  "I st \<Longrightarrow> P st job \<Longrightarrow> jID job' = jID job \<Longrightarrow> jState job' = jState job \<Longrightarrow> T s \<Longrightarrow>
   I (snd (returning (UpdateJobState st now job' s m)))"
  using update_state_keeps_store may_write_cong by simp

lemma update_returns:
  "I st \<Longrightarrow> P st job \<Longrightarrow> jID job' = jID job \<Longrightarrow> jState job' = jState job \<Longrightarrow> I (snd (UpdateJob st job'))"
  using update_keeps_store may_write_cong by blast

end

lemma UpdateJobState_storeI:
  assumes "UpdateJobState st now job s m = (e, job', st')"
  shows "st' = snd (snd (UpdateJobState st now job s m))" and "job' = job\<lparr>jState := s, jUpdatedAt := now\<rparr>"
  using assms UpdateJobState_job [of st now job s m] by simp_all

interpretation wf_writes: write_contract store_wf "\<lambda>_ _. True" "\<lambda>_. True" "\<lambda>_. True"
proof unfold_locales
  fix st now s m e st' and job job' :: job
  assume *: "store_wf st" "UpdateJobState st now job s m = (e, job', st')"
  then show "store_wf st' \<and> (e = nil \<longrightarrow> True)"
    by (simp add: UpdateJobState_wf UpdateJobState_storeI(1) [OF *(2)])
qed (simp_all add: UpdateJob_wf UpsertTransferPart_wf ReleaseJobClaim_wf)

text \<open>Writes about one job leave the rows of the others alone.\<close>

interpretation other_jobs: write_contract "\<lambda>st. GetJobByID st k = v" "\<lambda>st job. jID job \<noteq> k" "\<lambda>_. True" "\<lambda>_. True"
  for k :: string and v :: "job option"
proof unfold_locales
  fix st and job :: job assume *: "GetJobByID st k = v" "jID job \<noteq> k"
  then show "GetJobByID (snd (UpdateJob st job)) k = v \<and> jID job \<noteq> k"
    by (cases "fst (UpdateJob st job) = nil") (simp_all add: store_simps UpdateJob_error)
next
  fix st now s m e st' and job job' :: job
  assume *: "GetJobByID st k = v" "jID job \<noteq> k" "UpdateJobState st now job s m = (e, job', st')"
  then show "GetJobByID st' k = v \<and> (e = nil \<longrightarrow> jID job' \<noteq> k)"
    by (simp add: UpdateJobState_storeI [OF *(3)] store_simps)
next
  fix st and job :: job assume *: "GetJobByID st k = v" "jID job \<noteq> k"
  then show "GetJobByID (ReleaseJobClaim st (jID job)) k = v"
    by (cases v) (auto simp: store_simps dest: GetJobByID_SomeD)
qed (simp_all add: store_simps)

lemma ListTransferParts_cong:
  "filter (\<lambda>p. pJobID p = k) (sParts st) = filter (\<lambda>p. pJobID p = k) (sParts st') \<Longrightarrow>
   ListTransferParts st k = ListTransferParts st' k"
  by (simp add: ListTransferParts_def)

lemma ListTransferParts_Upsert_other [store_simps]:
  assumes "pJobID p \<noteq> k"
  shows "ListTransferParts (snd (UpsertTransferPart st p)) k = ListTransferParts st k"
proof (rule ListTransferParts_cong)
  have "filter (\<lambda>q. pJobID q = k) (map (\<lambda>r. if same_part p r then merged_part p r else r) xs) =
      filter (\<lambda>q. pJobID q = k) xs" for xs
    using assms by (induction xs) (auto simp: merged_part_def same_part_def)
  with assms show "filter (\<lambda>q. pJobID q = k) (sParts (snd (UpsertTransferPart st p))) =
      filter (\<lambda>q. pJobID q = k) (sParts st)"
    by (simp add: UpsertTransferPart_def)
qed

lemma ListTransferParts_job_writes [store_simps]:
  "ListTransferParts (snd (UpdateJob st job)) k = ListTransferParts st k"
  "ListTransferParts (snd (snd (UpdateJobState st now job s m))) k = ListTransferParts st k"
  "ListTransferParts (ReleaseJobClaim st i) k = ListTransferParts st k"
  by (simp_all add: ListTransferParts_def store_simps)

interpretation other_parts: write_contract "\<lambda>st. ListTransferParts st k = v" "\<lambda>st job. jID job \<noteq> k" "\<lambda>_. True" "\<lambda>_. True"
  for k :: string and v :: "transfer_part list"
proof unfold_locales
  fix st now s m e st' and job job' :: job
  assume *: "ListTransferParts st k = v" "jID job \<noteq> k" "UpdateJobState st now job s m = (e, job', st')"
  then show "ListTransferParts st' k = v \<and> (e = nil \<longrightarrow> jID job' \<noteq> k)"
    by (simp add: UpdateJobState_storeI [OF *(3)] store_simps)
qed (simp_all add: store_simps)

text \<open>Handlers about jobs never touch the sessions.\<close>

interpretation session_frame: write_contract "\<lambda>st. sSessions st = v" "\<lambda>_ _. True" "\<lambda>_. True" "\<lambda>_. True"
  for v :: "qbit_session list"
proof unfold_locales
  fix st now s m e st' and job job' :: job
  assume *: "sSessions st = v" "UpdateJobState st now job s m = (e, job', st')"
  then show "sSessions st' = v \<and> (e = nil \<longrightarrow> True)"
    by (simp add: UpdateJobState_storeI(1) [OF *(2)] store_simps)
qed (simp_all add: store_simps)

end
