(* ===== verification/Store_Claims.thy ===== *)
theory Store_Claims
  imports Store_Facts
begin

text \<open>
  Claims. A worker takes the jobs it will process with \<open>ClaimJobsDue\<close>, which marks them with
  the worker's name; a marked job is not taken again until its mark is cleared. The lemmas
  say what a claim returns, that two claims in a row share no job, and that a release gives
  the job back.
\<close>

section \<open>What a limited, sorted selection contains\<close>

lemma set_sql_limit: "set (sql_limit n xs) \<subseteq> set xs"
  by (auto simp: sql_limit_def dest: in_set_takeD)

lemma sql_limit_length: "0 \<le> n \<Longrightarrow> int (length (sql_limit n xs)) \<le> n"
  by (simp add: sql_limit_def)

lemma sql_limit_all: "n < 0 \<or> int (length xs) \<le> n \<Longrightarrow> sql_limit n xs = xs"
  by (auto simp: sql_limit_def)

lemma set_by_created [simp]: "set (by_created js) = set js"
  by (simp add: by_created_def)

lemma length_by_created [simp]: "length (by_created js) = length js"
  by (simp add: by_created_def)

lemma distinct_ids_by_created: "distinct (map jID js) \<Longrightarrow> distinct (map jID (by_created js))"
  unfolding by_created_def by (metis distinct_map distinct_sort set_sort)

lemma distinct_ids_limit: "distinct (map jID js) \<Longrightarrow> distinct (map jID (sql_limit n js))"
  by (simp add: sql_limit_def take_map [symmetric] distinct_take)

text \<open>The jobs a limit leaves out are not older than those it takes.\<close>

lemma limit_takes_oldest:
  assumes "x \<in> set (sql_limit n (by_created js))" and "y \<in> set js" and "y \<notin> set (sql_limit n (by_created js))"
  shows "formatTime (jCreatedAt x) \<le> formatTime (jCreatedAt y)"
proof -
  let ?key = "\<lambda>j. formatTime (jCreatedAt j)" and ?s = "by_created js"
  have n: "\<not> n < 0" using assms by (auto simp: sql_limit_def)
  with assms have x: "x \<in> set (take (nat n) ?s)" by (simp add: sql_limit_def)
  have "y \<in> set (take (nat n) ?s @ drop (nat n) ?s)" using assms(2) unfolding append_take_drop_id by simp
  with assms(3) n have y: "y \<in> set (drop (nat n) ?s)"
    by (simp add: sql_limit_def del: append_take_drop_id)
  have "sorted (map ?key (take (nat n) ?s @ drop (nat n) ?s))" by (simp add: by_created_def)
  then show ?thesis using x y unfolding map_append by (auto simp: sorted_append)
qed

section \<open>A claim\<close>

lemma claim_ids_subset: "i \<in> set (claim_ids st states now n) \<Longrightarrow>
  \<exists>r\<in>set (sJobs st). jID r = i \<and> claimable states now r"
  using set_sql_limit by (fastforce simp: claim_ids_def)

lemma mark_claimed_claimable: "claimable states now (mark_claimed w t ids j) \<longleftrightarrow>
  jID j \<notin> set ids \<and> claimable states now j"
  by (simp add: claimable_def mark_claimed_def due_def)

text \<open>The rows a claim returns, and what it leaves in the store.\<close>

lemma ClaimJobsDue_store:
  "snd (ClaimJobsDue st w states now n) =
     (if states = [] then st
      else st\<lparr>sJobs := map (mark_claimed w now (claim_ids st states now n)) (sJobs st)\<rparr>)"
  by (simp add: ClaimJobsDue_def Let_def)

lemma ClaimJobsDue_returns:
  assumes wf: "store_wf st"
  shows "j \<in> set (fst (ClaimJobsDue st w states now n)) \<longleftrightarrow>
    states \<noteq> [] \<and> jID j \<in> set (claim_ids st states now n) \<and>
    GetJobByID (snd (ClaimJobsDue st w states now n)) (jID j) = Some j"
proof (cases "states = []")
  case True
  then show ?thesis by (simp add: ClaimJobsDue_def)
next
  case False
  let ?ids = "claim_ids st states now n" and ?st = "snd (ClaimJobsDue st w states now n)"
  have d: "distinct (map jID (sJobs ?st))" using ClaimJobsDue_wf [OF wf] by (rule store_wfD(1))
  have "fst (ClaimJobsDue st w states now n) = GetJobsByIDs ?st ?ids"
    using False by (simp add: ClaimJobsDue_def Let_def)
  then show ?thesis
    using False GetJobByID_unique [OF d, of j] GetJobByID_SomeD [of ?st "jID j" j]
    by (auto simp: GetJobsByIDs_def)
qed

text \<open>A job that a claim returns was due, in one of the states and free; now it bears the mark.\<close>

lemma ClaimJobsDue_row:
  assumes wf: "store_wf st" and j: "j \<in> set (fst (ClaimJobsDue st w states now n))"
  obtains r where "GetJobByID st (jID j) = Some r" and "claimable states now r"
    and "j = r\<lparr>jClaimedBy := Some w, jClaimedAt := Some now\<rparr>"
    and "GetJobByID (snd (ClaimJobsDue st w states now n)) (jID j) = Some j"
proof -
  let ?ids = "claim_ids st states now n"
  note * = iffD1 [OF ClaimJobsDue_returns [OF wf] j]
  obtain r where r: "r \<in> set (sJobs st)" "jID r = jID j" "claimable states now r"
    using claim_ids_subset * by blast
  have g: "GetJobByID st (jID j) = Some r" using GetJobByID_unique [OF store_wfD(1) [OF wf] r(1)] r(2) by simp
  then have "GetJobByID (snd (ClaimJobsDue st w states now n)) (jID j) = Some (mark_claimed w now ?ids r)"
    using * by (simp add: ClaimJobsDue_store GetJobByID_map)
  with * r(2) have "j = r\<lparr>jClaimedBy := Some w, jClaimedAt := Some now\<rparr>" by (auto simp: mark_claimed_def)
  with that g r * show thesis by blast
qed

lemma ClaimJobsDue_marks:
  assumes "store_wf st" and "j \<in> set (fst (ClaimJobsDue st w states now n))"
  shows "GetJobByID (snd (ClaimJobsDue st w states now n)) (jID j) = Some j \<and> jClaimedBy j = Some w"
proof -
  obtain r where "j = r\<lparr>jClaimedBy := Some w, jClaimedAt := Some now\<rparr>"
    "GetJobByID (snd (ClaimJobsDue st w states now n)) (jID j) = Some j"
    using ClaimJobsDue_row [OF assms] by blast
  then show ?thesis by (metis job.select_convs(27) job.surjective job.update_convs(27,28))
qed

lemma ClaimJobsDue_distinct:
  assumes wf: "store_wf st"
  shows "distinct (map jID (fst (ClaimJobsDue st w states now n)))"
proof (cases "states = []")
    case False
    have "distinct (map jID (sJobs (snd (ClaimJobsDue st w states now n))))"
      using ClaimJobsDue_wf [OF wf] by (rule store_wfD(1))
    with False show ?thesis
      by (simp add: ClaimJobsDue_def Let_def GetJobsByIDs_def distinct_ids_by_created distinct_map_filterI
          del: map_map)
qed (simp add: ClaimJobsDue_def)

lemma ClaimJobsDue_limit:
  assumes wf: "store_wf st" and "0 \<le> n"
  shows "int (length (fst (ClaimJobsDue st w states now n))) \<le> n"
proof -
  let ?js = "fst (ClaimJobsDue st w states now n)" and ?ids = "claim_ids st states now n"
  have d: "distinct (map jID ?js)" by (rule ClaimJobsDue_distinct [OF wf])
  have "set (map jID ?js) \<subseteq> set ?ids"
    using ClaimJobsDue_returns [OF wf] by auto
  then have "length (map jID ?js) \<le> length ?ids"
    using d by (metis card_mono card_length distinct_card finite_set order_trans)
  moreover have "int (length ?ids) \<le> n"
    using assms(2) sql_limit_length [of n "by_created (filter (claimable states now) (sJobs st))"]
    by (simp add: claim_ids_def)
  ultimately show ?thesis by simp
qed

text \<open>Nothing that is marked is taken again.\<close>

lemma ClaimJobsDue_marked_kept:
  assumes wf: "store_wf st" and look: "GetJobByID st i = Some r" and "jClaimedBy r \<noteq> None"
  shows "GetJobByID (snd (ClaimJobsDue st w states now n)) i = Some r"
proof -
  have "i \<notin> set (claim_ids st states now n)"
  proof
    assume "i \<in> set (claim_ids st states now n)"
    then obtain q where q: "q \<in> set (sJobs st)" "jID q = i" "claimable states now q"
      using claim_ids_subset by blast
    then have "q = r" using GetJobByID_unique [OF store_wfD(1) [OF wf] q(1)] look by simp
    with q(3) assms(3) show False by (simp add: claimable_def)
  qed
  then show "GetJobByID (snd (ClaimJobsDue st w states now n)) i = Some r"
    using look GetJobByID_SomeD [OF look]
    by (auto simp: ClaimJobsDue_store GetJobByID_map mark_claimed_def)
qed

text \<open>With room for all, every claimable job is taken.\<close>

lemma ClaimJobsDue_complete:
  assumes wf: "store_wf st" and "states \<noteq> []" and r: "r \<in> set (sJobs st)" "claimable states now r"
    and "n < 0 \<or> int (length (filter (claimable states now) (sJobs st))) \<le> n"
  shows "r\<lparr>jClaimedBy := Some w, jClaimedAt := Some now\<rparr> \<in> set (fst (ClaimJobsDue st w states now n))"
proof -
  have i: "jID r \<in> set (claim_ids st states now n)"
    using assms by (auto simp: claim_ids_def sql_limit_all)
  have "GetJobByID st (jID r) = Some r" using GetJobByID_unique [OF store_wfD(1) [OF wf] r(1)] .
  with i assms(2) show ?thesis
    by (simp add: ClaimJobsDue_returns [OF wf] ClaimJobsDue_store GetJobByID_map mark_claimed_def)
qed

section \<open>Properties\<close>

text \<open>Two jobs of one worker state, for the witnesses: both wait to be submitted.\<close>

definition two_jobs :: store where
  "two_jobs = empty_store\<lparr>sJobs :=
     [zero_job\<lparr>jID := ''a'', jPublicID := ''p'', jState := StateSubmitPending, jSubmissionKey := ''k'',
        jCreatedAt := 2000 * second\<rparr>,
      zero_job\<lparr>jID := ''b'', jPublicID := ''q'', jState := StateSubmitRetry, jSubmissionKey := ''l'',
        jCreatedAt := 1000 * second\<rparr>]\<rparr>"

lemma two_jobs_wf: "store_wf two_jobs"
  by (simp add: store_wf_def jobs_wf_def keys_unique_def parts_wf_def events_wf_def two_jobs_def empty_store_def)

lemma two_jobs_claim:
  "map jID (fst (ClaimJobsDue two_jobs ''submitter'' [StateSubmitPending, StateSubmitRetry] (5000 * second) 1)) = [''b'']"
  by code_simp

text \<open>
  C5. Claims are exclusive: what a second claim takes, by any worker, in any states, at any time
  and with any limit, shares no job with what the first one took, and the rows of the first
  still bear the mark of the worker that took them.
\<close>

theorem claims_exclusive:
  assumes "store_wf st"
    and "ClaimJobsDue st w states now n = (js, st1)"
    and "ClaimJobsDue st1 w' states' now' n' = (js', st2)"
  shows "jID ` set js \<inter> jID ` set js' = {} \<and> (\<forall>j\<in>set js. GetJobByID st2 (jID j) = Some j \<and> jClaimedBy j = Some w)"
proof -
  have wf1: "store_wf st1" using ClaimJobsDue_wf [OF assms(1)] assms(2) by (metis snd_conv)
  have first: "GetJobByID st1 (jID j) = Some j \<and> jClaimedBy j = Some w" if "j \<in> set js" for j
    using ClaimJobsDue_marks [OF assms(1), of j w states now n] that assms(2) by simp
  have "jID j \<noteq> jID j'" if j: "j \<in> set js" and j': "j' \<in> set js'" for j j'
  proof
    assume eq: "jID j = jID j'"
    obtain r where "GetJobByID st1 (jID j') = Some r" "claimable states' now' r"
      using ClaimJobsDue_row [OF wf1, of j' w' states' now' n'] j' assms(3) by (metis fst_conv)
    with first [OF j] eq show False by (simp add: claimable_def)
  qed
  moreover have "GetJobByID st2 (jID j) = Some j" if "j \<in> set js" for j
    using ClaimJobsDue_marked_kept [OF wf1, of "jID j" j w' states' now' n'] first [OF that] assms(3) by simp
  ultimately show ?thesis using first by blast
qed

text \<open>Two workers claim one job each, whatever their names.\<close>

theorem claims_exclusive_witness:
  "\<exists>js st1 js' st2. ClaimJobsDue two_jobs ''w'' [StateSubmitPending, StateSubmitRetry] (5000 * second) 1 = (js, st1) \<and>
     ClaimJobsDue st1 ''v'' [StateSubmitPending, StateSubmitRetry] (5000 * second) 9 = (js', st2) \<and>
     js \<noteq> [] \<and> js' \<noteq> [] \<and> jID ` set js \<inter> jID ` set js' = {}"
proof -
  let ?ss = "[StateSubmitPending, StateSubmitRetry]"
  obtain js st1 where a: "ClaimJobsDue two_jobs ''w'' ?ss (5000 * second) 1 = (js, st1)" by fastforce
  obtain js' st2 where b: "ClaimJobsDue st1 ''v'' ?ss (5000 * second) 9 = (js', st2)" by fastforce
  have "fst (ClaimJobsDue two_jobs ''w'' ?ss (5000 * second) 1) \<noteq> []" by code_simp
  moreover have "fst (ClaimJobsDue (snd (ClaimJobsDue two_jobs ''w'' ?ss (5000 * second) 1)) ''v'' ?ss (5000 * second) 9) \<noteq> []"
    by code_simp
  ultimately have "js \<noteq> []" and "js' \<noteq> []" using a b by simp_all
  with claims_exclusive [OF two_jobs_wf a b] a b show ?thesis by blast
qed

text \<open>
  C6. What a claim returns: jobs that were due, in one of the states and unclaimed, each with
  nothing changed but the mark; at most \<open>limit\<close> of them; and no claimable job that was left out
  is older, in the order of the timestamps' text, than one that was taken.
\<close>

theorem claim_takes_oldest_due:
  assumes "store_wf st" and "0 \<le> n" and "ClaimJobsDue st w states now n = (js, st')"
  shows "int (length js) \<le> n \<and>
    (\<forall>j\<in>set js. \<exists>r\<in>set (sJobs st). claimable states now r \<and> j = r\<lparr>jClaimedBy := Some w, jClaimedAt := Some now\<rparr>) \<and>
    (\<forall>j\<in>set js. \<forall>r\<in>set (sJobs st). claimable states now r \<and> jID r \<notin> jID ` set js \<longrightarrow>
       text_le (jCreatedAt j) (jCreatedAt r))"
proof -
  have js: "js = fst (ClaimJobsDue st w states now n)" using assms(3) by simp
  note u = GetJobByID_unique [OF store_wfD(1) [OF assms(1)]] and row = ClaimJobsDue_row [OF assms(1)]
  let ?took = "sql_limit n (by_created (filter (claimable states now) (sJobs st)))"
  have taken: "\<exists>r\<in>set (sJobs st). claimable states now r \<and> j = r\<lparr>jClaimedBy := Some w, jClaimedAt := Some now\<rparr>"
    if j: "j \<in> set js" for j
  proof -
    obtain r where r: "GetJobByID st (jID j) = Some r" "claimable states now r"
        "j = r\<lparr>jClaimedBy := Some w, jClaimedAt := Some now\<rparr>"
        "GetJobByID (snd (ClaimJobsDue st w states now n)) (jID j) = Some j"
      by (rule row [OF j [unfolded js]])
    show ?thesis using GetJobByID_SomeD [OF r(1)] r(2,3) by (intro bexI [of _ r] conjI) simp_all
  qed
  have "text_le (jCreatedAt j) (jCreatedAt r)"
    if j: "j \<in> set js" and r: "r \<in> set (sJobs st)" "claimable states now r" "jID r \<notin> jID ` set js" for j r
  proof -
    have ids: "states \<noteq> []" "jID j \<in> jID ` set ?took"
      using iffD1 [OF ClaimJobsDue_returns [OF assms(1)] j [unfolded js]] by (simp_all add: claim_ids_def)
    then obtain q where q: "q \<in> set ?took" "jID q = jID j" by auto
    then have qs: "q \<in> set (sJobs st)" "claimable states now q" using set_sql_limit by fastforce+
    obtain q' where q': "q' \<in> set (sJobs st)" "j = q'\<lparr>jClaimedBy := Some w, jClaimedAt := Some now\<rparr>"
      using taken [OF j] by blast
    have "jID q' = jID q" unfolding q(2) unfolding q'(2) by simp
    then have "q' = q" using distinct_map_inj_eq [OF store_wfD(1) [OF assms(1)] q'(1) qs(1)] by simp
    then have c: "jCreatedAt j = jCreatedAt q" unfolding q'(2) by simp
    have "r \<notin> set ?took"
    proof
      assume "r \<in> set ?took"
      then have "jID r \<in> set (claim_ids st states now n)" by (auto simp: claim_ids_def)
      then have "mark_claimed w now (claim_ids st states now n) r \<in> set js"
        using u [OF r(1)] ids(1) r(1)
        by (simp add: js ClaimJobsDue_returns [OF assms(1)] ClaimJobsDue_store GetJobByID_map)
      with r(3) show False by (metis image_eqI mark_claimed_simps(1))
    qed
    then show ?thesis
      using limit_takes_oldest [OF q(1), of r] r c by (simp add: text_le_def)
  qed
  with taken ClaimJobsDue_limit [OF assms(1,2), of w states now] js show ?thesis by blast
qed

theorem claim_takes_oldest_due_witness:
  "\<exists>js st'. ClaimJobsDue two_jobs ''w'' [StateSubmitPending, StateSubmitRetry] (5000 * second) 1 = (js, st') \<and>
     map jID js = [''b''] \<and> int (length js) \<le> 1"
proof -
  obtain js st' where a: "ClaimJobsDue two_jobs ''w'' [StateSubmitPending, StateSubmitRetry] (5000 * second) 1 = (js, st')"
    by fastforce
  moreover have "map jID (fst (ClaimJobsDue two_jobs ''w'' [StateSubmitPending, StateSubmitRetry] (5000 * second) 1)) = [''b'']"
    by code_simp
  ultimately have "map jID js = [''b'']" by simp
  with claim_takes_oldest_due [OF two_jobs_wf _ a] a show ?thesis by auto
qed

end
