(* ===== verification/Store_Retry.thy ===== *)
theory Store_Retry
  imports Store
begin

text \<open>
  The retry of a busy database (\<open>retrySQLiteBusy\<close> of \<open>internal/store/store.go\<close>). The operation
  is a function of the attempt's number, the sleep a function of the attempt and the delay that
  gives the context's error when the context ends first. The loop returns its result with the
  delays it slept, in milliseconds.
\<close>

unbundle bit_operations_syntax

definition sqlitePrimaryCodeMask :: int where "sqlitePrimaryCodeMask = 0xff"
definition sqliteBusyCode :: int where "sqliteBusyCode = 5"
definition sqliteLockedCode :: int where "sqliteLockedCode = 6"
definition sqliteBusyRetryAttempts :: nat where "sqliteBusyRetryAttempts = 6"
definition sqliteBusyRetryBaseDelay :: int where "sqliteBusyRetryBaseDelay = 25"
definition sqliteBusyRetryMaxDelay :: int where "sqliteBusyRetryMaxDelay = 250"

text \<open>\<open>errors.As(err, *interface{ Code() int })\<close>: the first driver error of the chain.\<close>

fun as_code :: "go_error \<Rightarrow> int option" where
  "as_code (CodeError c m) = Some c"
| "as_code (ErrWrap p e) = as_code e"
| "as_code (RetryableError e) = as_code e"
| "as_code _ = None"

definition isSQLiteBusy :: "err \<Rightarrow> bool" where
  "isSQLiteBusy err = (case err of None \<Rightarrow> False | Some e \<Rightarrow>
     (case as_code e of
        Some c \<Rightarrow> c AND sqlitePrimaryCodeMask = sqliteBusyCode \<or> c AND sqlitePrimaryCodeMask = sqliteLockedCode
      | None \<Rightarrow> False) \<or>
     (let msg = ToLower (Error e) in
        Contains msg ''sqlite_busy'' \<or> Contains msg ''sqlite_locked'' \<or>
        Contains msg ''database is locked'' \<or> Contains msg ''database table is locked''))"

definition next_delay :: "int \<Rightarrow> int" where
  "next_delay delay =
     (if delay < sqliteBusyRetryMaxDelay
      then (if sqliteBusyRetryMaxDelay < delay * 2 then sqliteBusyRetryMaxDelay else delay * 2)
      else delay)"

function retry_loop ::
  "(nat \<Rightarrow> go_error + 'a) \<Rightarrow> (nat \<Rightarrow> int \<Rightarrow> err) \<Rightarrow> nat \<Rightarrow> int \<Rightarrow> (go_error + 'a) \<times> int list" where
  "retry_loop fn sleep attempt delay =
     (case fn attempt of
        Inr v \<Rightarrow> (Inr v, [])
      | Inl e \<Rightarrow>
          if \<not> isSQLiteBusy (Some e) \<or> attempt \<ge> sqliteBusyRetryAttempts - 1 then (Inl e, [])
          else (case sleep attempt delay of
                  Some e' \<Rightarrow> (Inl e', [delay])
                | None \<Rightarrow> (let (r, slept) = retry_loop fn sleep (Suc attempt) (next_delay delay)
                           in (r, delay # slept))))"
  by pat_completeness auto
termination
  by (relation "measure (\<lambda>(fn, sleep, attempt, delay). sqliteBusyRetryAttempts - attempt)") auto

declare retry_loop.simps [simp del]

definition retrySQLiteBusy :: "(nat \<Rightarrow> go_error + 'a) \<Rightarrow> (nat \<Rightarrow> int \<Rightarrow> err) \<Rightarrow> (go_error + 'a) \<times> int list" where
  "retrySQLiteBusy fn sleep = retry_loop fn sleep 0 sqliteBusyRetryBaseDelay"

section \<open>The schedule of delays\<close>

lemmas retry_constants =
  sqliteBusyRetryAttempts_def sqliteBusyRetryBaseDelay_def sqliteBusyRetryMaxDelay_def next_delay_def

fun delays :: "nat \<Rightarrow> int \<Rightarrow> int list" where
  "delays 0 d = []"
| "delays (Suc n) d = d # delays n (next_delay d)"

lemma delays_five: "delays 5 sqliteBusyRetryBaseDelay = [25, 50, 100, 200, 250]"
  by (simp add: eval_nat_numeral retry_constants)

text \<open>What the loop sleeps is a beginning of the schedule, one delay for each failed attempt.\<close>

lemma retry_loop_delays:
  "attempt \<le> sqliteBusyRetryAttempts - 1 \<Longrightarrow>
   prefix (snd (retry_loop fn sleep attempt delay)) (delays (sqliteBusyRetryAttempts - 1 - attempt) delay)"
proof (induction fn sleep attempt delay rule: retry_loop.induct)
  case (1 fn sleep attempt delay)
  show ?case
  proof (cases "attempt < sqliteBusyRetryAttempts - 1")
    case True
    then obtain k where k: "sqliteBusyRetryAttempts - 1 - attempt = Suc k"
        "sqliteBusyRetryAttempts - 1 - Suc attempt = k"
      by (metis Suc_diff_Suc)
    show ?thesis
      unfolding k(1) retry_loop.simps [of fn sleep attempt]
      using 1 True k(2) by (auto split: sum.splits option.splits prod.splits)
  next
    case False
    then show ?thesis by (simp add: retry_loop.simps [of fn sleep attempt] split: sum.splits)
  qed
qed

text \<open>The first success within the attempts is returned, when every earlier failure is a busy one.\<close>

lemma retry_loop_success:
  assumes "\<And>d k. sleep k d = None" and "attempt + k < sqliteBusyRetryAttempts" and "fn (attempt + k) = Inr v"
    and "\<And>i. i < k \<Longrightarrow> \<exists>e. fn (attempt + i) = Inl e \<and> isSQLiteBusy (Some e)"
  shows "retry_loop fn sleep attempt delay = (Inr v, delays k delay)"
  using assms(2-4)
proof (induction k arbitrary: attempt delay)
  case 0
  then show ?case by (simp add: retry_loop.simps [of fn sleep attempt])
next
  case (Suc k)
  obtain e where e: "fn attempt = Inl e" "isSQLiteBusy (Some e)" using Suc.prems(3) [of 0] by auto
  have "retry_loop fn sleep (Suc attempt) (next_delay delay) = (Inr v, delays k (next_delay delay))"
    using Suc.prems(3) [of "Suc i" for i] Suc.prems(1,2) by (intro Suc.IH) auto
  with e Suc.prems(1) show ?case
    by (subst retry_loop.simps) (simp add: assms(1))
qed

text \<open>
  Why the loop stopped at the attempt it stopped at: a success, an error that is not a busy one,
  the last attempt, or the end of the context during a sleep; every earlier attempt was busy.
\<close>

definition stopped :: "(nat \<Rightarrow> go_error + 'a) \<Rightarrow> (nat \<Rightarrow> int \<Rightarrow> err) \<Rightarrow> nat \<Rightarrow> (go_error + 'a) \<times> int list \<Rightarrow> bool" where
  "stopped fn sleep attempt out = (case out of (r, slept) \<Rightarrow>
     let k = attempt + length slept in
     (\<forall>i. attempt \<le> i \<and> i < k \<longrightarrow> (\<exists>e. fn i = Inl e \<and> isSQLiteBusy (Some e))) \<and>
     ((\<exists>v. fn k = Inr v \<and> r = Inr v) \<or>
      (\<exists>e. fn k = Inl e \<and> r = Inl e \<and> (isSQLiteBusy (Some e) \<longrightarrow> k = sqliteBusyRetryAttempts - 1)) \<or>
      (slept \<noteq> [] \<and> (\<exists>e. sleep (k - 1) (last slept) = Some e \<and> r = Inl e))))"

lemma retry_loop_stopped:
  "attempt < sqliteBusyRetryAttempts \<Longrightarrow> stopped fn sleep attempt (retry_loop fn sleep attempt delay)"
proof (induction fn sleep attempt delay rule: retry_loop.induct)
  case (1 fn sleep attempt delay)
  show ?case
  proof (cases "\<exists>e. fn attempt = Inl e \<and> isSQLiteBusy (Some e) \<and> attempt < sqliteBusyRetryAttempts - 1 \<and> sleep attempt delay = None")
    case True
    then obtain e where e: "fn attempt = Inl e" "isSQLiteBusy (Some e)" "attempt < sqliteBusyRetryAttempts - 1"
      "sleep attempt delay = None" by blast
    obtain r slept where rec: "retry_loop fn sleep (Suc attempt) (next_delay delay) = (r, slept)" by fastforce
    have IH: "stopped fn sleep (Suc attempt) (r, slept)"
      using 1(1) [OF e(1) _ e(4)] e rec by simp
    have step: "retry_loop fn sleep attempt delay = (r, delay # slept)"
      using e rec by (simp add: retry_loop.simps [of fn sleep attempt])
    have busy: "\<exists>x. fn i = Inl x \<and> isSQLiteBusy (Some x)"
      if "attempt \<le> i" "i < Suc attempt + length slept" for i
      using that e(1,2) IH by (cases "i = attempt") (auto simp: stopped_def Let_def)
    from IH have "(\<exists>v. fn (attempt + length (delay # slept)) = Inr v \<and> r = Inr v) \<or>
      (\<exists>x. fn (attempt + length (delay # slept)) = Inl x \<and> r = Inl x \<and>
         (isSQLiteBusy (Some x) \<longrightarrow> attempt + length (delay # slept) = sqliteBusyRetryAttempts - 1)) \<or>
      (delay # slept \<noteq> [] \<and> (\<exists>x. sleep (attempt + length (delay # slept) - 1) (last (delay # slept)) = Some x \<and> r = Inl x))"
      by (auto simp: stopped_def Let_def)
    with busy show ?thesis unfolding step by (simp add: stopped_def Let_def)
  next
    case False
    with 1(2) show ?thesis
      by (auto simp: retry_loop.simps [of fn sleep attempt] stopped_def less_Suc_eq split: sum.splits option.splits)
  qed
qed

section \<open>Properties\<close>

text \<open>
  C8. A write against a busy database is tried at most six times: the delays it slept are a
  beginning of 25, 50, 100, 200, 250 ms, one for each busy attempt before the last, and what it
  returns is the outcome of the last attempt (a success, an error that is not a busy one, or the
  sixth busy error), or the context's error when the context ended during a sleep.
\<close>

theorem retry_bounded:
  "prefix (snd (retrySQLiteBusy fn sleep)) [25, 50, 100, 200, 250] \<and>
   stopped fn sleep 0 (retrySQLiteBusy fn sleep)"
  unfolding retrySQLiteBusy_def
  using retry_loop_delays [of 0 fn sleep sqliteBusyRetryBaseDelay]
    retry_loop_stopped [of 0 fn sleep sqliteBusyRetryBaseDelay] delays_five
  by (simp add: sqliteBusyRetryAttempts_def)

end
