(* ===== verification/Store_Audit.thy ===== *)
theory Store_Audit
  imports Store_Facts
begin

text \<open>
  The audit log. Every state change of a job is meant to be recorded in \<open>job_events\<close> with the
  state it left and the state it reached. Replaying the events of a job from its creation
  gives its state: \<open>audit_ok\<close>, kept by every method as long as the job in hand is in the
  state its row is in.
\<close>

definition events_of :: "store \<Rightarrow> string \<Rightarrow> job_event list" where
  "events_of st i = filter (\<lambda>e. eJobID e = i) (sEvents st)"

text \<open>The state after the events, or \<open>None\<close> when an event does not start where the last one ended.\<close>

fun replay :: "job_state option \<Rightarrow> job_event list \<Rightarrow> job_state option option" where
  "replay s [] = Some s"
| "replay s (e # es) = (if eFromState e = s then replay (eToState e) es else None)"

definition audit_ok :: "store \<Rightarrow> bool" where
  "audit_ok st \<longleftrightarrow> (\<forall>j\<in>set (sJobs st). replay None (events_of st (jID j)) = Some (Some (jState j)))"

text \<open>The job in hand has a row, in the state it says.\<close>

definition synced :: "store \<Rightarrow> job \<Rightarrow> bool" where
  "synced st job \<longleftrightarrow> (case GetJobByID st (jID job) of None \<Rightarrow> False | Some r \<Rightarrow> jState r = jState job)"

lemma replay_snoc:
  "replay s (es @ [e]) =
     (case replay s es of None \<Rightarrow> None | Some t \<Rightarrow> if eFromState e = t then Some (eToState e) else None)"
  by (induction es arbitrary: s) auto

lemma events_of_AppendEvent:
  "job_exists st i \<Longrightarrow>
   events_of (snd (AppendEvent st now i f t m)) k =
     (if k = i then events_of st k @ [\<lparr>eID = sNextEvent st, eJobID = i, eFromState = f, eToState = t,
        eMessage = m, eCreatedAt = now\<rparr>] else events_of st k)"
  by (simp add: AppendEvent_def events_of_def)

lemma events_of_writes [store_simps]:
  "events_of (snd (UpdateJob st job)) k = events_of st k"
  "events_of (snd (UpsertTransferPart st p)) k = events_of st k"
  "events_of (ReleaseJobClaim st i) k = events_of st k"
  by (simp_all add: events_of_def store_simps)

lemma synced_exists: "synced st job \<Longrightarrow> job_exists st (jID job)"
  by (auto simp: synced_def job_exists_iff_find split: option.splits)

lemma audit_ok_rows:
  "audit_ok st \<longleftrightarrow> (\<forall>j\<in>set (sJobs st). replay None (events_of st (jID j)) = Some (Some (jState j)))"
  by (rule audit_ok_def)

text \<open>In a store with distinct identifiers the log can be read off the lookups.\<close>

lemma audit_ok_find:
  assumes "distinct (map jID (sJobs st))"
  shows "audit_ok st \<longleftrightarrow>
    (\<forall>i j. GetJobByID st i = Some j \<longrightarrow> replay None (events_of st i) = Some (Some (jState j)))"
  using GetJobByID_unique [OF assms] GetJobByID_SomeD by (fastforce simp: audit_ok_def)

lemma audit_ok_map:
  assumes "audit_ok st" and "\<And>r. jID (g r) = jID r" and "\<And>r. jState (g r) = jState r"
  shows "audit_ok (st\<lparr>sJobs := map g (sJobs st)\<rparr>)"
  using assms by (simp add: audit_ok_def events_of_def)

definition audited :: "store \<Rightarrow> bool" where
  "audited st \<longleftrightarrow> store_wf st \<and> audit_ok st"

lemma audited_find: "audited st \<Longrightarrow> GetJobByID st i = Some j \<Longrightarrow> replay None (events_of st i) = Some (Some (jState j))"
  using audit_ok_find store_wfD(1) by (auto simp: audited_def)

lemma auditedI:
  assumes "store_wf st" and "\<And>i j. GetJobByID st i = Some j \<Longrightarrow> replay None (events_of st i) = Some (Some (jState j))"
  shows "audited st"
  using assms audit_ok_find [OF store_wfD(1) [OF assms(1)]] by (simp add: audited_def)

lemma UpdateJob_audited:
  assumes "audited st" and "synced st job"
  shows "audited (snd (UpdateJob st job))" and "synced (snd (UpdateJob st job)) job"
proof -
  let ?st = "snd (UpdateJob st job)"
  obtain r where r: "GetJobByID st (jID job) = Some r" "jState r = jState job"
    using assms(2) by (auto simp: synced_def split: option.splits)
  have g: "GetJobByID ?st k = Some j \<Longrightarrow> \<exists>j'. GetJobByID st k = Some j' \<and> jState j' = jState j" for k j
    using r by (cases "fst (UpdateJob st job) = nil") (auto simp: store_simps UpdateJob_error split: if_splits)
  show "audited ?st"
  proof (rule auditedI)
    show "store_wf ?st" using assms(1) by (simp add: audited_def UpdateJob_wf)
  next
    fix i j assume "GetJobByID ?st i = Some j"
    with g audited_find [OF assms(1)] show "replay None (events_of ?st i) = Some (Some (jState j))"
      by (fastforce simp: store_simps)
  qed
  show "synced ?st job"
    using r by (cases "fst (UpdateJob st job) = nil") (simp_all add: synced_def store_simps UpdateJob_error)
qed

lemma UpdateJobState_audited:
  assumes "audited st" and "synced st job" and u: "UpdateJobState st now job s m = (e, job', st')"
  shows "audited st'" and "e = nil \<Longrightarrow> synced st' job'"
proof -
  let ?job = "job\<lparr>jState := s, jUpdatedAt := now\<rparr>"
  obtain r where r: "GetJobByID st (jID job) = Some r" "jState r = jState job"
    using assms(2) by (auto simp: synced_def split: option.splits)
  have ex: "job_exists st (jID job)" using assms(2) by (rule synced_exists)
  have st': "st' = snd (snd (UpdateJobState st now job s m))" and job': "job' = ?job"
    using UpdateJobState_storeI [OF u] by simp_all
  have "audited st' \<and> (e = nil \<longrightarrow> synced st' job')"
  proof (cases "fst (UpdateJob st ?job) = nil")
    case False
    then have "st' = st" and "e \<noteq> nil"
      using u by (auto simp: UpdateJobState_def Let_def UpdateJob_error split: prod.splits option.splits)
         (metis UpdateJob_error fst_conv option.distinct(1) snd_conv)
    with assms(1) show ?thesis by blast
  next
    case True
    have look: "GetJobByID st' k = (if k = jID job then Some (updated_row ?job r) else GetJobByID st k)" for k
      using True r by (simp add: st' store_simps)
    have ev: "replay None (events_of st' k) =
        (if k = jID job then Some (Some s) else replay None (events_of st k))" for k
      using True ex r audited_find [OF assms(1) r(1)]
      by (simp add: st' UpdateJobState_store Let_def events_of_AppendEvent store_simps replay_snoc)
    have "audited st'"
    proof (rule auditedI)
      show "store_wf st'" using assms(1) by (simp add: st' audited_def UpdateJobState_wf)
    next
      fix i j assume "GetJobByID st' i = Some j"
      with look [of i] ev [of i] audited_find [OF assms(1), of i j]
      show "replay None (events_of st' i) = Some (Some (jState j))" by (auto split: if_splits)
    qed
    moreover have "synced st' job'" using look by (simp add: synced_def job')
    ultimately show ?thesis by simp
  qed
  then show "audited st'" and "e = nil \<Longrightarrow> synced st' job'" by auto
qed

lemma UpsertTransferPart_audited:
  assumes "audited st" and "synced st job"
  shows "audited (snd (UpsertTransferPart st p))" and "synced (snd (UpsertTransferPart st p)) job"
proof -
  show "audited (snd (UpsertTransferPart st p))"
  proof (rule auditedI)
    show "store_wf (snd (UpsertTransferPart st p))" using assms(1) by (simp add: audited_def UpsertTransferPart_wf)
  qed (simp add: store_simps audited_find [OF assms(1)])
  show "synced (snd (UpsertTransferPart st p)) job" using assms(2) by (simp add: synced_def store_simps)
qed

text \<open>Writes that touch neither identifiers nor states keep the log.\<close>

lemma audited_map:
  assumes "audited st" and "\<And>r. jID (g r) = jID r" and "\<And>r. jPublicID (g r) = jPublicID r"
    and "\<And>r. jState (g r) = jState r" and "\<And>r. jSubmissionKey (g r) = jSubmissionKey r"
  shows "audited (st\<lparr>sJobs := map g (sJobs st)\<rparr>)"
proof -
  have "active (g r) = active r" for r using assms(4) by (simp add: active_def)
  then have "store_wf (st\<lparr>sJobs := map g (sJobs st)\<rparr>)"
    using assms by (intro store_wf_map keys_unique_map_same) (auto simp: audited_def dest: store_wfD(3))
  moreover have "audit_ok (st\<lparr>sJobs := map g (sJobs st)\<rparr>)"
    using assms by (intro audit_ok_map) (auto simp: audited_def)
  ultimately show ?thesis by (simp add: audited_def)
qed

lemma ReleaseJobClaim_audited: "audited st \<Longrightarrow> audited (ReleaseJobClaim st i)"
  unfolding ReleaseJobClaim_def by (rule audited_map) simp_all

lemma ReleaseAllClaims_audited: "audited st \<Longrightarrow> audited (ReleaseAllClaims st)"
  unfolding ReleaseAllClaims_def by (rule audited_map) simp_all

lemma ClaimJobsDue_audited: "audited st \<Longrightarrow> audited (snd (ClaimJobsDue st w states now n))"
  by (auto simp: ClaimJobsDue_def Let_def intro!: audited_map)

interpretation audit_writes: write_contract audited synced "\<lambda>_. True" "\<lambda>_. True"
proof unfold_locales
  fix st and job job' :: job
  assume "synced st job" "jID job' = jID job" "jState job' = jState job"
  then show "synced st job'" by (simp add: synced_def split: option.splits)
next
  fix st and job :: job assume *: "audited st" "synced st job"
  show "audited (snd (UpdateJob st job)) \<and> synced (snd (UpdateJob st job)) job"
    using UpdateJob_audited [OF *] by simp
  show "audited (ReleaseJobClaim st (jID job))" by (rule ReleaseJobClaim_audited [OF *(1)])
  show "audited (snd (UpsertTransferPart st p)) \<and> synced (snd (UpsertTransferPart st p)) job" for p
    using UpsertTransferPart_audited [OF *] by simp
  show "audited st' \<and> (e = nil \<longrightarrow> synced st' job')"
    if "UpdateJobState st now job s m = (e, job', st')" for now s m e job' st'
    using UpdateJobState_audited [OF * that] by simp
qed (simp_all add: synced_def)

text \<open>
  The states a job can be in after a handler: those it may write, and the one the job was in.
\<close>

definition state_in :: "store \<Rightarrow> string \<Rightarrow> job_state set \<Rightarrow> bool" where
  "state_in st k S \<longleftrightarrow> (case GetJobByID st k of None \<Rightarrow> True | Some row \<Rightarrow> jState row \<in> S)"

definition in_hand :: "string \<Rightarrow> job_state set \<Rightarrow> store \<Rightarrow> job \<Rightarrow> bool" where
  "in_hand k S st job \<longleftrightarrow> (jID job = k \<longrightarrow> synced st job \<and> jState job \<in> S)"

interpretation edges: write_contract "\<lambda>st. state_in st k S" "in_hand k S" "\<lambda>s. s \<in> S" "\<lambda>_. True"
  for k :: string and S :: "job_state set"
proof unfold_locales
  fix st and job job' :: job
  assume "in_hand k S st job" "jID job' = jID job" "jState job' = jState job"
  then show "in_hand k S st job'" by (auto simp: in_hand_def synced_def split: option.splits)
next
  fix st st' and job :: job
  assume "in_hand k S st job" "GetJobByID st' (jID job) = GetJobByID st (jID job)"
  then show "in_hand k S st' job" by (auto simp: in_hand_def synced_def split: option.splits)
next
  fix st and job :: job assume *: "state_in st k S" "in_hand k S st job"
  have row: "jID job = k \<Longrightarrow> \<exists>r. GetJobByID st k = Some r \<and> jState r = jState job \<and> jState job \<in> S"
    using *(2) by (auto simp: in_hand_def synced_def split: option.splits)
  show "state_in (snd (UpdateJob st job)) k S \<and> in_hand k S (snd (UpdateJob st job)) job"
    using * row
    by (cases "fst (UpdateJob st job) = nil")
       (auto simp: state_in_def in_hand_def synced_def store_simps UpdateJob_error)
  show "state_in (ReleaseJobClaim st (jID job)) k S"
    using *(1) by (simp add: state_in_def store_simps split: option.splits)
  show "state_in (snd (UpsertTransferPart st p)) k S \<and> in_hand k S (snd (UpsertTransferPart st p)) job" for p
    using * by (simp add: state_in_def in_hand_def synced_def store_simps)
  show "state_in st' k S \<and> (e = nil \<longrightarrow> in_hand k S st' job')"
    if s: "s \<in> S" and u: "UpdateJobState st now job s m = (e, job', st')" for now s m e job' st'
  proof -
    note st' = UpdateJobState_storeI [OF u]
    have "state_in st' k S"
      using *(1) s row by (auto simp: st' state_in_def store_simps split: option.splits)
    moreover have "in_hand k S st' job'" if "e = nil"
    proof -
      from u that have "fst (UpdateJobState st now job s m) = nil" by simp
      then obtain r where "GetJobByID st' (jID job) = Some (updated_row (job\<lparr>jState := s, jUpdatedAt := now\<rparr>) r)"
        unfolding st'(1) by (rule UpdateJobState_row)
      with s show ?thesis by (auto simp: in_hand_def synced_def st'(2))
    qed
    ultimately show ?thesis by simp
  qed
qed simp_all

lemma CreateJob_audited:
  assumes "audited st"
  shows "audited (snd (CreateJob st now job))"
    and "fst (CreateJob st now job) = nil \<Longrightarrow> synced (snd (CreateJob st now job)) job"
proof -
  have wf: "store_wf st" using assms by (simp add: audited_def)
  let ?st = "st\<lparr>sJobs := sJobs st @ [inserted_row job]\<rparr>"
  let ?st' = "snd (AppendEvent ?st now (jID job) None (Some (jState job)) ''job created'')"
  have row: "jID (inserted_row job) = jID job" "jState (inserted_row job) = jState job"
    by (simp_all add: inserted_row_def)
  consider (no) "fst (CreateJob st now job) \<noteq> nil" "snd (CreateJob st now job) = st"
    | (ok) "snd (CreateJob st now job) = ?st'" "\<not> job_exists st (jID job)"
  proof (cases "job_exists st (jID job) \<or> list_ex (\<lambda>r. jPublicID r = jPublicID job) (sJobs st) \<or> key_taken st job")
    case True
    then have "fst (CreateJob st now job) \<noteq> nil \<and> snd (CreateJob st now job) = st"
      by (auto simp: CreateJob_def)
    with that show thesis by blast
  next
    case False
    then have "snd (CreateJob st now job) = ?st'" "\<not> job_exists st (jID job)"
      by (simp_all add: CreateJob_def)
    with that show thesis by blast
  qed
  note c = this
  have look: "GetJobByID ?st' k = (if k = jID job then Some (inserted_row job) else GetJobByID st k)"
    if "\<not> job_exists st (jID job)" for k
  proof -
    have "find (\<lambda>j. jID j = k) (xs @ [inserted_row job]) =
        (if k = jID job then Some (inserted_row job) else find (\<lambda>j. jID j = k) xs)"
      if "jID job \<notin> jID ` set xs" for xs
      using that row by (induction xs) auto
    from this [of "sJobs st"] that show ?thesis
      unfolding AppendEvent_jobs(4) by (auto simp: GetJobByID_def job_exists_def)
  qed
  show "audited (snd (CreateJob st now job))"
  proof (cases rule: c)
    case no
    with assms show ?thesis by simp
  next
    case ok
    have none: "events_of st (jID job) = []"
      using ok(2) store_wfD(5) [OF wf] by (auto simp: events_of_def events_wf_def filter_empty_conv)
    have ex: "job_exists ?st (jID job)" by (simp add: job_exists_def row)
    have ev: "replay None (events_of ?st' k) =
        (if k = jID job then Some (Some (jState job)) else replay None (events_of st k))" for k
      using none by (simp add: events_of_AppendEvent [OF ex]) (simp add: events_of_def)
    show ?thesis unfolding ok(1)
    proof (rule auditedI)
      show "store_wf ?st'" using CreateJob_wf [OF wf, of now job] ok(1) by simp
    next
      fix i j assume "GetJobByID ?st' i = Some j"
      with look [OF ok(2), of i] ev [of i] audited_find [OF assms, of i j] row
      show "replay None (events_of ?st' i) = Some (Some (jState j))" by (auto split: if_splits)
    qed
  qed
  show "synced (snd (CreateJob st now job)) job" if "fst (CreateJob st now job) = nil"
    using that by (cases rule: c) (simp_all add: synced_def look row)
qed

lemma delete_jobs_audited:
  assumes "audited st"
  shows "audited (delete_jobs st gone)"
proof -
  have wf: "store_wf st" using assms by (simp add: audited_def)
  have "events_of (delete_jobs st gone) (jID j) = events_of st (jID j)"
    if "j \<in> set (sJobs st)" "\<not> gone j" for j
  proof -
    have "jID j \<notin> jID ` set (filter gone (sJobs st))"
      using that distinct_map_inj_eq [OF store_wfD(1) [OF wf]] by fastforce
    then show ?thesis
      by (simp add: events_of_def delete_jobs_def Let_def) (metis (mono_tags, lifting) filter_cong)
  qed
  moreover have "j \<in> set (sJobs st) \<and> \<not> gone j" if "j \<in> set (sJobs (delete_jobs st gone))" for j
    using that by (simp add: delete_jobs_def Let_def)
  ultimately show ?thesis
    using assms delete_jobs_wf [OF wf] by (auto simp: audited_def audit_ok_def)
qed

lemma DeleteRemovedOlderThan_audited: "audited st \<Longrightarrow> audited (snd (DeleteRemovedOlderThan st cutoff))"
  by (simp add: DeleteRemovedOlderThan_def delete_jobs_audited)

lemma empty_store_audited: "audited empty_store"
  by (simp add: audited_def empty_store_wf) (simp add: audit_ok_def empty_store_def)

section \<open>Properties\<close>

text \<open>The methods a client can call, with any arguments.\<close>

datatype store_call =
    CallCreate time job
  | CallUpdate job
  | CallUpdateState time job job_state string
  | CallUpsert transfer_part
  | CallClaim string "job_state list" time int
  | CallRelease string
  | CallReleaseAll
  | CallDeleteRemoved time
  | CallSession time string string time
  | CallLogout string
  | CallPruneSessions time

fun perform :: "store_call \<Rightarrow> store \<Rightarrow> store" where
  "perform (CallCreate now job) st = snd (CreateJob st now job)"
| "perform (CallUpdate job) st = snd (UpdateJob st job)"
| "perform (CallUpdateState now job s m) st = snd (snd (UpdateJobState st now job s m))"
| "perform (CallUpsert p) st = snd (UpsertTransferPart st p)"
| "perform (CallClaim w states now n) st = snd (ClaimJobsDue st w states now n)"
| "perform (CallRelease i) st = ReleaseJobClaim st i"
| "perform CallReleaseAll st = ReleaseAllClaims st"
| "perform (CallDeleteRemoved cutoff) st = snd (DeleteRemovedOlderThan st cutoff)"
| "perform (CallSession now sid u e) st = snd (CreateQBitSession st now sid u e)"
| "perform (CallLogout sid) st = DeleteQBitSession st sid"
| "perform (CallPruneSessions now) st = snd (PruneExpiredQBitSessions st now)"

lemma perform_wf: "store_wf st \<Longrightarrow> store_wf (perform c st)"
  by (cases c)
     (simp_all add: CreateJob_wf UpdateJob_wf UpdateJobState_wf UpsertTransferPart_wf ClaimJobsDue_wf
       ReleaseJobClaim_wf ReleaseAllClaims_wf DeleteRemovedOlderThan_wf session_writes_wf)

lemma perform_fold_wf: "store_wf st \<Longrightarrow> store_wf (fold perform cs st)"
  by (induction cs arbitrary: st) (simp_all add: perform_wf)


lemma CreateJob_cases:
  assumes "store_wf st"
  obtains "fst (CreateJob st now job) \<noteq> nil" "snd (CreateJob st now job) = st"
      "job_exists st (jID job) \<or> jPublicID job \<in> jPublicID ` set (sJobs st) \<or> key_taken st job"
  | "fst (CreateJob st now job) = nil" "sJobs (snd (CreateJob st now job)) = sJobs st @ [inserted_row job]"
      "\<not> job_exists st (jID job)" "jPublicID job \<notin> jPublicID ` set (sJobs st)" "\<not> key_taken st job"
proof (cases "job_exists st (jID job) \<or> list_ex (\<lambda>r. jPublicID r = jPublicID job) (sJobs st) \<or> key_taken st job")
  case True
  then have "fst (CreateJob st now job) \<noteq> nil" "snd (CreateJob st now job) = st" by (auto simp: CreateJob_def)
  moreover have "job_exists st (jID job) \<or> jPublicID job \<in> jPublicID ` set (sJobs st) \<or> key_taken st job"
    using True unfolding list_ex_iff by (metis image_eqI)
  ultimately show thesis by (rule that(1))
next
  case False
  then have "CreateJob st now job =
      AppendEvent (st\<lparr>sJobs := sJobs st @ [inserted_row job]\<rparr>) now (jID job) None (Some (jState job)) ''job created''"
    by (simp add: CreateJob_def)
  moreover have "job_exists (st\<lparr>sJobs := sJobs st @ [inserted_row job]\<rparr>) (jID job)"
    by (simp add: job_exists_def inserted_row_def)
  ultimately have "fst (CreateJob st now job) = nil" "sJobs (snd (CreateJob st now job)) = sJobs st @ [inserted_row job]"
    by (simp_all add: AppendEvent_def)
  moreover have "jPublicID job \<notin> jPublicID ` set (sJobs st)" using False by (auto simp: list_ex_iff)
  ultimately show thesis using False that(2) by blast
qed

lemma FindActive_None_iff:
  "FindActiveBySubmissionKey st k = None \<longleftrightarrow> (\<forall>r\<in>set (sJobs st). jSubmissionKey r = k \<longrightarrow> \<not> active r)"
  by (auto simp: FindActiveBySubmissionKey_def find_None_iff)

lemma key_taken_iff_Find:
  assumes "active job" and "\<not> job_exists st (jID job)"
  shows "key_taken st job \<longleftrightarrow> FindActiveBySubmissionKey st (jSubmissionKey job) \<noteq> None"
  using assms unfolding FindActive_None_iff key_taken_def list_ex_iff job_exists_def by (metis image_eqI)

text \<open>
  Submissions are not duplicated: with a fresh identifier, an active job is stored exactly when
  no active job has its submission key, and then the key leads to it; otherwise the database is
  as it was.
\<close>

lemma create_once:
  assumes "store_wf st" and "active job"
    and "\<not> job_exists st (jID job)" and "jPublicID job \<notin> jPublicID ` set (sJobs st)"
    and "CreateJob st now job = (e, st')"
  shows "(e = nil \<longleftrightarrow> FindActiveBySubmissionKey st (jSubmissionKey job) = None) \<and>
    (e = nil \<longrightarrow> FindActiveBySubmissionKey st' (jSubmissionKey job) = Some (inserted_row job)) \<and>
    (e \<noteq> nil \<longrightarrow> st' = st)"
proof -
  have e: "e = fst (CreateJob st now job)" "st' = snd (CreateJob st now job)" using assms(5) by simp_all
  note k = key_taken_iff_Find [OF assms(2,3)]
  have r: "active (inserted_row job)" "jSubmissionKey (inserted_row job) = jSubmissionKey job"
    using assms(2) by (simp_all add: inserted_row_def active_def)
  show ?thesis
  proof (rule CreateJob_cases [OF assms(1), of now job])
    assume "fst (CreateJob st now job) \<noteq> nil" "snd (CreateJob st now job) = st"
      "job_exists st (jID job) \<or> jPublicID job \<in> jPublicID ` set (sJobs st) \<or> key_taken st job"
    with e k assms(3,4) show ?thesis by auto
  next
    assume *: "fst (CreateJob st now job) = nil" "sJobs (snd (CreateJob st now job)) = sJobs st @ [inserted_row job]"
      "\<not> key_taken st job"
    then have none: "\<forall>x\<in>set (sJobs st). \<not> (jSubmissionKey x = jSubmissionKey job \<and> active x)"
      using k by (auto simp: FindActive_None_iff)
    have "find P (xs @ [x]) = Some x" if "\<forall>y\<in>set xs. \<not> P y" "P x" for P :: "job \<Rightarrow> bool" and xs x
      using that by (induction xs) auto
    from this [OF none, of "inserted_row job"] r * e k show ?thesis
      by (auto simp: FindActiveBySubmissionKey_def)
  qed
qed

lemma create_once_sample:
  "\<exists>e st'. CreateJob empty_store 0 (zero_job\<lparr>jID := ''a'', jSubmissionKey := ''k''\<rparr>) = (e, st') \<and> e = nil \<and>
     FindActiveBySubmissionKey st' ''k'' \<noteq> None"
proof -
  let ?job = "zero_job\<lparr>jID := ''a'', jSubmissionKey := ''k''\<rparr>"
  obtain e st' where c: "CreateJob empty_store 0 ?job = (e, st')" by fastforce
  have "active ?job" by (simp add: active_def zero_job_def active_states_def)
  moreover have "\<not> job_exists empty_store (jID ?job)" "jPublicID ?job \<notin> jPublicID ` set (sJobs empty_store)"
    "FindActiveBySubmissionKey empty_store (jSubmissionKey ?job) = None"
    by (simp_all add: empty_store_def job_exists_def FindActiveBySubmissionKey_def)
  ultimately show ?thesis using create_once [OF empty_store_wf _ _ _ c] c by auto
qed

end
