(* ===== verification/Filesystem.thy ===== *)
theory Filesystem
  imports Go_Path
begin

text \<open>
  The file operations of Go's \<open>os\<close> package that the repository uses, on a tree of directories
  and files without links. A path is resolved lexically against the working directory to a list
  of components. \<open>fsFaults\<close> lists the paths on which the operating system reports an I/O error,
  so that the error branches of the callers can be taken.
\<close>

datatype node = DirNode | FileNode string

datatype errno = ENOENT | ENOTDIR | EEXIST | EISDIR | EINVAL | EBUSY | EIO

record fs =
  fsCwd :: string
  fsNodes :: "(string list \<times> node) list"
  fsFaults :: "string list list"

fun errno_text :: "errno \<Rightarrow> string" where
  "errno_text ENOENT = ''no such file or directory''"
| "errno_text ENOTDIR = ''not a directory''"
| "errno_text EEXIST = ''file exists''"
| "errno_text EISDIR = ''is a directory''"
| "errno_text EINVAL = ''invalid argument''"
| "errno_text EBUSY = ''device or resource busy''"
| "errno_text EIO = ''input/output error''"

definition path_error :: "string \<Rightarrow> string \<Rightarrow> errno \<Rightarrow> go_error" where
  "path_error op path e = ErrText (op @ '' '' @ path @ '': '' @ errno_text e)"

text \<open>The components of a path in this process.\<close>

definition at :: "fs \<Rightarrow> string \<Rightarrow> string list" where
  "at fs p = resolve (fsCwd fs) p"

definition node_at :: "fs \<Rightarrow> string list \<Rightarrow> node option" where
  "node_at fs cs = (if cs = [] then Some DirNode else map_of (fsNodes fs) cs)"

definition is_dir :: "fs \<Rightarrow> string list \<Rightarrow> bool" where
  "is_dir fs cs \<longleftrightarrow> node_at fs cs = Some DirNode"

definition put_node :: "string list \<Rightarrow> node \<Rightarrow> fs \<Rightarrow> fs" where
  "put_node cs n fs = fs\<lparr>fsNodes := (cs, n) # filter (\<lambda>kv. fst kv \<noteq> cs) (fsNodes fs)\<rparr>"

definition drop_tree :: "string list \<Rightarrow> fs \<Rightarrow> fs" where
  "drop_tree cs fs = fs\<lparr>fsNodes := filter (\<lambda>kv. \<not> prefix cs (fst kv)) (fsNodes fs)\<rparr>"

section \<open>Operations\<close>

text \<open>The walk from the root to a path: the error of the first component that is not a directory.\<close>

fun walk :: "fs \<Rightarrow> string list \<Rightarrow> string list \<Rightarrow> errno option" where
  "walk fs seen [] = None"
| "walk fs seen (c # cs) =
     (case node_at fs (seen @ [c]) of
        None \<Rightarrow> Some ENOENT
      | Some DirNode \<Rightarrow> walk fs (seen @ [c]) cs
      | Some (FileNode d) \<Rightarrow> (if cs = [] then None else Some ENOTDIR))"

definition Stat :: "fs \<Rightarrow> string \<Rightarrow> errno + node" where
  "Stat fs p =
     (if p = [] then Inl ENOENT
      else if at fs p \<in> set (fsFaults fs) then Inl EIO
      else case walk fs [] (at fs p) of
             Some e \<Rightarrow> Inl e
           | None \<Rightarrow> (case node_at fs (at fs p) of None \<Rightarrow> Inl ENOENT | Some n \<Rightarrow> Inr n))"

fun node_size :: "node \<Rightarrow> int" where
  "node_size (FileNode d) = int (length d)"
| "node_size DirNode = 4096"

text \<open>\<open>MkdirAll\<close> makes the missing directories from the outside in; those made stay on a failure.\<close>

fun mkdirs :: "fs \<Rightarrow> string list \<Rightarrow> string list \<Rightarrow> errno option \<times> fs" where
  "mkdirs fs seen [] = (None, fs)"
| "mkdirs fs seen (c # cs) =
     (let p = seen @ [c] in
      if p \<in> set (fsFaults fs) then (Some EIO, fs)
      else case node_at fs p of
             None \<Rightarrow> mkdirs (put_node p DirNode fs) p cs
           | Some DirNode \<Rightarrow> mkdirs fs p cs
           | Some (FileNode d) \<Rightarrow> (Some ENOTDIR, fs))"

definition MkdirAll :: "fs \<Rightarrow> string \<Rightarrow> errno option \<times> fs" where
  "MkdirAll fs p = (if p = [] then (Some ENOENT, fs) else mkdirs fs [] (at fs p))"

text \<open>
  \<open>os.Rename\<close> refuses a target that is a directory (unless it is the source under another
  spelling); otherwise it is the system call, which moves the subtree and replaces a file.
\<close>

definition move_tree :: "string list \<Rightarrow> string list \<Rightarrow> fs \<Rightarrow> fs" where
  "move_tree a b fs = fs\<lparr>fsNodes :=
     map (\<lambda>(k, n). if prefix a k then (b @ drop (length a) k, n) else (k, n))
       (filter (\<lambda>kv. fst kv \<noteq> b) (fsNodes fs))\<rparr>"

definition Rename_file :: "fs \<Rightarrow> string \<Rightarrow> string \<Rightarrow> errno option \<times> fs" where
  "Rename_file fs old new =
     (let a = at fs old; b = at fs new in
      case Stat fs new of
        Inr DirNode \<Rightarrow>
          (case Stat fs old of
             Inl e \<Rightarrow> (Some e, fs)
           | Inr n \<Rightarrow> if new = old \<or> a \<noteq> b then (Some EEXIST, fs) else (None, fs))
      | _ \<Rightarrow>
          (case Stat fs old of
             Inl e \<Rightarrow> (Some e, fs)
           | Inr n \<Rightarrow>
               if new = [] then (Some ENOENT, fs)
               else if a = [] then (Some EBUSY, fs)
               else if b \<in> set (fsFaults fs) then (Some EIO, fs)
               else if a = b then (None, fs)
               else if prefix a b then (Some (if n = DirNode then EINVAL else ENOTDIR), fs)
               else (case walk fs [] (butlast b) of
                       Some e \<Rightarrow> (Some e, fs)
                     | None \<Rightarrow>
                         if \<not> is_dir fs (butlast b) then (Some ENOTDIR, fs)
                         else if n = DirNode \<and> node_at fs b \<noteq> None then (Some ENOTDIR, fs)
                         else (None, move_tree a b fs))))"

text \<open>\<open>os.RemoveAll\<close>: a path that does not exist is no error, one that ends in a dot is.\<close>

definition RemoveAll :: "fs \<Rightarrow> string \<Rightarrow> errno option \<times> fs" where
  "RemoveAll fs p =
     (if p = [] then (None, fs)
      else if last (split_path p) = ''.'' then (Some EINVAL, fs)
      else if at fs p = [] then (Some EBUSY, fs)
      else if at fs p \<in> set (fsFaults fs) then (Some EIO, fs)
      else case walk fs [] (at fs p) of
             Some ENOENT \<Rightarrow> (None, fs)
           | Some e \<Rightarrow> (Some e, fs)
           | None \<Rightarrow> (None, drop_tree (at fs p) fs))"

text \<open>The entries of a directory by name.\<close>

definition child_names :: "fs \<Rightarrow> string list \<Rightarrow> string list" where
  "child_names fs cs =
     sort (remdups (map (\<lambda>kv. last (fst kv)) (filter (\<lambda>kv. fst kv \<noteq> [] \<and> butlast (fst kv) = cs) (fsNodes fs))))"

definition ReadDir :: "fs \<Rightarrow> string \<Rightarrow> errno + (string \<times> bool) list" where
  "ReadDir fs p =
     (case Stat fs p of
        Inl e \<Rightarrow> Inl e
      | Inr (FileNode d) \<Rightarrow> Inl ENOTDIR
      | Inr DirNode \<Rightarrow> Inr (map (\<lambda>c. (c, is_dir fs (at fs p @ [c]))) (child_names fs (at fs p))))"

text \<open>
  Opening for writing: \<open>O_APPEND\<close> needs an existing file, \<open>O_CREATE|O_TRUNC\<close> (and \<open>os.Create\<close>)
  an existing parent. The open file is its path; a write appends.
\<close>

definition OpenAppend :: "fs \<Rightarrow> string \<Rightarrow> errno option" where
  "OpenAppend fs p =
     (case Stat fs p of Inl e \<Rightarrow> Some e | Inr DirNode \<Rightarrow> Some EISDIR | Inr (FileNode d) \<Rightarrow> None)"

definition CreateTrunc :: "fs \<Rightarrow> string \<Rightarrow> errno option \<times> fs" where
  "CreateTrunc fs p =
     (let cs = at fs p in
      if p = [] then (Some ENOENT, fs)
      else if cs \<in> set (fsFaults fs) then (Some EIO, fs)
      else if is_dir fs cs then (Some EISDIR, fs)
      else case walk fs [] (butlast cs) of
             Some e \<Rightarrow> (Some e, fs)
           | None \<Rightarrow> if is_dir fs (butlast cs) then (None, put_node cs (FileNode []) fs) else (Some ENOTDIR, fs))"

definition WriteFile :: "fs \<Rightarrow> string \<Rightarrow> string \<Rightarrow> errno option \<times> fs" where
  "WriteFile fs p bytes =
     (case node_at fs (at fs p) of
        Some (FileNode d) \<Rightarrow>
          if at fs p \<in> set (fsFaults fs) then (Some EIO, fs) else (None, put_node (at fs p) (FileNode (d @ bytes)) fs)
      | _ \<Rightarrow> (Some EIO, fs))"

section \<open>What an operation leaves at a path\<close>

lemma node_at_root [simp]: "node_at fs [] = Some DirNode"
  by (simp add: node_at_def)

lemma is_dir_root [simp]: "is_dir fs []"
  by (simp add: is_dir_def)

lemma node_at_put [fs_simps]:
  "cs \<noteq> [] \<Longrightarrow> node_at (put_node cs n fs) k = (if k = cs then Some n else node_at fs k)"
  by (auto simp: node_at_def put_node_def map_of_filter_key [of "\<lambda>k. k \<noteq> cs"])

lemma node_at_drop [fs_simps]:
  "cs \<noteq> [] \<Longrightarrow> node_at (drop_tree cs fs) k = (if prefix cs k then None else node_at fs k)"
  by (auto simp: node_at_def drop_tree_def map_of_filter_key [of "\<lambda>k. \<not> prefix cs k"])

lemma env_simps [simp]:
  "fsCwd (put_node cs n fs) = fsCwd fs" "fsFaults (put_node cs n fs) = fsFaults fs"
  "fsCwd (drop_tree cs fs) = fsCwd fs" "fsFaults (drop_tree cs fs) = fsFaults fs"
  "fsCwd (move_tree a b fs) = fsCwd fs" "fsFaults (move_tree a b fs) = fsFaults fs"
  by (simp_all add: put_node_def drop_tree_def move_tree_def)

lemma mkdirs_env [simp]:
  "fsCwd (snd (mkdirs fs seen cs)) = fsCwd fs" "fsFaults (snd (mkdirs fs seen cs)) = fsFaults fs"
  by (induction fs seen cs rule: mkdirs.induct) (auto simp: Let_def split: option.splits node.splits)

text \<open>The tree a removal or a move leaves: the one it found, or the one without or with the subtree.\<close>

lemma RemoveAll_tree:
  "snd (RemoveAll fs p) = fs \<or>
   at fs p \<noteq> [] \<and> walk fs [] (at fs p) = None \<and> RemoveAll fs p = (None, drop_tree (at fs p) fs)"
proof (cases "walk fs [] (at fs p)")
  case None
  then show ?thesis by (simp add: RemoveAll_def)
next
  case (Some e)
  then show ?thesis by (cases e) (simp_all add: RemoveAll_def)
qed

lemma Rename_tree:
  "snd (Rename_file fs p q) = fs \<or>
   at fs p \<noteq> [] \<and> at fs p \<noteq> at fs q \<and> \<not> prefix (at fs p) (at fs q) \<and> is_dir fs (butlast (at fs q)) \<and>
   (\<exists>n. Stat fs p = Inr n \<and> (n = DirNode \<longrightarrow> node_at fs (at fs q) = None)) \<and> (\<forall>n. Stat fs q = Inr n \<longrightarrow> n \<noteq> DirNode) \<and>
   q \<noteq> [] \<and> at fs q \<notin> set (fsFaults fs) \<and> Rename_file fs p q = (None, move_tree (at fs p) (at fs q) fs)"
proof -
  let ?a = "at fs p" and ?b = "at fs q"
  show ?thesis
  proof (cases "Stat fs q = Inr DirNode")
    case True
    then show ?thesis by (cases "Stat fs p") (simp_all add: Rename_file_def Let_def)
  next
    case False
    show ?thesis
    proof (cases "Stat fs p")
      case (Inl e)
      with False show ?thesis by (simp add: Rename_file_def Let_def split: sum.split node.split)
    next
      case (Inr n)
      let ?rest = "if q = [] then (Some ENOENT, fs)
               else if ?a = [] then (Some EBUSY, fs)
               else if ?b \<in> set (fsFaults fs) then (Some EIO, fs)
               else if ?a = ?b then (None, fs)
               else if prefix ?a ?b then (Some (if n = DirNode then EINVAL else ENOTDIR), fs)
               else (case walk fs [] (butlast ?b) of
                       Some e \<Rightarrow> (Some e, fs)
                     | None \<Rightarrow>
                         if \<not> is_dir fs (butlast ?b) then (Some ENOTDIR, fs)
                         else if n = DirNode \<and> node_at fs ?b \<noteq> None then (Some ENOTDIR, fs)
                         else (None, move_tree ?a ?b fs))"
      have r: "Rename_file fs p q = ?rest"
        unfolding Rename_file_def Let_def Inr using False by (cases "Stat fs q" rule: sum.exhaust) (auto split: node.split)
      show ?thesis
      proof (cases "walk fs [] (butlast ?b)")
        case None
        with r Inr False show ?thesis by (auto split: if_splits)
      next
        case (Some e)
        with r show ?thesis by (auto split: if_splits)
      qed
    qed
  qed
qed

lemma CreateTrunc_tree:
  "snd (CreateTrunc fs p) = fs \<or>
   at fs p \<noteq> [] \<and> is_dir fs (butlast (at fs p)) \<and> \<not> is_dir fs (at fs p) \<and>
   CreateTrunc fs p = (None, put_node (at fs p) (FileNode []) fs)"
proof (cases "walk fs [] (butlast (at fs p))")
  case None
  then show ?thesis by (cases "at fs p = []") (simp_all add: CreateTrunc_def Let_def)
next
  case (Some e)
  then show ?thesis by (simp add: CreateTrunc_def Let_def)
qed

lemma WriteFile_tree:
  "snd (WriteFile fs p bytes) = fs \<or>
   at fs p \<noteq> [] \<and> (\<exists>d. node_at fs (at fs p) = Some (FileNode d) \<and>
     WriteFile fs p bytes = (None, put_node (at fs p) (FileNode (d @ bytes)) fs))"
  by (cases "at fs p = []") (auto simp: WriteFile_def split: option.split node.split)

lemma op_cwd [simp]:
  "fsCwd (snd (MkdirAll fs p)) = fsCwd fs" "fsCwd (snd (Rename_file fs p q)) = fsCwd fs"
  "fsCwd (snd (RemoveAll fs p)) = fsCwd fs" "fsCwd (snd (CreateTrunc fs p)) = fsCwd fs"
  "fsCwd (snd (WriteFile fs p d)) = fsCwd fs"
proof -
  show "fsCwd (snd (MkdirAll fs p)) = fsCwd fs" by (simp add: MkdirAll_def)
  show "fsCwd (snd (Rename_file fs p q)) = fsCwd fs" using Rename_tree [of fs p q] by auto
  show "fsCwd (snd (RemoveAll fs p)) = fsCwd fs" using RemoveAll_tree [of fs p] by auto
  show "fsCwd (snd (CreateTrunc fs p)) = fsCwd fs" using CreateTrunc_tree [of fs p] by auto
  show "fsCwd (snd (WriteFile fs p d)) = fsCwd fs" using WriteFile_tree [of fs p d] by auto
qed

lemma at_cong: "fsCwd fs' = fsCwd fs \<Longrightarrow> at fs' p = at fs p"
  by (simp add: at_def)

lemma mkdirs_other: "\<not> prefix k (seen @ cs) \<Longrightarrow> node_at (snd (mkdirs fs seen cs)) k = node_at fs k"
proof (induction fs seen cs rule: mkdirs.induct)
  case (2 fs seen c cs)
  from 2(3) have "k \<noteq> seen @ [c]" and "\<not> prefix k ((seen @ [c]) @ cs)" by auto
  with 2 show ?case by (auto simp: Let_def fs_simps split: option.splits node.splits)
qed simp

lemma mkdirs_keeps: "node_at fs k = Some n \<Longrightarrow> node_at (snd (mkdirs fs seen cs)) k = Some n"
proof (induction fs seen cs rule: mkdirs.induct)
  case (2 fs seen c cs)
  then show ?case
    by (cases "k = seen @ [c]") (auto simp: Let_def fs_simps split: option.splits node.splits)
qed simp

lemma mkdirs_dir: "is_dir fs seen \<Longrightarrow> fst (mkdirs fs seen cs) = None \<Longrightarrow> is_dir (snd (mkdirs fs seen cs)) (seen @ cs)"
  by (induction fs seen cs rule: mkdirs.induct)
     (auto simp: Let_def is_dir_def fs_simps split: option.splits node.splits if_splits)

lemma map_of_move_other:
  "\<not> prefix a k \<Longrightarrow> \<not> prefix b k \<Longrightarrow>
   map_of (map (\<lambda>(k, n). if prefix a k then (b @ drop (length a) k, n) else (k, n)) (filter (\<lambda>kv. fst kv \<noteq> b) xs)) k =
   map_of xs k"
  by (induction xs) auto

lemma move_tree_other:
  "\<not> prefix a k \<Longrightarrow> \<not> prefix b k \<Longrightarrow> node_at (move_tree a b fs) k = node_at fs k"
  by (simp add: node_at_def move_tree_def map_of_move_other)

section \<open>The tree\<close>

text \<open>A component that names a file.\<close>

definition name_comp :: "string \<Rightarrow> bool" where
  "name_comp c \<longleftrightarrow> plain_comp c \<and> slash \<notin> set c"

abbreviation named :: "string list \<Rightarrow> bool" where
  "named cs \<equiv> \<forall>c\<in>set cs. name_comp c"

text \<open>Every node's parent is a directory, its path consists of names, and the working directory is absolute.\<close>

definition fs_wf :: "fs \<Rightarrow> bool" where
  "fs_wf fs \<longleftrightarrow> IsAbs (fsCwd fs) \<and>
     (\<forall>k. k \<noteq> [] \<and> node_at fs k \<noteq> None \<longrightarrow> is_dir fs (butlast k)) \<and> (\<forall>k. node_at fs k \<noteq> None \<longrightarrow> named k)"

lemma fs_wfD: "fs_wf fs \<Longrightarrow> k \<noteq> [] \<Longrightarrow> node_at fs k \<noteq> None \<Longrightarrow> is_dir fs (butlast k)"
  by (simp add: fs_wf_def)

lemma fs_wf_ancestor:
  assumes "fs_wf fs" and "node_at fs (k @ cs) \<noteq> None" and "cs \<noteq> []"
  shows "is_dir fs k"
  using assms(2,3)
proof (induction cs rule: rev_induct)
  case (snoc c cs)
  then have "is_dir fs (k @ cs)" using fs_wfD [OF assms(1), of "k @ cs @ [c]"] by (simp add: butlast_append)
  then show ?case using snoc.IH by (cases "cs = []") (auto simp: is_dir_def)
qed simp

lemma fs_wf_prefix: "fs_wf fs \<Longrightarrow> strict_prefix k j \<Longrightarrow> node_at fs j \<noteq> None \<Longrightarrow> is_dir fs k"
  using fs_wf_ancestor by (metis append_Nil2 prefixE strict_prefix_def)

lemma at_named: "fs_wf fs \<Longrightarrow> named (at fs p)"
  using resolve_plain [of "fsCwd fs" p] clean_comps_no_slash [of "Abs (fsCwd fs) p"]
  by (simp add: at_def fs_wf_def name_comp_def resolve_def)

lemma node_named: "fs_wf fs \<Longrightarrow> node_at fs k \<noteq> None \<Longrightarrow> named k"
  by (simp add: fs_wf_def)

text \<open>The walk to an existing node succeeds.\<close>

lemma walk_ok:
  "fs_wf fs \<Longrightarrow> node_at fs (seen @ cs) \<noteq> None \<Longrightarrow> walk fs seen cs = None"
proof (induction fs seen cs rule: walk.induct)
  case (2 fs seen c cs)
  show ?case
  proof (cases "cs = []")
    case True
    with 2 show ?thesis by (auto split: option.splits node.splits)
  next
    case False
    with fs_wf_ancestor [OF 2(2), of "seen @ [c]" cs] 2(3) have "is_dir fs (seen @ [c])" by simp
    with 2 show ?thesis by (simp add: is_dir_def)
  qed
qed simp

lemma Stat_iff:
  assumes "fs_wf fs" and "p \<noteq> []" and "at fs p \<notin> set (fsFaults fs)"
  shows "Stat fs p = Inr n \<longleftrightarrow> node_at fs (at fs p) = Some n"
  using assms walk_ok [of fs "[]" "at fs p"]
  by (auto simp: Stat_def split: option.splits)

lemma Stat_node: "Stat fs p = Inr n \<Longrightarrow> node_at fs (at fs p) = Some n \<and> p \<noteq> [] \<and> at fs p \<notin> set (fsFaults fs)"
  by (auto simp: Stat_def split: option.splits if_splits)

lemma map_of_move_target:
  assumes "\<And>x. prefix b x \<Longrightarrow> map_of xs x \<noteq> None \<Longrightarrow> x = b" and "\<not> prefix a b" and "prefix b k"
  shows "map_of (map (\<lambda>(k, n). if prefix a k then (b @ drop (length a) k, n) else (k, n))
      (filter (\<lambda>kv. fst kv \<noteq> b) xs)) k = map_of xs (a @ drop (length b) k)"
  using assms(1)
proof (induction xs)
  case (Cons x xs)
  obtain y n where x: "x = (y, n)" by fastforce
  have IH: "map_of (map (\<lambda>(k, n). if prefix a k then (b @ drop (length a) k, n) else (k, n))
      (filter (\<lambda>kv. fst kv \<noteq> b) xs)) k = map_of xs (a @ drop (length b) k)"
    using Cons.prems by (intro Cons.IH) (auto simp: x split: if_splits)
  obtain r where k: "k = b @ r" using assms(3) by (rule prefixE)
  have y: "prefix b y \<Longrightarrow> y = b" using Cons.prems [of y] by (simp add: x)
  have "a @ r \<noteq> b" using assms(2) by auto
  show ?case
  proof (cases "prefix a y")
    case True
    then obtain s where s: "y = a @ s" by (rule prefixE)
    with \<open>\<not> prefix a b\<close> have "y \<noteq> b" by auto
    with IH s x k show ?thesis by auto
  next
    case False
    then have "y \<noteq> a @ r" by auto
    with IH x k y False show ?thesis by (cases "y = b") auto
  qed
qed simp

text \<open>A move of a subtree: the target has what the source had, the source nothing.\<close>

lemma node_at_move [fs_simps]:
  assumes wf: "fs_wf fs" and "a \<noteq> []" and "b \<noteq> []" and "\<not> prefix a b" and "\<not> is_dir fs b"
  shows "node_at (move_tree a b fs) k =
    (if prefix b k then node_at fs (a @ drop (length b) k) else if prefix a k then None else node_at fs k)"
proof -
  have under: "x = b" if "prefix b x" "map_of (fsNodes fs) x \<noteq> None" for x
  proof (rule ccontr)
    assume "x \<noteq> b"
    with that have "is_dir fs b" using fs_wf_prefix [OF wf, of b x] by (auto simp: node_at_def strict_prefix_def)
    with assms(5) show False by simp
  qed
  show ?thesis
  proof (cases "prefix b k")
    case True
    then have "k \<noteq> []" and "a @ drop (length b) k \<noteq> []" using assms(2,3) by auto
    with True assms(2) map_of_move_target [OF under assms(4) True] show ?thesis
      by (simp add: node_at_def move_tree_def)
  next
    case False
    show ?thesis
    proof (cases "prefix a k")
      case True
      have "map_of (map (\<lambda>(k, n). if prefix a k then (b @ drop (length a) k, n) else (k, n)) xs) k = None" for xs
        using True False unfolding map_of_eq_None_iff by (auto split: if_splits)
      with True False assms(2) show ?thesis by (auto simp: node_at_def move_tree_def)
    next
      case False
      with \<open>\<not> prefix b k\<close> show ?thesis by (simp add: move_tree_other)
    qed
  qed
qed

end
