(* ===== verification/Filesystem_Facts.thy ===== *)
theory Filesystem_Facts
  imports Filesystem
begin

text \<open>
  The contract of the file operations. A property of file trees that survives every operation on
  the paths a component may use is kept by the component; the components are proved once, inside
  the locale \<open>fs_contract\<close>. Its interpretations are the shape of the tree and the confinement of
  all changes to given directories.
\<close>

lemma put_node_wf:
  assumes "fs_wf fs" and "is_dir fs (butlast cs)" and "cs \<noteq> []" and "n = DirNode \<or> \<not> is_dir fs cs"
    and "named cs"
  shows "fs_wf (put_node cs n fs)"
proof -
  have "is_dir (put_node cs n fs) (butlast k)" if "k \<noteq> []" "node_at (put_node cs n fs) k \<noteq> None" for k
  proof -
    have d: "is_dir fs (butlast k)"
      using that assms(1-3) fs_wfD [OF assms(1), of k] by (cases "k = cs") (simp_all add: fs_simps)
    moreover have "butlast k = cs \<Longrightarrow> n = DirNode" using d assms(4) by auto
    ultimately show ?thesis using assms(3) by (auto simp: is_dir_def fs_simps)
  qed
  moreover have "named k" if "node_at (put_node cs n fs) k \<noteq> None" for k
    using that assms(1,3,5) by (cases "k = cs") (simp_all add: fs_simps fs_wf_def)
  ultimately show ?thesis using assms(1) by (simp add: fs_wf_def)
qed

lemma drop_tree_wf: "fs_wf fs \<Longrightarrow> cs \<noteq> [] \<Longrightarrow> fs_wf (drop_tree cs fs)"
  by (auto simp: fs_wf_def fs_simps is_dir_def dest: prefix_order.trans [OF _ prefixeq_butlast])

lemma move_tree_wf:
  assumes wf: "fs_wf fs" and "a \<noteq> []" and "b \<noteq> []" and nab: "\<not> prefix a b" and "\<not> is_dir fs b"
    and parent: "is_dir fs (butlast b)" and "named b"
  shows "fs_wf (move_tree a b fs)"
proof -
  note look = node_at_move [OF wf assms(2,3) nab assms(5)]
  have up: "\<not> prefix x k \<Longrightarrow> \<not> prefix x (butlast k)" for x k :: "string list"
    using prefix_order.trans prefixeq_butlast by blast
  have "is_dir (move_tree a b fs) (butlast k)" if k: "k \<noteq> []" "node_at (move_tree a b fs) k \<noteq> None" for k
  proof (cases "prefix b k")
    case True
    then obtain r where r: "k = b @ r" by (rule prefixE)
    show ?thesis
    proof (cases "r = []")
      case True
      have "\<not> prefix b (butlast b)" using assms(3) prefix_length_le [of b "butlast b"] by (cases b) auto
      with True r up [OF nab] parent show ?thesis by (simp add: is_dir_def look)
    next
      case False
      have "node_at fs (a @ r) \<noteq> None" using k(2) r by (simp add: look)
      then have "is_dir fs (butlast (a @ r))" using wf False by (intro fs_wfD) auto
      with False r show ?thesis by (simp add: is_dir_def look butlast_append)
    qed
  next
    case False
    with k have "\<not> prefix a k" "node_at fs k \<noteq> None" by (auto simp: look split: if_splits)
    then have "is_dir fs (butlast k)" using wf k(1) by (intro fs_wfD)
    with up [OF False] up [OF \<open>\<not> prefix a k\<close>] show ?thesis by (simp add: is_dir_def look)
  qed
  moreover have "named k" if k: "node_at (move_tree a b fs) k \<noteq> None" for k
  proof (cases "prefix b k")
    case True
    then obtain r where r: "k = b @ r" by (rule prefixE)
    with k have "named (a @ r)" using node_named [OF wf, of "a @ r"] by (simp add: look)
    with r \<open>named b\<close> show ?thesis by auto
  next
    case False
    with k node_named [OF wf, of k] show ?thesis by (auto simp: look split: if_splits)
  qed
  ultimately show ?thesis using wf by (simp add: fs_wf_def)
qed

lemma mkdirs_wf: "fs_wf fs \<Longrightarrow> is_dir fs seen \<Longrightarrow> named (seen @ cs) \<Longrightarrow> fs_wf (snd (mkdirs fs seen cs))"
proof (induction fs seen cs rule: mkdirs.induct)
  case (2 fs seen c cs)
  have "is_dir (put_node (seen @ [c]) DirNode fs) (seen @ [c])" by (simp add: is_dir_def fs_simps)
  with 2 show ?case
    by (auto simp: Let_def put_node_wf is_dir_def split: option.splits node.splits)
qed simp

section \<open>The contract\<close>

locale fs_contract =
  fixes I :: "fs \<Rightarrow> bool" and P :: "fs \<Rightarrow> string \<Rightarrow> bool"
  assumes path_cong: "P fs p \<Longrightarrow> fsCwd fs' = fsCwd fs \<Longrightarrow> P fs' p"
    and parent_keeps: "I fs \<Longrightarrow> P fs p \<Longrightarrow> prefix (at fs (Dir p)) (at fs p) \<Longrightarrow> I (snd (MkdirAll fs (Dir p)))"
    and mkdir_keeps: "I fs \<Longrightarrow> P fs p \<Longrightarrow> I (snd (MkdirAll fs p))"
    and rename_keeps: "I fs \<Longrightarrow> P fs p \<Longrightarrow> P fs q \<Longrightarrow> I (snd (Rename_file fs p q))"
    and remove_keeps: "I fs \<Longrightarrow> P fs p \<Longrightarrow> I (snd (RemoveAll fs p))"
    and create_keeps: "I fs \<Longrightarrow> P fs p \<Longrightarrow> I (snd (CreateTrunc fs p))"
    and write_keeps: "I fs \<Longrightarrow> P fs p \<Longrightarrow> I (snd (WriteFile fs p bytes))"

interpretation tree: fs_contract fs_wf "\<lambda>_ _. True"
proof unfold_locales
  fix fs p q bytes assume wf: "fs_wf fs"
  show "fs_wf (snd (MkdirAll fs p))" using wf by (simp add: MkdirAll_def mkdirs_wf at_named)
  show "fs_wf (snd (RemoveAll fs p))" using RemoveAll_tree [of fs p] wf by (auto simp: drop_tree_wf)
  show "fs_wf (snd (CreateTrunc fs p))"
    using CreateTrunc_tree [of fs p] wf at_named [OF wf, of p] by (auto simp: put_node_wf)
  show "fs_wf (snd (WriteFile fs p bytes))"
    using WriteFile_tree [of fs p bytes] wf fs_wfD [OF wf, of "at fs p"] at_named [OF wf, of p] by (auto simp: put_node_wf is_dir_def)
  show "fs_wf (snd (Rename_file fs p q))"
  proof (cases "snd (Rename_file fs p q) = fs")
    case False
    with Rename_tree [of fs p q] obtain n where
      *: "at fs p \<noteq> []" "\<not> prefix (at fs p) (at fs q)" "is_dir fs (butlast (at fs q))" "Stat fs p = Inr n"
         "n = DirNode \<longrightarrow> node_at fs (at fs q) = None" "\<forall>n. Stat fs q = Inr n \<longrightarrow> n \<noteq> DirNode"
         "q \<noteq> []" "at fs q \<notin> set (fsFaults fs)" "Rename_file fs p q = (None, move_tree (at fs p) (at fs q) fs)" by blast
    have "at fs q \<noteq> []" and "\<not> is_dir fs (at fs q)"
      using Stat_iff [OF wf *(7,8), of DirNode] *(6) node_at_root by (auto simp: is_dir_def)
    with * wf at_named [OF wf, of q] show ?thesis by (simp add: move_tree_wf)
  qed (use wf in simp)
qed (simp_all add: MkdirAll_def mkdirs_wf at_named)

section \<open>Confinement\<close>

text \<open>A path is in reach of the roots when it lies in one of them or above one.\<close>

definition reach :: "string list list \<Rightarrow> string list \<Rightarrow> bool" where
  "reach roots k \<longleftrightarrow> (\<exists>r\<in>set roots. prefix r k \<or> prefix k r)"

definition inside :: "string list list \<Rightarrow> string list \<Rightarrow> bool" where
  "inside roots k \<longleftrightarrow> (\<exists>r\<in>set roots. prefix r k)"

lemma inside_reach: "inside roots k \<Longrightarrow> reach roots k"
  by (auto simp: inside_def reach_def)

lemma inside_below: "inside roots k \<Longrightarrow> prefix k j \<Longrightarrow> inside roots j"
  by (auto simp: inside_def intro: prefix_order.trans)

lemma inside_prefix_reach: "inside roots k \<Longrightarrow> prefix j k \<Longrightarrow> reach roots j"
  unfolding inside_def reach_def using prefix_same_cases by blast

text \<open>Operations on paths inside the roots change no node out of their reach.\<close>

definition confined :: "string list list \<Rightarrow> fs \<Rightarrow> fs \<Rightarrow> bool" where
  "confined roots before after \<longleftrightarrow> (\<forall>k. \<not> reach roots k \<longrightarrow> node_at after k = node_at before k)"

lemma confined_refl [simp]: "confined roots fs fs"
  by (simp add: confined_def)

lemma confined_trans: "confined roots a b \<Longrightarrow> confined roots b c \<Longrightarrow> confined roots a c"
  by (simp add: confined_def)

lemma mkdirs_confined: "reach roots cs \<Longrightarrow> (\<forall>j. prefix j cs \<longrightarrow> reach roots j) \<Longrightarrow> confined roots fs (snd (mkdirs fs [] cs))"
  using mkdirs_other [of _ "[]" cs fs] by (auto simp: confined_def)

lemma MkdirAll_confined:
  assumes "inside roots cs" and "prefix (at fs p) cs"
  shows "confined roots fs (snd (MkdirAll fs p))"
proof -
  have "\<forall>j. prefix j (at fs p) \<longrightarrow> reach roots j"
    using assms inside_prefix_reach prefix_order.trans by blast
  then show ?thesis by (simp add: MkdirAll_def mkdirs_confined)
qed

interpretation confine: fs_contract "confined roots before" "\<lambda>fs p. inside roots (at fs p)"
  for roots :: "string list list" and before :: fs
proof unfold_locales
  fix fs p q bytes
  assume I: "confined roots before fs" and P: "inside roots (at fs p)"
  note t = confined_trans [OF I]
  have under: "\<not> reach roots k \<Longrightarrow> \<not> prefix (at fs p) k" for k
    using P inside_below inside_reach by blast
  have at_p: "\<not> reach roots k \<Longrightarrow> k \<noteq> at fs p" for k
    using under by auto
  show "confined roots before (snd (MkdirAll fs (Dir p)))" if "prefix (at fs (Dir p)) (at fs p)"
    using MkdirAll_confined [OF P that] by (rule t)
  show "confined roots before (snd (MkdirAll fs p))"
    using MkdirAll_confined [OF P] by (intro t) simp
  show "confined roots before (snd (RemoveAll fs p))"
    using RemoveAll_tree [of fs p] under by (intro t) (auto simp: confined_def fs_simps)
  show "confined roots before (snd (CreateTrunc fs p))"
    using CreateTrunc_tree [of fs p] at_p by (intro t) (auto simp: confined_def fs_simps)
  show "confined roots before (snd (WriteFile fs p bytes))"
    using WriteFile_tree [of fs p bytes] at_p by (intro t) (auto simp: confined_def fs_simps)
  show "confined roots before (snd (Rename_file fs p q))" if Q: "inside roots (at fs q)"
  proof -
    have "\<not> reach roots k \<Longrightarrow> \<not> prefix (at fs q) k" for k
      using Q inside_below inside_reach by blast
    with Rename_tree [of fs p q] under show ?thesis
      by (intro t) (auto simp: confined_def move_tree_other)
  qed
qed (simp_all add: at_def)

end
