(* ===== verification/Layout.thy ===== *)
theory Layout
  imports Filesystem_Facts
begin

text \<open>
  The directory layout of \<open>internal/files/layout.go\<close>: where a job's staging directory, payload
  and completed directory are, how names from outside become file names, and the operations that
  move and remove those directories.
\<close>

record layout =
  Root :: string
  Staging :: string
  Completed :: string
  Payloads :: string

definition NewLayout :: "string \<Rightarrow> string \<Rightarrow> string \<Rightarrow> string \<Rightarrow> layout" where
  "NewLayout root staging completed payloads =
     \<lparr>Root = root, Staging = staging, Completed = completed, Payloads = payloads\<rparr>"

section \<open>Names\<close>

text \<open>The characters that the replacer turns into underscores.\<close>

definition bad_chars :: "char list" where
  "bad_chars = [CHR ''/'', CHR 0x5C, CHR '':'', CHR ''*'', CHR ''?'', CHR 0x22, CHR ''<'', CHR ''>'', CHR ''|'']"

definition sanitize :: "string \<Rightarrow> string" where
  "sanitize v =
     (let v = map (\<lambda>c. if c \<in> set bad_chars then CHR ''_'' else c) (TrimSpace v);
          v = TrimCut ''. '' v
      in if v = [] then ''unnamed'' else v)"

text \<open>\<open>utf8.ValidString\<close> on the byte values.\<close>

definition cont :: "nat \<Rightarrow> bool" where
  "cont b \<longleftrightarrow> 0x80 \<le> b \<and> b \<le> 0xBF"

fun utf8_ok :: "nat list \<Rightarrow> bool" where
  "utf8_ok [] = True"
| "utf8_ok (a # bs) =
     (if a < 0x80 then utf8_ok bs
      else case bs of
        [] \<Rightarrow> False
      | b # cs \<Rightarrow>
          if 0xC2 \<le> a \<and> a \<le> 0xDF then cont b \<and> utf8_ok cs
          else case cs of
            [] \<Rightarrow> False
          | c # ds \<Rightarrow>
              if 0xE0 \<le> a \<and> a \<le> 0xEF
              then cont b \<and> (a = 0xE0 \<longrightarrow> 0xA0 \<le> b) \<and> (a = 0xED \<longrightarrow> b \<le> 0x9F) \<and> cont c \<and> utf8_ok ds
              else case ds of
                [] \<Rightarrow> False
              | d # es \<Rightarrow>
                  0xF0 \<le> a \<and> a \<le> 0xF4 \<and> cont b \<and> (a = 0xF0 \<longrightarrow> 0x90 \<le> b) \<and> (a = 0xF4 \<longrightarrow> b \<le> 0x8F) \<and>
                  cont c \<and> cont d \<and> utf8_ok es)"

definition ValidString :: "string \<Rightarrow> bool" where
  "ValidString s \<longleftrightarrow> utf8_ok (map of_char s)"

text \<open>The loop of \<open>truncateName\<close>: bytes go from the end until what is left is valid.\<close>

function valid_prefix :: "string \<Rightarrow> string" where
  "valid_prefix name = (if ValidString name then name else valid_prefix (butlast name))"
  by pat_completeness auto
termination
proof (relation "measure length")
  fix name :: string assume "\<not> ValidString name"
  then show "(butlast name, name) \<in> measure length" by (cases name) (simp_all add: ValidString_def)
qed simp

declare valid_prefix.simps [simp del]

definition truncateName :: "string \<Rightarrow> int \<Rightarrow> string" where
  "truncateName name maxBytes =
     (if int (length name) \<le> maxBytes then name
      else if maxBytes \<le> 0 then []
      else valid_prefix (take (nat maxBytes) name))"

definition maxFilenameBytes :: int where "maxFilenameBytes = 255"

section \<open>Places\<close>

definition StagingPathForJob :: "layout \<Rightarrow> string \<Rightarrow> string" where
  "StagingPathForJob l jobID = Join [Staging l, jobID]"

definition PayloadPathForJob :: "layout \<Rightarrow> string \<Rightarrow> string \<Rightarrow> string" where
  "PayloadPathForJob l jobID name = Join [Payloads l, jobID, sanitize name]"

definition PayloadDirForJob :: "layout \<Rightarrow> string \<Rightarrow> string" where
  "PayloadDirForJob l jobID = Join [Payloads l, jobID]"

definition CompletedPathForJob :: "layout \<Rightarrow> string \<Rightarrow> string \<Rightarrow> string \<Rightarrow> string" where
  "CompletedPathForJob l category displayName jobID =
     (let category = sanitize (TrimSpace category);
          category = (if category = [] then ''uncategorized'' else category);
          name = sanitize (TrimSpace displayName);
          name = (if name = [] then jobID else name);
          suffix = ''-'' @ jobID
      in Join [Completed l, category, truncateName name (maxFilenameBytes - int (length suffix)) @ suffix])"

section \<open>Operations\<close>

definition wrap_errno :: "string \<Rightarrow> string \<Rightarrow> string \<Rightarrow> errno \<Rightarrow> go_error" where
  "wrap_errno what op path e = ErrWrap what (path_error op path e)"

text \<open>
  \<open>sameFilesystem\<close> compares the device numbers of two directories; \<open>dev\<close> says on which device
  the operating system has a path.
\<close>

definition sameFilesystem :: "(string list \<Rightarrow> int) \<Rightarrow> fs \<Rightarrow> string \<Rightarrow> string \<Rightarrow> go_error + bool" where
  "sameFilesystem dev fs a b =
     (case Stat fs a of
        Inl e \<Rightarrow> Inl (wrap_errno (''stat '' @ a) ''stat'' a e)
      | Inr _ \<Rightarrow>
          (case Stat fs b of
             Inl e \<Rightarrow> Inl (wrap_errno (''stat '' @ b) ''stat'' b e)
           | Inr _ \<Rightarrow> Inr (dev (at fs a) = dev (at fs b))))"

fun ensure_dirs :: "fs \<Rightarrow> string list \<Rightarrow> err \<times> fs" where
  "ensure_dirs fs [] = (nil, fs)"
| "ensure_dirs fs (dir # dirs) =
     (case MkdirAll fs dir of
        (Some e, fs') \<Rightarrow> (Some (wrap_errno (''ensure directory '' @ dir) ''mkdir'' dir e), fs')
      | (None, fs') \<Rightarrow> ensure_dirs fs' dirs)"

definition Ensure :: "(string list \<Rightarrow> int) \<Rightarrow> layout \<Rightarrow> fs \<Rightarrow> err \<times> fs" where
  "Ensure dev l fs =
     (case ensure_dirs fs [Root l, Staging l, Completed l, Payloads l] of
        (Some e, fs') \<Rightarrow> (Some e, fs')
      | (None, fs') \<Rightarrow>
          (case sameFilesystem dev fs' (Staging l) (Completed l) of
             Inl e \<Rightarrow> (Some e, fs')
           | Inr same \<Rightarrow>
               if \<not> same
               then (Some (ErrText (''staging ('' @ Staging l @ '') and completed ('' @ Completed l @
                       '') must share the same filesystem'')), fs')
               else (nil, fs')))"

text \<open>
  \<open>SavePayload\<close>: the reader is its bytes and the error it ends with, if any; \<open>sha256\<close> gives the
  hexadecimal digest of what was written.
\<close>

definition SavePayload ::
  "(string \<Rightarrow> string) \<Rightarrow> layout \<Rightarrow> fs \<Rightarrow> string \<Rightarrow> string \<Rightarrow> string \<times> err \<Rightarrow> (go_error + string \<times> string) \<times> fs" where
  "SavePayload sha256 l fs jobID name reader =
     (let path = PayloadPathForJob l jobID name in
      case MkdirAll fs (Dir path) of
        (Some e, fs1) \<Rightarrow> (Inl (wrap_errno ''ensure payload parent'' ''mkdir'' (Dir path) e), fs1)
      | (None, fs1) \<Rightarrow>
          (case CreateTrunc fs1 path of
             (Some e, fs2) \<Rightarrow> (Inl (wrap_errno ''create payload file'' ''open'' path e), fs2)
           | (None, fs2) \<Rightarrow>
               (case WriteFile fs2 path (fst reader) of
                  (Some e, fs3) \<Rightarrow> (Inl (wrap_errno ''write payload file'' ''write'' path e), fs3)
                | (None, fs3) \<Rightarrow>
                    (case snd reader of
                       Some e \<Rightarrow> (Inl (ErrWrap ''write payload file'' e), fs3)
                     | None \<Rightarrow> (Inr (path, sha256 (fst reader)), fs3)))))"

definition Promote :: "fs \<Rightarrow> string \<Rightarrow> string \<Rightarrow> err \<times> fs" where
  "Promote fs stagingPath completedPath =
     (if stagingPath = [] \<or> completedPath = []
      then (Some (ErrText ''both stagingPath and completedPath are required''), fs)
      else case MkdirAll fs (Dir completedPath) of
        (Some e, fs1) \<Rightarrow> (Some (wrap_errno ''ensure completed parent'' ''mkdir'' (Dir completedPath) e), fs1)
      | (None, fs1) \<Rightarrow>
          (case Rename_file fs1 stagingPath completedPath of
             (Some e, fs2) \<Rightarrow>
               (Some (ErrWrap ''rename staging to completed''
                  (path_error ''rename'' (stagingPath @ '' '' @ completedPath) e)), fs2)
           | (None, fs2) \<Rightarrow> (nil, fs2)))"

definition RemovePath :: "fs \<Rightarrow> string \<Rightarrow> err \<times> fs" where
  "RemovePath fs path =
     (if path = [] then (nil, fs)
      else case RemoveAll fs path of
        (Some e, fs') \<Rightarrow> (Some (wrap_errno (''remove path '' @ path) ''unlinkat'' path e), fs')
      | (None, fs') \<Rightarrow> (nil, fs'))"

text \<open>The loop over the entries of the staging directory: the paths it removed come first.\<close>

fun remove_orphans ::
  "layout \<Rightarrow> string list \<Rightarrow> fs \<Rightarrow> (string \<times> bool) list \<Rightarrow> string list \<Rightarrow> (string list \<times> err) \<times> fs" where
  "remove_orphans l valid fs [] removed = ((removed, nil), fs)"
| "remove_orphans l valid fs ((name, dir) # entries) removed =
     (if \<not> dir then remove_orphans l valid fs entries removed
      else if name \<in> set valid then remove_orphans l valid fs entries removed
      else
        let orphanPath = Join [Staging l, name] in
        case RemoveAll fs orphanPath of
          (Some e, fs') \<Rightarrow>
            ((removed, Some (wrap_errno (''remove orphan staging dir '' @ orphanPath) ''unlinkat'' orphanPath e)), fs')
        | (None, fs') \<Rightarrow> remove_orphans l valid fs' entries (removed @ [orphanPath]))"

definition RemoveOrphanStagingDirs :: "layout \<Rightarrow> fs \<Rightarrow> string list \<Rightarrow> (string list \<times> err) \<times> fs" where
  "RemoveOrphanStagingDirs l fs validJobIDs =
     (case ReadDir fs (Staging l) of
        Inl e \<Rightarrow> (([], Some (wrap_errno ''read staging root'' ''open'' (Staging l) e)), fs)
      | Inr entries \<Rightarrow> remove_orphans l validJobIDs fs entries [])"

end
