(* ===== verification/Layout_Facts.thy ===== *)
theory Layout_Facts
  imports Layout
begin

text \<open>
  What the layout promises: sanitized names are single path components, the places of a job lie
  below the configured directories, and the operations change nothing outside the paths they are
  given.
\<close>

section \<open>Names\<close>

lemma set_TrimCut: "set (TrimCut cs s) \<subseteq> set s"
  by (auto simp: TrimCut_def dest!: set_dropWhileD)

lemma TrimCut_last: "TrimCut cs s \<noteq> [] \<Longrightarrow> last (TrimCut cs s) \<notin> set cs"
  unfolding TrimCut_def using hd_dropWhile [of "\<lambda>c. c \<in> set cs"] by (auto simp: last_rev)

lemma sanitize_cases:
  obtains "sanitize v = ''unnamed''"
  | "sanitize v = TrimCut ''. '' (map (\<lambda>c. if c \<in> set bad_chars then CHR ''_'' else c) (TrimSpace v))" "sanitize v \<noteq> []"
  by (cases "TrimCut ''. '' (map (\<lambda>c. if c \<in> set bad_chars then CHR ''_'' else c) (TrimSpace v)) = []")
     (simp_all add: sanitize_def Let_def)

lemma replaced_chars: "c \<in> set (map (\<lambda>c. if c \<in> set bad_chars then CHR ''_'' else c) s) \<Longrightarrow> c \<notin> set bad_chars"
  by (auto simp: bad_chars_def)

lemma sanitize_chars: "c \<in> set (sanitize v) \<Longrightarrow> c \<notin> set bad_chars"
proof (cases rule: sanitize_cases [of v])
  case 2
  assume "c \<in> set (sanitize v)"
  then show ?thesis unfolding 2(1) using set_TrimCut replaced_chars by blast
qed (auto simp: bad_chars_def)

lemma sanitize_not_Nil [simp]: "sanitize v \<noteq> []"
  by (simp add: sanitize_def Let_def)

lemma sanitize_last: "last (sanitize v) \<notin> set ''. ''"
proof (cases rule: sanitize_cases [of v])
  case 2
  then show ?thesis using TrimCut_last by metis
qed simp

lemma sanitize_comp: "name_comp (sanitize v)"
proof -
  have "sanitize v \<noteq> ''.''" "sanitize v \<noteq> ''..''" using sanitize_last [of v] by auto
  moreover have "slash \<notin> set (sanitize v)" using sanitize_chars by (auto simp: bad_chars_def)
  ultimately show ?thesis by (simp add: name_comp_def plain_comp_def)
qed

lemma valid_prefix_prefix: "prefix (valid_prefix s) s"
proof (induction s rule: valid_prefix.induct)
  case (1 s)
  then show ?case by (metis prefix_order.order_refl prefix_order.trans prefixeq_butlast valid_prefix.simps)
qed

lemma valid_prefix_valid: "ValidString (valid_prefix s)"
proof (induction s rule: valid_prefix.induct)
  case (1 s)
  then show ?case by (cases "ValidString s") (simp_all add: valid_prefix.simps [of s])
qed

lemma valid_prefix_longest: "prefix p s \<Longrightarrow> ValidString p \<Longrightarrow> prefix p (valid_prefix s)"
proof (induction s rule: valid_prefix.induct)
  case (1 s)
  show ?case
  proof (cases "ValidString s")
    case True
    with 1(2) show ?thesis by (simp add: valid_prefix.simps [of s])
  next
    case False
    with 1(2,3) have "prefix p (butlast s)"
      by (metis append_butlast_last_id prefix_order.order_refl prefix_snoc butlast.simps(1))
    with False 1 show ?thesis by (simp add: valid_prefix.simps [of s])
  qed
qed

lemma truncateName_prefix: "prefix (truncateName s n) s"
  using valid_prefix_prefix [of "take (nat n) s"] take_is_prefix [of "nat n" s]
  by (auto simp: truncateName_def intro: prefix_order.trans)

lemma truncateName_length: "int (length (truncateName s n)) \<le> max 0 n"
  using prefix_length_le [OF valid_prefix_prefix [of "take (nat n) s"]] by (auto simp: truncateName_def)

section \<open>Places\<close>

text \<open>A job identifier is usable as a file name: it is hexadecimal.\<close>

lemma Join_name:
  assumes "IsAbs a" and "name_comp c"
  shows "IsAbs (Join [a, c])" and "clean_comps (Join [a, c]) = clean_comps a @ [c]"
  using assms by (simp_all add: name_comp_def Join_component Join_abs(1))

lemma Join_names:
  assumes "IsAbs a" and "name_comp b" and "name_comp c"
  shows "IsAbs (Join [a, b, c])" and "clean_comps (Join [a, b, c]) = clean_comps a @ [b, c]"
proof -
  show "IsAbs (Join [a, b, c])" using assms(1) by (rule Join3)
  show "clean_comps (Join [a, b, c]) = clean_comps a @ [b, c]"
    using assms clean_loop_plain [of "[b, c]" True "rev (clean_comps a)" "[]"]
    by (simp add: Join3 split_on_no_sep name_comp_def del: clean_loop.simps) simp
qed

lemma dash_plain: "CHR ''-'' \<in> set c \<Longrightarrow> plain_comp c"
  by (auto simp: plain_comp_def)

lemma completed_name_comp:
  assumes "slash \<notin> set jobID"
  shows "name_comp (truncateName (sanitize v) n @ ''-'' @ jobID)"
proof -
  have "slash \<notin> set (truncateName (sanitize v) n)"
    using set_mono_prefix [OF truncateName_prefix] sanitize_comp by (auto simp: name_comp_def)
  moreover have "CHR ''-'' \<in> set (truncateName (sanitize v) n @ ''-'' @ jobID)" by simp
  then have "plain_comp (truncateName (sanitize v) n @ ''-'' @ jobID)"
    by (rule dash_plain)
  ultimately show ?thesis using assms by (simp add: name_comp_def)
qed

lemma CompletedPathForJob_comps:
  assumes "IsAbs (Completed l)" and "slash \<notin> set jobID"
  shows "IsAbs (CompletedPathForJob l c d jobID)"
    and "clean_comps (CompletedPathForJob l c d jobID) = clean_comps (Completed l) @
      [sanitize (TrimSpace c), truncateName (sanitize (TrimSpace d)) (maxFilenameBytes - (1 + int (length jobID))) @ ''-'' @ jobID]"
  using Join_names [OF assms(1) sanitize_comp [of "TrimSpace c"] completed_name_comp [OF assms(2)]]
  by (simp_all add: CompletedPathForJob_def Let_def)

lemma Join_clean: "IsAbs a \<Longrightarrow> \<exists>q. IsAbs q \<and> Join (a # es) = Clean q"
proof -
  assume a: "IsAbs a"
  then have "a \<noteq> []" by auto
  moreover have "IsAbs (join_path (a # es))" using a by (cases es) (simp_all add: IsAbs_append)
  ultimately show ?thesis by (auto simp: Join_def)
qed

text \<open>The parent of a joined path holds the path.\<close>

lemma Dir_Join:
  assumes "IsAbs a"
  shows "IsAbs (Dir (Join (a # es)))" and "clean_comps (Dir (Join (a # es))) = butlast (clean_comps (Join (a # es)))"
proof -
  obtain q where q: "IsAbs q" "Join (a # es) = Clean q" using Join_clean [OF assms] by blast
  from Dir_Clean [OF q(1)] q show "IsAbs (Dir (Join (a # es)))"
    and "clean_comps (Dir (Join (a # es))) = butlast (clean_comps (Join (a # es)))"
    by (simp_all add: clean_comps_Clean)
qed

lemma IsAbs_Join: "IsAbs a \<Longrightarrow> IsAbs (Join (a # es))"
  using Join_clean [of a es] by auto

lemma at_abs [path_simps]: "IsAbs p \<Longrightarrow> at fs p = clean_comps p"
  by (simp add: at_def resolve_abs)

lemma at_Dir_Join: "IsAbs a \<Longrightarrow> at fs (Dir (Join (a # es))) = butlast (at fs (Join (a # es)))"
  by (simp add: at_abs Dir_Join IsAbs_Join)

lemma at_Dir_Completed:
  assumes "IsAbs (Completed l)"
  shows "at fs (Dir (CompletedPathForJob l c d jobID)) = butlast (at fs (CompletedPathForJob l c d jobID))"
  unfolding CompletedPathForJob_def Let_def by (rule at_Dir_Join [OF assms])

section \<open>Operations keep what their file operations keep\<close>

lemma layout_cwd [simp]:
  "fsCwd (snd (RemovePath fs p)) = fsCwd fs" "fsCwd (snd (Promote fs p q)) = fsCwd fs"
  "fsCwd (snd (SavePayload h l fs i n r)) = fsCwd fs"
proof -
  show "fsCwd (snd (RemovePath fs p)) = fsCwd fs"
    unfolding RemovePath_def by (auto split: prod.split option.split) (metis op_cwd(3) snd_conv)+
  show "fsCwd (snd (Promote fs p q)) = fsCwd fs"
    unfolding Promote_def by (auto split: prod.split option.split) (metis op_cwd(1,2) snd_conv)+
  show "fsCwd (snd (SavePayload h l fs i n r)) = fsCwd fs"
    unfolding SavePayload_def Let_def by (auto split: prod.split option.split) (metis op_cwd(1,4,5) snd_conv)+
qed

context fs_contract begin

lemma mkdir_keepsI: "I fs \<Longrightarrow> P fs p \<Longrightarrow> MkdirAll fs p = (e, fs') \<Longrightarrow> I fs' \<and> fsCwd fs' = fsCwd fs"
  using mkdir_keeps [of fs p] op_cwd(1) [of fs p] by simp

lemma parent_keepsI:
  "I fs \<Longrightarrow> P fs p \<Longrightarrow> prefix (at fs (Dir p)) (at fs p) \<Longrightarrow> MkdirAll fs (Dir p) = (e, fs') \<Longrightarrow>
   I fs' \<and> fsCwd fs' = fsCwd fs"
  using parent_keeps [of fs p] op_cwd(1) [of fs "Dir p"] by simp

lemma rename_keepsI: "I fs \<Longrightarrow> P fs p \<Longrightarrow> P fs q \<Longrightarrow> Rename_file fs p q = (e, fs') \<Longrightarrow> I fs' \<and> fsCwd fs' = fsCwd fs"
  using rename_keeps [of fs p q] op_cwd(2) [of fs p q] by simp

lemma remove_keepsI: "I fs \<Longrightarrow> P fs p \<Longrightarrow> RemoveAll fs p = (e, fs') \<Longrightarrow> I fs' \<and> fsCwd fs' = fsCwd fs"
  using remove_keeps [of fs p] op_cwd(3) [of fs p] by simp

lemma create_keepsI: "I fs \<Longrightarrow> P fs p \<Longrightarrow> CreateTrunc fs p = (e, fs') \<Longrightarrow> I fs' \<and> fsCwd fs' = fsCwd fs"
  using create_keeps [of fs p] op_cwd(4) [of fs p] by simp

lemma write_keepsI: "I fs \<Longrightarrow> P fs p \<Longrightarrow> WriteFile fs p d = (e, fs') \<Longrightarrow> I fs' \<and> fsCwd fs' = fsCwd fs"
  using write_keeps [of fs p d] op_cwd(5) [of fs p d] by simp

lemmas keepsI = mkdir_keepsI parent_keepsI rename_keepsI remove_keepsI create_keepsI write_keepsI

lemma RemovePath_keeps: "I fs \<Longrightarrow> P fs p \<Longrightarrow> I (snd (RemovePath fs p))"
  using remove_keeps [of fs p] by (auto simp: RemovePath_def split: prod.splits option.splits)

lemma Promote_keeps:
  assumes "I fs" and "P fs p" and "P fs q" and "prefix (at fs (Dir q)) (at fs q)"
  shows "I (snd (Promote fs p q))"
proof -
  obtain e fs1 where m: "MkdirAll fs (Dir q) = (e, fs1)" by fastforce
  obtain e' fs2 where r: "Rename_file fs1 p q = (e', fs2)" by fastforce
  have 1: "I fs1 \<and> fsCwd fs1 = fsCwd fs" by (rule parent_keepsI [OF assms(1,3,4) m])
  then have "I fs2" using rename_keepsI [OF _ _ _ r] path_cong [OF assms(2)] path_cong [OF assms(3)] by blast
  with 1 assms(1) show ?thesis by (simp add: Promote_def m r split: option.split)
qed

lemma SavePayload_keeps:
  assumes "I fs" and "P fs (PayloadPathForJob l i n)" and "IsAbs (Payloads l)"
  shows "I (snd (SavePayload h l fs i n r))"
proof -
  let ?p = "PayloadPathForJob l i n"
  have d: "prefix (at fs (Dir ?p)) (at fs ?p)"
    by (simp add: PayloadPathForJob_def at_Dir_Join assms(3) prefixeq_butlast)
  obtain e fs1 where m: "MkdirAll fs (Dir ?p) = (e, fs1)" by fastforce
  obtain e' fs2 where c: "CreateTrunc fs1 ?p = (e', fs2)" by fastforce
  obtain e'' fs3 where w: "WriteFile fs2 ?p (fst r) = (e'', fs3)" by fastforce
  have 1: "I fs1 \<and> fsCwd fs1 = fsCwd fs" by (rule parent_keepsI [OF assms(1,2) d m])
  then have 2: "I fs2 \<and> fsCwd fs2 = fsCwd fs1" using create_keepsI [OF _ _ c] path_cong [OF assms(2)] by blast
  then have 3: "I fs3" using write_keepsI [OF _ _ w] path_cong [OF assms(2)] 1 by metis
  from 1 2 3 show ?thesis by (simp add: SavePayload_def Let_def m c w split: option.split)
qed

lemma remove_orphans_keeps:
  "I fs \<Longrightarrow> (\<forall>e\<in>set es. P fs (Join [Staging l, fst e])) \<Longrightarrow> I (snd (remove_orphans l valid fs es removed))"
proof (induction l valid fs es removed rule: remove_orphans.induct)
  case (2 l valid fs name dir es removed)
  obtain e fs' where r: "RemoveAll fs (Join [Staging l, name]) = (e, fs')" by fastforce
  have k: "I fs' \<and> fsCwd fs' = fsCwd fs" using 2(4,5) by (intro remove_keepsI [OF _ _ r]) auto
  have "\<forall>e\<in>set es. P fs' (Join [Staging l, fst e])" using 2(5) path_cong k by auto
  with 2 r k show ?case by (cases e) (simp_all add: Let_def)
qed simp

end

section \<open>What a promotion and a sweep do\<close>

lemma mkdirs_ok:
  "fsFaults fs = [] \<Longrightarrow> (\<forall>k. prefix k (seen @ cs) \<longrightarrow> node_at fs k = None \<or> is_dir fs k) \<Longrightarrow> fst (mkdirs fs seen cs) = None"
proof (induction fs seen cs rule: mkdirs.induct)
  case (2 fs seen c cs)
  have c: "node_at fs (seen @ [c]) = None \<or> is_dir fs (seen @ [c])" using 2(4) by auto
  have p: "\<forall>k. prefix k ((seen @ [c]) @ cs) \<longrightarrow> node_at fs' k = None \<or> is_dir fs' k"
    if "fs' = fs \<or> fs' = put_node (seen @ [c]) DirNode fs" for fs'
  proof (intro allI impI)
    fix k assume "prefix k ((seen @ [c]) @ cs)"
    then have "node_at fs k = None \<or> is_dir fs k" using 2(4) by simp
    with that show "node_at fs' k = None \<or> is_dir fs' k" by (cases "k = seen @ [c]") (auto simp: fs_simps is_dir_def)
  qed
  from c show ?case
  proof
    assume "node_at fs (seen @ [c]) = None"
    with 2(1) 2(3) p show ?thesis by (simp add: Let_def)
  next
    assume "is_dir fs (seen @ [c])"
    with 2(2) 2(3) p show ?thesis by (simp add: Let_def is_dir_def)
  qed
qed simp

lemma MkdirAll_ok:
  assumes "fsFaults fs = []" and "p \<noteq> []" and "\<forall>k. prefix k (at fs p) \<longrightarrow> node_at fs k = None \<or> is_dir fs k"
  shows "fst (MkdirAll fs p) = None" and "is_dir (snd (MkdirAll fs p)) (at fs p)"
proof -
  show ok: "fst (MkdirAll fs p) = None" using assms mkdirs_ok [of fs "[]" "at fs p"] by (simp add: MkdirAll_def)
  show "is_dir (snd (MkdirAll fs p)) (at fs p)"
    using ok assms(2) mkdirs_dir [of fs "[]" "at fs p"] by (simp add: MkdirAll_def)
qed

lemma MkdirAll_facts [fs_simps]:
  "fs_wf fs \<Longrightarrow> fs_wf (snd (MkdirAll fs p))"
  "fsFaults (snd (MkdirAll fs p)) = fsFaults fs"
  "\<not> prefix k (at fs p) \<Longrightarrow> node_at (snd (MkdirAll fs p)) k = node_at fs k"
  by (simp_all add: MkdirAll_def mkdirs_wf mkdirs_other at_named)

lemma Rename_moves:
  assumes wf: "fs_wf fs" and "fsFaults fs = []" and "p \<noteq> []" and "q \<noteq> []"
    and "is_dir fs (at fs p)" and "at fs p \<noteq> []" and "\<not> prefix (at fs p) (at fs q)"
    and "node_at fs (at fs q) = None" and "is_dir fs (butlast (at fs q))"
  shows "Rename_file fs p q = (None, move_tree (at fs p) (at fs q) fs)"
proof -
  have q: "Stat fs q \<noteq> Inr n" for n using assms(8) by (auto dest: Stat_node)
  have p: "Stat fs p = Inr DirNode" using assms by (simp add: Stat_iff is_dir_def)
  have w: "walk fs [] (butlast (at fs q)) = None" using assms(9) by (intro walk_ok [OF wf]) (simp add: is_dir_def)
  have ne: "at fs p \<noteq> at fs q" using assms(7) by auto
  obtain e where "Stat fs q = Inl e" using q by (cases "Stat fs q") auto
  with p w ne assms show ?thesis by (simp add: Rename_file_def Let_def)
qed

lemma Promote_moves:
  assumes wf: "fs_wf fs" and nf: "fsFaults fs = []" and "p \<noteq> []" and "q \<noteq> []" and "Dir q \<noteq> []"
    and dir: "is_dir fs (at fs p)" and "at fs p \<noteq> []" and ap: "\<not> prefix (at fs p) (at fs q)"
    and free: "node_at fs (at fs q) = None" and par: "at fs (Dir q) = butlast (at fs q)"
    and way: "\<forall>k. prefix k (butlast (at fs q)) \<longrightarrow> node_at fs k = None \<or> is_dir fs k"
  shows "fst (Promote fs p q) = nil \<and>
    (\<forall>cs. node_at (snd (Promote fs p q)) (at fs q @ cs) = node_at fs (at fs p @ cs) \<and>
          node_at (snd (Promote fs p q)) (at fs p @ cs) = None)"
proof -
  let ?a = "at fs p" and ?b = "at fs q"
  obtain e fs1 where m: "MkdirAll fs (Dir q) = (e, fs1)" by fastforce
  have e: "e = None" and up: "is_dir fs1 (butlast ?b)"
    using MkdirAll_ok [OF nf assms(5)] way m by (simp_all add: par)
  have wf1: "fs_wf fs1" and nf1: "fsFaults fs1 = []" and cwd: "fsCwd fs1 = fsCwd fs"
    using MkdirAll_facts(1) [OF wf, of "Dir q"] MkdirAll_facts(2) [of fs "Dir q"] op_cwd(1) [of fs "Dir q"] m nf by simp_all
  have at1: "at fs1 x = at fs x" for x using cwd by (rule at_cong)
  have b: "?b \<noteq> []" using free by auto
  have same: "node_at fs1 k = node_at fs k" if "prefix ?a k \<or> k = ?b" for k
  proof -
    have "\<not> prefix k (butlast ?b)"
    proof
      assume "prefix k (butlast ?b)"
      then have "prefix k ?b" "length k < length ?b"
        using b by (auto dest: prefix_length_le simp: le_diff_conv intro: prefix_order.trans [OF _ prefixeq_butlast])
          (metis One_nat_def Suc_pred' length_butlast length_greater_0_conv less_Suc_eq_le prefix_length_le)
      with that ap show False using prefix_order.trans by auto
    qed
    then show ?thesis using MkdirAll_facts(3) [of k fs "Dir q"] m par by simp
  qed
  have r: "Rename_file fs1 p q = (None, move_tree ?a ?b fs1)"
    using Rename_moves [OF wf1 nf1 assms(3,4)] dir assms(7) ap free up same by (simp add: at1 is_dir_def)
  have P: "Promote fs p q = (nil, move_tree ?a ?b fs1)" using assms(3,4) m e r by (simp add: Promote_def)
  have nd: "\<not> is_dir fs1 ?b" using same [of ?b] free by (simp add: is_dir_def)
  have nba: "\<not> prefix ?b ?a"
  proof
    assume "prefix ?b ?a"
    then have "node_at fs ?b \<noteq> None"
      using fs_wf_prefix [OF wf, of ?b ?a] dir by (cases "?b = ?a") (auto simp: is_dir_def strict_prefix_def)
    with free show False by simp
  qed
  have "node_at (move_tree ?a ?b fs1) (?b @ cs) = node_at fs (?a @ cs)" for cs
    using node_at_move [OF wf1 assms(7) b ap nd, of "?b @ cs"] same [of "?a @ cs"] by simp
  moreover have "node_at (move_tree ?a ?b fs1) (?a @ cs) = None" for cs
  proof -
    have "\<not> prefix ?b (?a @ cs)"
      using ap nba prefix_same_cases [of ?b "?a @ cs" ?a] by auto
    then show ?thesis using node_at_move [OF wf1 assms(7) b ap nd, of "?a @ cs"] by simp
  qed
  ultimately show ?thesis using P by simp
qed

lemma RemoveAll_removes:
  assumes wf: "fs_wf fs" and "fsFaults fs = []" and "p \<noteq> []" and "last (split_path p) \<noteq> ''.''"
    and "at fs p \<noteq> []" and "node_at fs (at fs p) \<noteq> None"
  shows "RemoveAll fs p = (None, drop_tree (at fs p) fs)"
  using assms walk_ok [OF wf, of "[]" "at fs p"] by (simp add: RemoveAll_def)

lemma last_split_Join:
  assumes "IsAbs a" and "name_comp c"
  shows "last (split_path (Join [a, c])) = c"
proof -
  obtain q where q: "IsAbs q" "Join [a, c] = Clean q" using Join_clean [OF assms(1)] by blast
  have cs: "clean_comps (Join [a, c]) = clean_comps a @ [c]" by (rule Join_name(2) [OF assms])
  have "Join [a, c] = slash # join_path (clean_comps a @ [c])"
    using cs clean_comps_Clean [OF q(1)] Clean_abs [OF q(1)] unfolding q(2) by simp
  moreover have "split_path (join_path (clean_comps a @ [c])) = clean_comps a @ [c]"
    using assms(2) clean_comps_no_slash [of a] by (intro split_on_join) (auto simp: name_comp_def)
  ultimately show ?thesis by (simp add: split_abs)
qed

definition orphan :: "string list \<Rightarrow> string \<times> bool \<Rightarrow> bool" where
  "orphan valid e \<longleftrightarrow> snd e \<and> fst e \<notin> set valid"

lemma remove_orphans_removes:
  assumes "IsAbs (Staging l)" and base: "clean_comps (Staging l) = base"
  shows "fs_wf fs \<Longrightarrow> fsFaults fs = [] \<Longrightarrow> distinct (map fst es) \<Longrightarrow>
    (\<forall>e\<in>set es. name_comp (fst e) \<and> node_at fs (base @ [fst e]) \<noteq> None) \<Longrightarrow>
    fst (remove_orphans l valid fs es removed) =
      (removed @ map (\<lambda>e. Join [Staging l, fst e]) (filter (orphan valid) es), nil) \<and>
    (\<forall>k. node_at (snd (remove_orphans l valid fs es removed)) k =
      (if \<exists>e\<in>set es. orphan valid e \<and> prefix (base @ [fst e]) k then None else node_at fs k))"
proof (induction es arbitrary: fs removed)
  case (Cons e es)
  obtain name dir where e: "e = (name, dir)" by fastforce
  let ?p = "Join [Staging l, name]"
  have n: "name_comp name" "node_at fs (base @ [name]) \<noteq> None" using Cons.prems(4) by (simp_all add: e)
  have at: "at fs ?p = base @ [name]" using Join_name [OF assms(1) n(1)] base by (simp add: at_abs)
  show ?case
  proof (cases "orphan valid e")
    case False
    then have "remove_orphans l valid fs (e # es) removed = remove_orphans l valid fs es removed"
      by (auto simp: orphan_def e)
    moreover note Cons.IH [of fs removed]
    ultimately show ?thesis using False Cons.prems by (auto simp: e)
  next
    case True
    let ?fs = "drop_tree (base @ [name]) fs"
    have "?p \<noteq> []" using IsAbs_Join [OF assms(1), of "[name]"] by auto
    then have "RemoveAll fs ?p = (None, ?fs)"
      using RemoveAll_removes [OF Cons.prems(1,2), of ?p] n at last_split_Join [OF assms(1) n(1)] IsAbs_Join [OF assms(1), of "[name]"]
      by (auto simp: name_comp_def plain_comp_def)
    then have step: "remove_orphans l valid fs (e # es) removed = remove_orphans l valid ?fs es (removed @ [?p])"
      using True by (simp add: orphan_def e Let_def)
    have "fst (remove_orphans l valid ?fs es (removed @ [?p])) =
        ((removed @ [?p]) @ map (\<lambda>e. Join [Staging l, fst e]) (filter (orphan valid) es), nil) \<and>
      (\<forall>k. node_at (snd (remove_orphans l valid ?fs es (removed @ [?p]))) k =
        (if \<exists>e\<in>set es. orphan valid e \<and> prefix (base @ [fst e]) k then None else node_at ?fs k))"
    proof (rule Cons.IH)
      show "fs_wf ?fs" using Cons.prems(1) by (simp add: drop_tree_wf)
      show "fsFaults ?fs = []" "distinct (map fst es)" using Cons.prems(2,3) by simp_all
      show "\<forall>e\<in>set es. name_comp (fst e) \<and> node_at ?fs (base @ [fst e]) \<noteq> None"
      proof
        fix x assume x: "x \<in> set es"
        then have "fst x \<noteq> name" using Cons.prems(3) by (auto simp: e)
        with x Cons.prems(4) show "name_comp (fst x) \<and> node_at ?fs (base @ [fst x]) \<noteq> None"
          by (simp add: fs_simps)
      qed
    qed
    with step True show ?thesis by (auto simp: e fs_simps)
  qed
qed simp

lemma child_names_iff: "c \<in> set (child_names fs cs) \<longleftrightarrow> node_at fs (cs @ [c]) \<noteq> None"
proof
  assume "c \<in> set (child_names fs cs)"
  then obtain k n where k: "(k, n) \<in> set (fsNodes fs)" "k \<noteq> []" "butlast k = cs" "last k = c"
    by (auto simp: child_names_def)
  then have "cs @ [c] = k" using append_butlast_last_id by blast
  with k(1) show "node_at fs (cs @ [c]) \<noteq> None"
    using map_of_eq_None_iff [of "fsNodes fs" k] by (force simp: node_at_def)
next
  assume "node_at fs (cs @ [c]) \<noteq> None"
  then obtain n where "(cs @ [c], n) \<in> set (fsNodes fs)" by (auto simp: node_at_def dest: map_of_SomeD)
  then show "c \<in> set (child_names fs cs)" by (force simp: child_names_def)
qed

lemma distinct_child_names [simp]: "distinct (child_names fs cs)"
  by (simp add: child_names_def)

section \<open>Properties\<close>

text \<open>A layout and a job identifier, for the witnesses.\<close>

definition sample_layout :: layout where
  "sample_layout = NewLayout ''/data'' ''/data/staging'' ''/data/completed'' ''/data/payloads''"

text \<open>
  Whatever category and name a client or TorBox gives, the completed path of a job lies exactly
  two levels below the completed directory, in components that are file names (neither empty, a
  dot, nor two dots, and without a slash), and the last of them fits into 255 bytes and ends in
  the job's identifier.
\<close>

lemma completed_path_place:
  assumes "IsAbs (Completed l)" and "slash \<notin> set jobID" and "length jobID < 255"
  shows "\<exists>dir name. clean_comps (CompletedPathForJob l category displayName jobID) = clean_comps (Completed l) @ [dir, name] \<and>
    name_comp dir \<and> name_comp name \<and> length name \<le> 255 \<and> HasSuffix name (''-'' @ jobID)"
proof -
  let ?n = "truncateName (sanitize (TrimSpace displayName)) (maxFilenameBytes - (1 + int (length jobID)))"
  have "int (length ?n) \<le> max 0 (254 - int (length jobID))"
    using truncateName_length [of "sanitize (TrimSpace displayName)" "maxFilenameBytes - (1 + int (length jobID))"]
    by (simp add: maxFilenameBytes_def)
  then have "length (?n @ ''-'' @ jobID) \<le> 255" using assms(3) by simp
  moreover have "HasSuffix (?n @ ''-'' @ jobID) (''-'' @ jobID)" unfolding HasSuffix_def by (rule suffixI) simp
  ultimately show ?thesis
    using CompletedPathForJob_comps [OF assms(1,2), of category displayName] sanitize_comp [of "TrimSpace category"]
      completed_name_comp [OF assms(2)] by blast
qed

lemma completed_path_place_sample:
  "\<exists>dir name. clean_comps (CompletedPathForJob sample_layout ''../../etc'' ''..'' ''0a1b'') =
     [''data'', ''completed''] @ [dir, name] \<and> name_comp dir \<and> name_comp name"
proof -
  have "IsAbs (Completed sample_layout)" "clean_comps (Completed sample_layout) = [''data'', ''completed'']"
    by (simp_all add: sample_layout_def NewLayout_def clean_comps_def)
  with completed_path_place [of sample_layout "''0a1b''" "''../../etc''" "''..''"] show ?thesis by auto
qed

text \<open>
  C39. Two jobs never share a completed path: with identifiers of one length, equal completed paths
  belong to one job, whatever the categories and names.
\<close>

theorem completed_path_unique:
  assumes "IsAbs (Completed l)" and "slash \<notin> set i" and "slash \<notin> set j" and "length i = length j"
    and "CompletedPathForJob l c d i = CompletedPathForJob l c' d' j"
  shows "i = j"
proof -
  have "clean_comps (CompletedPathForJob l c d i) = clean_comps (CompletedPathForJob l c' d' j)" using assms(5) by simp
  then have "\<exists>x y. x @ ''-'' @ i = y @ ''-'' @ j"
    unfolding CompletedPathForJob_comps(2) [OF assms(1,2)] CompletedPathForJob_comps(2) [OF assms(1,3)] by auto
  with assms(4) show ?thesis by auto
qed

theorem completed_path_unique_witness:
  "CompletedPathForJob sample_layout ''tv'' ''a'' ''0001'' \<noteq> CompletedPathForJob sample_layout ''tv'' ''a'' ''0002''"
  using completed_path_unique [of sample_layout "''0001''" "''0002''" "''tv''" "''a''" "''tv''" "''a''"]
  by (auto simp: sample_layout_def NewLayout_def)

text \<open>
  Truncating a name never splits a character: a name of valid UTF-8 is cut to the longest
  beginning that is valid UTF-8 and fits, and a name that fits is kept.
\<close>

lemma truncateName_longest:
  "prefix (truncateName name n) name \<and> int (length (truncateName name n)) \<le> max 0 n \<and>
   (int (length name) \<le> n \<or> ValidString (truncateName name n)) \<and>
   (\<forall>p. prefix p name \<and> ValidString p \<and> int (length p) \<le> n \<longrightarrow> prefix p (truncateName name n))"
proof -
  have "prefix p (truncateName name n)" if p: "prefix p name" "ValidString p" "int (length p) \<le> n" for p
  proof (cases "int (length name) \<le> n \<or> n \<le> 0")
    case True
    with p show ?thesis by (cases p) (auto simp: truncateName_def)
  next
    case False
    have "prefix p (take (nat n) name)"
      by (rule prefix_length_prefix [OF p(1) take_is_prefix]) (use p(3) False in simp)
    with False p(2) show ?thesis by (simp add: truncateName_def valid_prefix_longest)
  qed
  moreover have "int (length name) \<le> n \<or> ValidString (truncateName name n)"
    using valid_prefix_valid by (auto simp: truncateName_def) (simp add: ValidString_def)
  ultimately show ?thesis using truncateName_prefix truncateName_length by blast
qed

lemma truncateName_longest_sample:
  "truncateName [CHR ''a'', CHR 0xC3, CHR 0xA9] 2 = ''a''"
proof -
  let ?s = "[CHR ''a'', CHR 0xC3, CHR 0xA9]"
  note t = truncateName_longest [of ?s 2]
  have "prefix ''a'' (truncateName ?s 2)" using t by (auto simp: ValidString_def)
  moreover have "length (truncateName ?s 2) \<le> 2" "ValidString (truncateName ?s 2)" "prefix (truncateName ?s 2) ?s"
    using t by auto
  moreover have "\<not> ValidString [CHR ''a'', CHR 0xC3]" by code_simp
  ultimately show ?thesis by (auto simp: prefix_Cons)
qed


text \<open>A tree with one finished download.\<close>

definition sample_tree :: fs where
  "sample_tree = \<lparr>fsCwd = ''/'', fsNodes = [([''data''], DirNode), ([''data'', ''staging''], DirNode),
     ([''data'', ''completed''], DirNode), ([''data'', ''staging'', ''0a1b''], DirNode),
     ([''data'', ''staging'', ''0a1b'', ''f.mkv''], FileNode ''xyz'')], fsFaults = []\<rparr>"

lemma node_at_map_of: "node_at fs k = Some n \<Longrightarrow> k = [] \<or> (k, n) \<in> set (fsNodes fs)"
  by (auto simp: node_at_def dest: map_of_SomeD split: if_splits)

lemma fs_wf_code:
  "IsAbs (fsCwd fs) \<Longrightarrow> list_all (\<lambda>(k, n). k \<noteq> [] \<and> is_dir fs (butlast k) \<and> list_all name_comp k) (fsNodes fs) \<Longrightarrow> fs_wf fs"
  using node_at_map_of by (fastforce simp: fs_wf_def list_all_iff)

lemma sample_tree_wf: "fs_wf sample_tree"
  by (rule fs_wf_code) code_simp+


text \<open>
  The sweep of the staging directory at startup removes the directories of jobs that are not
  open, with all that is in them, and nothing else: files in the staging directory and the
  directories of open jobs keep every node.
\<close>

lemma sweep_removes_orphans:
  assumes "fs_wf fs" and "fsFaults fs = []" and "IsAbs (Staging l)" and "is_dir fs (clean_comps (Staging l))"
    and "RemoveOrphanStagingDirs l fs valid = ((removed, e), fs')"
  shows "e = nil \<and>
    removed = map (\<lambda>n. Join [Staging l, n])
      (filter (\<lambda>n. is_dir fs (clean_comps (Staging l) @ [n]) \<and> n \<notin> set valid) (child_names fs (clean_comps (Staging l)))) \<and>
    (\<forall>k. node_at fs' k =
      (if \<exists>n. is_dir fs (clean_comps (Staging l) @ [n]) \<and> n \<notin> set valid \<and> prefix (clean_comps (Staging l) @ [n]) k
       then None else node_at fs k))"
proof -
  let ?b = "clean_comps (Staging l)" and ?es = "map (\<lambda>c. (c, is_dir fs (clean_comps (Staging l) @ [c]))) (child_names fs (clean_comps (Staging l)))"
  have a: "at fs (Staging l) = ?b" "Staging l \<noteq> []" using assms(3) by (auto simp: at_abs)
  then have "Stat fs (Staging l) = Inr DirNode" using assms by (simp add: Stat_iff is_dir_def)
  then have R: "RemoveOrphanStagingDirs l fs valid = remove_orphans l valid fs ?es []"
    by (simp add: RemoveOrphanStagingDirs_def ReadDir_def a)
  have ok: "\<forall>x\<in>set ?es. name_comp (fst x) \<and> node_at fs (?b @ [fst x]) \<noteq> None"
    using node_named [OF assms(1)] by (auto simp: child_names_iff)
  have "distinct (map fst ?es)" by (simp add: comp_def)
  note r = remove_orphans_removes [OF assms(3) refl assms(1,2) this ok, where valid = valid and removed = "[]"]
  have o: "(\<exists>x\<in>set ?es. orphan valid x \<and> prefix (?b @ [fst x]) k) \<longleftrightarrow>
      (\<exists>n. is_dir fs (?b @ [n]) \<and> n \<notin> set valid \<and> prefix (?b @ [n]) k)" for k
    by (auto simp: orphan_def child_names_iff is_dir_def)
  have "removed = map (\<lambda>e. Join [Staging l, fst e]) (filter (orphan valid) ?es)" and "e = nil"
    and "\<forall>k. node_at fs' k = (if \<exists>x\<in>set ?es. orphan valid x \<and> prefix (?b @ [fst x]) k then None else node_at fs k)"
    using r assms(5) R by simp_all
  then show ?thesis unfolding o by (simp add: filter_map comp_def orphan_def)
qed

lemma sweep_removes_orphans_sample:
  "\<exists>removed e fs'. RemoveOrphanStagingDirs sample_layout sample_tree [''other''] = ((removed, e), fs') \<and>
     e = nil \<and> removed = [''/data/staging/0a1b''] \<and> node_at fs' [''data'', ''staging'', ''0a1b'', ''f.mkv''] = None"
proof -
  let ?b = "clean_comps (Staging sample_layout)"
  obtain removed e fs' where r: "RemoveOrphanStagingDirs sample_layout sample_tree [''other''] = ((removed, e), fs')"
    by (metis prod.exhaust)
  have b: "?b = [''data'', ''staging'']" by code_simp
  have "IsAbs (Staging sample_layout)" "is_dir sample_tree ?b" "fsFaults sample_tree = []" by code_simp+
  note s = sweep_removes_orphans [OF sample_tree_wf this(3,1,2) r]
  have "map (\<lambda>n. Join [Staging sample_layout, n])
      (filter (\<lambda>n. is_dir sample_tree (?b @ [n]) \<and> n \<notin> set [''other'']) (child_names sample_tree ?b)) = [''/data/staging/0a1b'']"
    by code_simp
  moreover have "is_dir sample_tree (?b @ [''0a1b''])" by code_simp
  ultimately show ?thesis using s r b by auto
qed

end
