(* ===== verification/Torbox_Client.thy ===== *)
theory Torbox_Client
  imports Job_Model
begin

text \<open>
  The client interface of \<open>internal/torbox/client.go\<close>: requests and answers of the TorBox service,
  errors that may be retried, and the client as the record of its methods. A method is a function
  of its arguments; what a handler sees of the service during one run is one such record, and
  \<open>GetDownloadLinks\<close>, which a handler may call more than once, also takes the number of its
  earlier calls.
\<close>

text \<open>A decimal number: its digits and how many of them are decimal places.\<close>

type_synonym decimal = "int \<times> nat"

record create_torrent_request =
  ctMagnet :: string
  ctPayloadPath :: string
  ctName :: string
  ctSeed :: int
  ctAllowZip :: bool
  ctAsQueued :: bool
  ctAddOnlyIfCached :: bool

record create_usenet_request =
  cuLink :: string
  cuPayloadPath :: string
  cuName :: string
  cuPassword :: string
  cuPostProcessing :: "int option"
  cuAsQueued :: bool
  cuAddOnlyIfCached :: bool

record create_task_response =
  crRemoteID :: string
  crQueuedID :: string
  crQueueAuthID :: string
  crRemoteHash :: string
  crDisplayName :: string

record remote_file =
  rfFileID :: string
  rfName :: string
  rfShortName :: string
  rfRelativePath :: string
  rfSize :: int

record task_status =
  tsRemoteID :: string
  tsQueuedID :: string
  tsQueueAuthID :: string
  tsHash :: string
  tsName :: string
  tsState :: string
  tsLabel :: string
  tsProgress :: decimal
  tsBytesTotal :: int
  tsBytesDone :: int
  tsDownloadPresent :: bool
  tsDownloadFinished :: bool
  tsDownloadReady :: bool
  tsFailed :: bool
  tsInactive :: bool
  tsError :: string
  tsFiles :: "remote_file list"

record download_asset =
  daFileID :: string
  daURL :: string
  daRelativePath :: string
  daSize :: int

text \<open>A Go pair \<open>(*T, error)\<close>: the pointer may be nil without an error.\<close>

type_synonym 'a answer = "go_error + 'a option"

record torbox_client =
  CreateTorrentTask :: "create_torrent_request \<Rightarrow> create_task_response answer"
  CreateUsenetTask :: "create_usenet_request \<Rightarrow> create_task_response answer"
  GetQueuedStatus :: "string \<Rightarrow> string \<Rightarrow> task_status answer"
  GetTaskStatus :: "string \<Rightarrow> string \<Rightarrow> task_status answer"
  FindActiveTask :: "string \<Rightarrow> string \<Rightarrow> string \<Rightarrow> string \<Rightarrow> task_status answer"
  GetDownloadLinks :: "nat \<Rightarrow> string \<Rightarrow> string \<Rightarrow> go_error + download_asset list"

text \<open>\<open>errors.As(err, *RetryableError)\<close>: a retryable error anywhere in the chain.\<close>

fun retryable_in :: "go_error \<Rightarrow> bool" where
  "retryable_in (RetryableError e) = True"
| "retryable_in (ErrWrap p e) = retryable_in e"
| "retryable_in _ = False"

definition IsRetryable :: "err \<Rightarrow> bool" where
  "IsRetryable err = (case err of None \<Rightarrow> False | Some e \<Rightarrow> retryable_in e)"

definition MarkRetryable :: "err \<Rightarrow> err" where
  "MarkRetryable err =
     (case err of None \<Rightarrow> None | Some e \<Rightarrow> if retryable_in e then Some e else Some (RetryableError e))"

definition RequireRemoteID :: "string \<Rightarrow> err" where
  "RequireRemoteID remoteID = (if remoteID = [] then Some (ErrText ''remote id is required'') else nil)"

lemma IsRetryable_Mark [simp]: "IsRetryable (MarkRetryable err) \<longleftrightarrow> err \<noteq> nil"
  by (simp add: IsRetryable_def MarkRetryable_def split: option.split)

lemma MarkRetryable_idem: "MarkRetryable (MarkRetryable err) = MarkRetryable err"
  by (simp add: MarkRetryable_def split: option.split)

end
