(* ===== verification/Worker_Base.thy ===== *)
theory Worker_Base
  imports Store_Claims Store_Audit Layout_Facts Torbox_Client
begin

text \<open>
  What the workers share (\<open>internal/worker/helpers.go\<close> and the \<open>Orchestrator\<close> they are methods
  of): the configuration they read, jitter, byte counts, the guards on paths that come from the
  service or the database, and the rule for names from the service. A handler reads the clock
  once; the random number of the jitter is a parameter. \<open>html.UnescapeString\<close> and the quoting of
  the verb \<open>%q\<close> are fields of the orchestrator.
\<close>

record worker_config =
  SubmitInterval :: int
  PollInterval :: int
  DownloadInterval :: int
  FinalizeInterval :: int
  RemoveInterval :: int
  PruneInterval :: int
  SubmitRetryMin :: int
  SubmitRetryMax :: int
  RemovedRetention :: int
  BatchSize :: int

record orchestrator =
  oWorkers :: worker_config
  oLayout :: layout
  oUnescape :: "string \<Rightarrow> string"
  oQuote :: "string \<Rightarrow> string"

section \<open>The loop of a worker\<close>

text \<open>The jobs of a batch, one after the other, over the state \<open>'s\<close> the worker writes to.\<close>

fun for_each :: "('s \<Rightarrow> job \<Rightarrow> 's) \<Rightarrow> 's \<Rightarrow> job list \<Rightarrow> 's" where
  "for_each f s [] = s"
| "for_each f s (job # jobs) = for_each f (f s job) jobs"

context write_contract begin

lemma for_each_keeps:
  assumes "\<And>s j. I (store_of s) \<Longrightarrow> P (store_of s) j \<Longrightarrow> jState j \<in> states \<Longrightarrow> I (store_of (f s j))"
    and "\<And>s j k. jID j \<noteq> k \<Longrightarrow> jState j \<in> states \<Longrightarrow> GetJobByID (store_of (f s j)) k = GetJobByID (store_of s) k"
  shows "I (store_of s) \<Longrightarrow> \<forall>j\<in>set jobs. P (store_of s) j \<and> jState j \<in> states \<Longrightarrow> distinct (map jID jobs) \<Longrightarrow>
    I (store_of (for_each f s jobs))"
proof (induction jobs arbitrary: s)
  case (Cons j jobs)
  have "\<forall>k\<in>set jobs. P (store_of (f s j)) k"
  proof
    fix k assume k: "k \<in> set jobs"
    then have "jID j \<noteq> jID k" using Cons.prems(3) by auto
    then show "P (store_of (f s j)) k" using may_write_row [OF _ assms(2)] Cons.prems(2) k by simp
  qed
  with Cons assms(1) show ?case by simp
qed simp

end

text \<open>A batch of claimed jobs: distinct, and in the states their rows are in.\<close>

lemma ClaimJobsDue_batch:
  assumes "audited st" and "ClaimJobsDue st w states now n = (jobs, st')"
  shows "audited st'" and "distinct (map jID jobs)" and "\<forall>j\<in>set jobs. synced st' j"
    and "\<forall>j\<in>set jobs. jState j \<in> set states"
proof -
  have wf: "store_wf st" using assms(1) by (simp add: audited_def)
  have r: "jobs = fst (ClaimJobsDue st w states now n)" "st' = snd (ClaimJobsDue st w states now n)"
    using assms(2) by simp_all
  show "audited st'" unfolding r by (rule ClaimJobsDue_audited [OF assms(1)])
  show "distinct (map jID jobs)" unfolding r by (rule ClaimJobsDue_distinct [OF wf])
  show "\<forall>j\<in>set jobs. synced st' j"
    using ClaimJobsDue_marks [OF wf] unfolding r by (simp add: synced_def)
  show "\<forall>j\<in>set jobs. jState j \<in> set states"
  proof
    fix j assume "j \<in> set jobs"
    then obtain q where "claimable states now q" "j = q\<lparr>jClaimedBy := Some w, jClaimedAt := Some now\<rparr>"
      using ClaimJobsDue_row [OF wf] unfolding r by metis
    then show "jState j \<in> set states" by (simp add: claimable_def)
  qed
qed

text \<open>
  A round of a worker: what one step does to the row of its job, in a batch of distinct jobs whose
  rows the steps of the others leave alone, the round does to it.
\<close>

lemma for_each_frame:
  "(\<And>s j k. jID j \<noteq> k \<Longrightarrow> jState j \<in> states \<Longrightarrow> GetJobByID (store_of (f s j)) k = GetJobByID (store_of s) k) \<Longrightarrow>
   \<forall>j\<in>set jobs. jState j \<in> states \<Longrightarrow> k \<notin> jID ` set jobs \<Longrightarrow> GetJobByID (store_of (for_each f s jobs)) k = GetJobByID (store_of s) k"
  by (induction jobs arbitrary: s) auto

lemma for_each_state:
  assumes frame: "\<And>s j k. jID j \<noteq> k \<Longrightarrow> jState j \<in> states \<Longrightarrow> GetJobByID (store_of (f s j)) k = GetJobByID (store_of s) k"
    and step: "\<And>s j. synced (store_of s) j \<Longrightarrow> jState j \<in> states \<Longrightarrow>
      state_in (store_of (f s j)) (jID j) (insert (jState j) targets)"
  shows "distinct (map jID jobs) \<Longrightarrow> \<forall>j\<in>set jobs. synced (store_of s) j \<and> jState j \<in> states \<Longrightarrow> j \<in> set jobs \<Longrightarrow>
    state_in (store_of (for_each f s jobs)) (jID j) (insert (jState j) targets)"
proof (induction jobs arbitrary: s)
  case (Cons i jobs)
  show ?case
  proof (cases "j = i")
    case True
    have "state_in (store_of (f s i)) (jID i) (insert (jState i) targets)" using Cons.prems(2) by (intro step) simp_all
    moreover have "GetJobByID (store_of (for_each f (f s i) jobs)) (jID i) = GetJobByID (store_of (f s i)) (jID i)"
      using Cons.prems(1,2) by (intro for_each_frame [of states store_of f, OF frame]) simp_all
    ultimately show ?thesis using True by (simp add: state_in_def)
  next
    case False
    have "\<forall>j\<in>set jobs. synced (store_of (f s i)) j \<and> jState j \<in> states"
    proof
      fix x assume x: "x \<in> set jobs"
      then have "jID i \<noteq> jID x" using Cons.prems(1) by auto
      with frame [of i "jID x" s] Cons.prems(2) x show "synced (store_of (f s i)) x \<and> jState x \<in> states"
        by (simp add: synced_def)
    qed
    with Cons False show ?thesis by simp
  qed
qed simp

lemma ClaimJobsDue_state:
  assumes "GetJobByID st k = Some row"
  shows "\<exists>row'. GetJobByID (snd (ClaimJobsDue st w states now n)) k = Some row' \<and> jState row' = jState row"
  using assms by (simp add: ClaimJobsDue_store GetJobByID_map)

text \<open>The moves of a worker: from the states it claims to its targets; other jobs stay as they are.\<close>

definition moves :: "job_state set \<Rightarrow> job_state set \<Rightarrow> store \<Rightarrow> store \<Rightarrow> bool" where
  "moves states targets before after \<longleftrightarrow>
     (\<forall>k row. GetJobByID before k = Some row \<longrightarrow>
        state_in after k (if jState row \<in> states then insert (jState row) targets else {jState row}))"

lemma round_moves:
  assumes "audited st" and c: "ClaimJobsDue st w states now n = (jobs, store_of s)"
    and frame: "\<And>s j k. jID j \<noteq> k \<Longrightarrow> jState j \<in> set states \<Longrightarrow> GetJobByID (store_of (f s j)) k = GetJobByID (store_of s) k"
    and step: "\<And>s j. synced (store_of s) j \<Longrightarrow> jState j \<in> set states \<Longrightarrow>
      state_in (store_of (f s j)) (jID j) (insert (jState j) targets)"
  shows "moves (set states) targets st (store_of (for_each f s jobs))"
  unfolding moves_def
proof (intro allI impI)
  fix k row assume row: "GetJobByID st k = Some row"
  note b = ClaimJobsDue_batch [OF assms(1) c]
  obtain row' where row': "GetJobByID (store_of s) k = Some row'" "jState row' = jState row"
    using ClaimJobsDue_state [OF row, of w states now n] c by auto
  show "state_in (store_of (for_each f s jobs)) k (if jState row \<in> set states then insert (jState row) targets else {jState row})"
  proof (cases "k \<in> jID ` set jobs")
    case True
    then obtain j where j: "j \<in> set jobs" "jID j = k" by auto
    then have "jState j = jState row" "jState j \<in> set states" using b(3,4) row' by (auto simp: synced_def)
    moreover have "state_in (store_of (for_each f s jobs)) (jID j) (insert (jState j) targets)"
      using b(2-4) j(1) by (intro for_each_state [OF frame step]) auto
    ultimately show ?thesis using j(2) by simp
  next
    case False
    then have "GetJobByID (store_of (for_each f s jobs)) k = GetJobByID (store_of s) k"
      using b(4) by (intro for_each_frame [of "set states" store_of f, OF frame])
    with row' show ?thesis by (simp add: state_in_def)
  qed
qed

text \<open>The release of the claim at the end of a step.\<close>

lemma release_frame:
  "GetJobByID st' k = GetJobByID st k \<Longrightarrow> i \<noteq> k \<Longrightarrow> GetJobByID (ReleaseJobClaim st' i) k = GetJobByID st k"
  by (cases "GetJobByID st k") (auto simp: store_simps dest: GetJobByID_SomeD)

lemma release_state_in: "state_in st k S \<Longrightarrow> state_in (ReleaseJobClaim st i) k S"
  by (simp add: state_in_def store_simps split: option.splits)

text \<open>The row that a handler leaves whose last write succeeded.\<close>

lemma returning_row:
  assumes "returning (UpdateJobState st now job s m) = (nil, st')"
  obtains row where "GetJobByID st' (jID job) = Some (updated_row (job\<lparr>jState := s, jUpdatedAt := now\<rparr>) row)"
proof -
  have "fst (UpdateJobState st now job s m) = nil" "st' = snd (snd (UpdateJobState st now job s m))"
    using assms by (metis fst_conv fst_returning, metis snd_conv snd_returning)
  with that show thesis using UpdateJobState_row by metis
qed

section \<open>Byte counts\<close>

definition total_bytes :: "transfer_part list \<Rightarrow> int" where
  "total_bytes parts = foldl (\<lambda>total p. wrap64 (total + pContentLength p)) 0 parts"

definition done_bytes :: "transfer_part list \<Rightarrow> int" where
  "done_bytes parts = foldl (\<lambda>total p. wrap64 (total + pBytesDone p)) 0 parts"

definition syncJobBytesFromParts :: "job \<Rightarrow> transfer_part list \<Rightarrow> job" where
  "syncJobBytesFromParts job parts =
     (let job = (if 0 < total_bytes parts then job\<lparr>jBytesTotal := total_bytes parts\<rparr> else job)
      in job\<lparr>jBytesDone := done_bytes parts\<rparr>)"

definition allPartsCompleted :: "transfer_part list \<Rightarrow> bool" where
  "allPartsCompleted parts = (if parts = [] then False else list_all pCompleted parts)"

lemma syncJobBytes_fields [frame_simps]:
  "jID (syncJobBytesFromParts job parts) = jID job" "jState (syncJobBytesFromParts job parts) = jState job"
  "jBytesDone (syncJobBytesFromParts job parts) = done_bytes parts"
  "jStagingPath (syncJobBytesFromParts job parts) = jStagingPath job"
  "jRemoteID (syncJobBytesFromParts job parts) = jRemoteID job"
  by (simp_all add: syncJobBytesFromParts_def Let_def)

section \<open>Names and paths from outside\<close>

definition partKey :: "download_asset \<Rightarrow> nat \<Rightarrow> string" where
  "partKey asset idx =
     (if daFileID asset \<noteq> [] then daFileID asset else ''asset-'' @ pad_digits 3 (int idx))"

definition ascii_letter :: "char \<Rightarrow> bool" where
  "ascii_letter c = (let n = (of_char c :: nat) in (97 \<le> n \<and> n \<le> 122) \<or> (65 \<le> n \<and> n \<le> 90))"

definition hasWindowsDrivePrefix :: "string \<Rightarrow> bool" where
  "hasWindowsDrivePrefix value = (case value of a # b # _ \<Rightarrow> b = CHR '':'' \<and> ascii_letter a | _ \<Rightarrow> False)"

definition safeRelativePath :: "string \<Rightarrow> nat \<Rightarrow> string" where
  "safeRelativePath value idx =
     (let fallback = ''asset-'' @ pad_digits 3 (int idx) @ ''.bin'';
          value = TrimSpace value
      in if value = [] then fallback
         else let normalized = map (\<lambda>c. if c = CHR 0x5C then slash else c) value in
           if normalized = ''.'' \<or> HasPrefix normalized ''/'' \<or> HasPrefix normalized ''//'' \<or> hasWindowsDrivePrefix normalized
           then fallback
           else let cleaned = Clean normalized in
             if cleaned = ''.'' \<or> cleaned = ''/'' then fallback
             else if list_ex (\<lambda>part. part = [] \<or> part = ''.'' \<or> part = ''..'') (split_path cleaned) then fallback
             else cleaned)"

definition ensurePathWithinRoot :: "(string \<Rightarrow> string) \<Rightarrow> string \<Rightarrow> string \<Rightarrow> string \<Rightarrow> err" where
  "ensurePathWithinRoot quote cwd root target =
     (let rootAbs = Abs cwd root; targetAbs = Abs cwd target in
      case Rel rootAbs targetAbs of
        None \<Rightarrow> Some (ErrWrap ''compute relative path''
                  (ErrText (''Rel: can't make '' @ targetAbs @ '' relative to '' @ rootAbs)))
      | Some rel \<Rightarrow>
          let rel = Clean rel in
          if rel = ''..'' \<or> HasPrefix rel ''../''
          then Some (ErrText (''path '' @ quote targetAbs @ '' escapes root '' @ quote rootAbs))
          else nil)"

definition needsWakeup :: "job_state \<Rightarrow> bool" where
  "needsWakeup s \<longleftrightarrow> s \<in> {StateSubmitPending, StateSubmitRetry, StateRemoteQueued, StateRemoteActive,
     StateLocalDownloadPending, StateLocalDownloading, StateLocalVerify, StateRemovePending}"

text \<open>\<open>rand.Int64N(n)\<close> is a number below \<open>n\<close>: \<open>r\<close> modulo \<open>n\<close>.\<close>

definition withJitter :: "int \<Rightarrow> int \<Rightarrow> int" where
  "withJitter r base = (if base \<le> 0 then 0 else base + r mod max (base div 5) 1)"

definition is_hash :: "string \<Rightarrow> string option \<Rightarrow> bool" where
  "is_hash cur hash = (case hash of None \<Rightarrow> False | Some h \<Rightarrow> EqualFold cur h)"

definition takeRemoteName :: "orchestrator \<Rightarrow> job \<Rightarrow> string \<Rightarrow> job" where
  "takeRemoteName orc job name =
     (let name = oUnescape orc (TrimSpace name) in
      if name = [] then job
      else let cur = TrimSpace (jDisplayName job) in
        if cur = [] \<or> is_hash cur (jInfoHash job) \<or> is_hash cur (jRemoteHash job)
        then job\<lparr>jDisplayName := name\<rparr> else job)"

section \<open>Facts\<close>

lemma withJitter_bounds: "0 \<le> base \<Longrightarrow> base \<le> withJitter r base \<and> withJitter r base \<le> base + base div 5"
proof -
  assume "0 \<le> base"
  have "0 \<le> r mod max (base div 5) 1" "r mod max (base div 5) 1 < max (base div 5) 1"
    by (simp_all add: pos_mod_bound)
  moreover have "base div 5 \<ge> 1 \<Longrightarrow> max (base div 5) 1 = base div 5" by simp
  moreover have "base div 5 \<ge> 1 \<Longrightarrow> 0 \<le> r mod (base div 5) \<and> r mod (base div 5) \<le> base div 5"
    using pos_mod_bound [of "base div 5" r] by (simp add: less_imp_le)
  moreover have "\<not> base div 5 \<ge> 1 \<Longrightarrow> r mod max (base div 5) 1 = 0" by (simp add: max_def)
  ultimately show ?thesis using \<open>0 \<le> base\<close>
    by (cases "base div 5 \<ge> 1") (simp_all add: withJitter_def)
qed

lemma takeRemoteName_fields [frame_simps]:
  "jID (takeRemoteName orc job name) = jID job" "jState (takeRemoteName orc job name) = jState job"
  "jRemoteID (takeRemoteName orc job name) = jRemoteID job" "jQueuedID (takeRemoteName orc job name) = jQueuedID job"
  "jQueueAuthID (takeRemoteName orc job name) = jQueueAuthID job" "jRemoteHash (takeRemoteName orc job name) = jRemoteHash job"
  "jBytesDone (takeRemoteName orc job name) = jBytesDone job" "jBytesTotal (takeRemoteName orc job name) = jBytesTotal job"
  "jNextRunAt (takeRemoteName orc job name) = jNextRunAt job" "jErrorMessage (takeRemoteName orc job name) = jErrorMessage job"
  "jRetryCount (takeRemoteName orc job name) = jRetryCount job"
  "jLastRemoteStatus (takeRemoteName orc job name) = jLastRemoteStatus job"
  by (simp_all add: takeRemoteName_def Let_def)

text \<open>A relative path that the guard lets through, or its fallback, consists of names.\<close>

lemma digits_no_slash: "0 \<le> n \<Longrightarrow> c \<in> set (digits_of n) \<Longrightarrow> c \<noteq> slash \<and> c \<noteq> CHR ''.''"
proof (induction n rule: digits_of.induct)
  case (1 n)
  have d: "char_of (48 + k) \<noteq> slash \<and> char_of (48 + k) \<noteq> CHR ''.''" if "0 \<le> k" "k < 10" for k :: int
  proof -
    have "k = 0 \<or> k = 1 \<or> k = 2 \<or> k = 3 \<or> k = 4 \<or> k = 5 \<or> k = 6 \<or> k = 7 \<or> k = 8 \<or> k = 9" using that by arith
    then show ?thesis by (auto simp: char_of_def)
  qed
  have "0 \<le> n div 10" using 1(2) by simp
  with 1 d [of n] d [of "n mod 10"] show ?case
    using digits_of.simps [of n] by (cases "n < 10") auto
qed

lemma fallback_comp: "name_comp (''asset-'' @ pad_digits 3 (int idx) @ ''.bin'')"
proof -
  have "slash \<notin> set (pad_digits 3 (int idx))"
    using digits_no_slash [of "int idx" slash] by (auto simp: pad_digits_def Let_def)
  moreover have "plain_comp (''asset-'' @ pad_digits 3 (int idx) @ ''.bin'')" by (rule dash_plain) simp
  ultimately show ?thesis by (simp add: name_comp_def)
qed

lemma safeRelativePath_named: "named (split_path (safeRelativePath value idx)) \<and> split_path (safeRelativePath value idx) \<noteq> []"
proof -
  let ?f = "''asset-'' @ pad_digits 3 (int idx) @ ''.bin''"
  have "split_path ?f = [?f]" using fallback_comp [of idx] by (intro split_on_no_sep) (simp add: name_comp_def)
  then have f: "named (split_path ?f)" using fallback_comp [of idx] by simp
  have "safeRelativePath value idx = ?f \<or>
      \<not> list_ex (\<lambda>part. part = [] \<or> part = ''.'' \<or> part = ''..'') (split_path (safeRelativePath value idx))"
    unfolding safeRelativePath_def Let_def by (simp only: split: if_split) blast
  then show ?thesis
  proof
    assume 1: "safeRelativePath value idx = ?f"
    show ?thesis unfolding 1 by (intro conjI f split_on_nonempty)
  next
    assume 2: "\<not> list_ex (\<lambda>part. part = [] \<or> part = ''.'' \<or> part = ''..'') (split_path (safeRelativePath value idx))"
    then show ?thesis using split_on_parts by (auto simp: list_ex_iff name_comp_def plain_comp_def)
  qed
qed

lemma Join_safe:
  assumes "IsAbs root"
  shows "IsAbs (Join [root, safeRelativePath value idx])"
    and "clean_comps (Join [root, safeRelativePath value idx]) = clean_comps root @ split_path (safeRelativePath value idx)"
proof -
  show "IsAbs (Join [root, safeRelativePath value idx])" by (rule IsAbs_Join [OF assms])
  have "plain (split_path (safeRelativePath value idx))" using safeRelativePath_named by (simp add: name_comp_def)
  then show "clean_comps (Join [root, safeRelativePath value idx]) = clean_comps root @ split_path (safeRelativePath value idx)"
    by (rule Join_plain [OF assms])
qed

text \<open>The guard on roots decides whether the components of the root begin those of the target.\<close>

lemma strip_common_split:
  "strip_common b t = (bs, ts) \<Longrightarrow> \<exists>p. b = p @ bs \<and> t = p @ ts \<and> (bs = [] \<or> ts = [] \<or> hd bs \<noteq> hd ts)"
proof (induction b t rule: strip_common.induct)
  case (1 b bs' t ts')
  show ?case
  proof (cases "b = t")
    case True
    with 1 obtain p where "bs' = p @ bs" "ts' = p @ ts" "bs = [] \<or> ts = [] \<or> hd bs \<noteq> hd ts" by auto
    with True show ?thesis by (intro exI [of _ "t # p"]) simp
  next
    case False
    with 1(2) show ?thesis by auto
  qed
qed auto

lemma strip_common_prefix: "strip_common b t = (bs, ts) \<Longrightarrow> bs = [] \<longleftrightarrow> prefix b t"
proof
  assume s: "strip_common b t = (bs, ts)"
  from strip_common_split [OF s] obtain p where p: "b = p @ bs" "t = p @ ts" "bs = [] \<or> ts = [] \<or> hd bs \<noteq> hd ts" by blast
  show "prefix b t" if "bs = []" using that p by simp
  show "bs = []" if "prefix b t"
  proof (rule ccontr)
    assume "bs \<noteq> []"
    with that p have "prefix bs ts" by simp
    with \<open>bs \<noteq> []\<close> p(3) show False by (cases bs; cases ts) auto
  qed
qed

lemma clean_loop_ups: "plain cs \<Longrightarrow> clean_loop False (replicate m ''..'') (replicate n ''..'' @ cs) = replicate (m + n) ''..'' @ cs"
proof (induction n arbitrary: m)
  case 0
  then show ?case using clean_loop_plain [of cs False "replicate m ''..''" "[]"] by simp
next
  case (Suc n)
  have "clean_loop False (replicate m ''..'') (replicate (Suc n) ''..'' @ cs) =
      clean_loop False (replicate (Suc m) ''..'') (replicate n ''..'' @ cs)"
    by (cases m) simp_all
  then show ?case using Suc.IH [OF Suc.prems, of "Suc m"] by simp
qed

text \<open>The relative path that leads up \<open>n\<close> levels and then down, and its clean form.\<close>

lemma split_join_named: "named cs \<Longrightarrow> cs \<noteq> [] \<Longrightarrow> split_path (join_path (replicate n ''..'' @ cs)) = replicate n ''..'' @ cs"
  by (rule split_on_join) (auto simp: name_comp_def)

lemma Clean_ups:
  assumes "named ts" and "0 < n \<or> ts \<noteq> []"
  shows "Clean (join_path (replicate n ''..'' @ ts)) = join_path (replicate n ''..'' @ ts)"
proof -
  let ?cs = "replicate n ''..'' @ ts"
  have ne: "?cs \<noteq> []" using assms(2) by auto
  have ns: "no_slash ?cs" using assms(1) by (auto simp: name_comp_def)
  have sp: "split_path (join_path ?cs) = ?cs" using ne ns by (intro split_on_join) auto
  have first: "hd ?cs \<noteq> []" "slash \<notin> set (hd ?cs)" using ne ns assms(1) by (cases n; cases ts; auto simp: name_comp_def plain_comp_def)+
  have hd: "join_path (c # cs) \<noteq> [] \<and> hd (join_path (c # cs)) = hd c" if "c \<noteq> []" for c :: string and cs
    using that by (cases cs) (simp_all add: hd_append)
  obtain c cs where c: "?cs = c # cs" using ne by (cases ?cs) auto
  have j: "join_path ?cs \<noteq> []" "\<not> IsAbs (join_path ?cs)"
    using hd [of c cs] first unfolding c by (auto simp: IsAbs_def split: list.split)
  have "clean_loop False [] ?cs = ?cs" using clean_loop_ups [of ts 0 n] assms(1) by (simp add: name_comp_def)
  then have "clean_comps (join_path ?cs) = ?cs" using j sp by (simp add: clean_comps_def)
  with j ne show ?thesis by (simp add: Clean_def Let_def)
qed

lemma join_escapes_iff:
  assumes "named ts" and "0 < n \<or> ts \<noteq> []"
  shows "join_path (replicate n ''..'' @ ts) = ''..'' \<or> HasPrefix (join_path (replicate n ''..'' @ ts)) ''../'' \<longleftrightarrow> 0 < n"
proof (cases n)
  case 0
  then obtain c cs where c: "ts = c # cs" using assms(2) by (cases ts) auto
  have "join_path ts \<noteq> ''..''" "\<not> prefix ''../'' (join_path ts)"
  proof -
    have sp: "split_path (join_path ts) = ts" using assms(1) c split_join_named [of ts 0] by simp
    show "join_path ts \<noteq> ''..''"
    proof
      assume "join_path ts = ''..''"
      with sp have "ts = [''..'']" by simp
      with assms(1) show False by (simp add: name_comp_def plain_comp_def)
    qed
    show "\<not> prefix ''../'' (join_path ts)"
    proof
      assume "prefix ''../'' (join_path ts)"
      then obtain r where "join_path ts = ''../'' @ r" by (rule prefixE)
      then have "split_path (join_path ts) = ''..'' # split_path r" by simp
      with sp c have "c = ''..''" by simp
      with assms(1) c show False by (simp add: name_comp_def plain_comp_def)
    qed
  qed
  with 0 show ?thesis by (simp add: HasPrefix_def)
next
  case (Suc m)
  show ?thesis
  proof (cases "replicate m ''..'' @ ts")
    case Nil
    with Suc show ?thesis by simp
  next
    case (Cons x xs)
    with Suc show ?thesis by (simp add: HasPrefix_def)
  qed
qed

lemma filter_split_abs:
  assumes "IsAbs p"
  shows "filter (\<lambda>c. c \<noteq> []) (split_path (Clean p)) = clean_comps p"
proof (cases "clean_comps p = []")
  case True
  with assms show ?thesis by (simp add: Clean_abs)
next
  case False
  have "split_path (join_path (clean_comps p)) = clean_comps p"
    using False clean_comps_no_slash by (intro split_on_join)
  moreover have "filter (\<lambda>c. c \<noteq> []) (clean_comps p) = clean_comps p"
    using clean_comps_plain [OF assms] by (intro filter_True) (auto simp: plain_comp_def)
  ultimately show ?thesis using assms by (simp add: Clean_abs split_abs)
qed

lemma Clean_Clean: "IsAbs p \<Longrightarrow> Clean (Clean p) = Clean p"
  using Clean_abs [of "Clean p"] Clean_abs [of p] clean_comps_Clean [of p] by simp

lemma Abs_clean: "IsAbs cwd \<Longrightarrow> Clean (Abs cwd p) = Abs cwd p"
  using Join_clean [of cwd "[p]"] by (auto simp: Abs_def Clean_Clean)

lemma ensure_iff:
  assumes "IsAbs cwd"
  shows "ensurePathWithinRoot quote cwd base target = nil \<longleftrightarrow> prefix (resolve cwd base) (resolve cwd target)"
proof -
  let ?r = "Abs cwd base" and ?t = "Abs cwd target"
  let ?b = "resolve cwd base" and ?c = "resolve cwd target"
  have abs: "IsAbs ?r" "IsAbs ?t" using assms by (simp_all add: IsAbs_Abs)
  note cl = Abs_clean [OF assms, of base] Abs_clean [OF assms, of target]
  have nm: "named ?c"
    using resolve_plain [OF assms, of target] clean_comps_no_slash [of ?t] by (simp add: name_comp_def resolve_def)
  show ?thesis
  proof (cases "?t = ?r")
    case True
    then have "Rel ?r ?t = Some ''.''" by (simp add: Rel_def Let_def)
    moreover have "Clean ''.'' = ''.''" by code_simp
    ultimately show ?thesis using True by (simp add: ensurePathWithinRoot_def Let_def HasPrefix_def resolve_def)
  next
    case False
    have f: "filter (\<lambda>c. c \<noteq> []) (split_path ?r) = ?b" "filter (\<lambda>c. c \<noteq> []) (split_path ?t) = ?c"
      using filter_split_abs [OF abs(1)] filter_split_abs [OF abs(2)] cl by (simp_all add: resolve_def)
    obtain bs ts where s: "strip_common ?b ?c = (bs, ts)" by fastforce
    obtain q where q: "?b = q @ bs" "?c = q @ ts" using strip_common_split [OF s] by blast
    have ts: "named ts" using nm q by simp
    have x: "bs \<noteq> [] \<Longrightarrow> hd bs \<noteq> ''..''"
      using resolve_plain [OF assms, of base] q by (cases bs) (auto simp: plain_comp_def)
    have ne: "0 < length bs \<or> ts \<noteq> []"
      using False q Clean_eq_iff [OF abs] cl by (auto simp: resolve_def)
    have dot: "?r \<noteq> ''.''" using abs by auto
    have "Rel ?r ?t = Some (join_path (replicate (length bs) ''..'' @ ts))"
      using False cl abs dot f s x by (auto simp: Rel_def Let_def split: list.split)
    then have "ensurePathWithinRoot quote cwd base target = nil \<longleftrightarrow>
        \<not> (join_path (replicate (length bs) ''..'' @ ts) = ''..'' \<or> HasPrefix (join_path (replicate (length bs) ''..'' @ ts)) ''../'')"
      by (simp add: ensurePathWithinRoot_def Let_def Clean_ups [OF ts ne])
    also have "\<dots> \<longleftrightarrow> bs = []" unfolding join_escapes_iff [OF ts ne] by simp
    also have "\<dots> \<longleftrightarrow> prefix ?b ?c" by (rule strip_common_prefix [OF s])
    finally show ?thesis .
  qed
qed

end
