(* ===== verification/Worker_Samples.thy ===== *)
theory Worker_Samples
  imports Worker_Base
begin

text \<open>
  Concrete inputs for the witnesses of the workers' properties: the default configuration of
  \<open>config.go\<close> on the sample layout, a service that answers nothing, and a store with one job.
\<close>

definition sample_workers :: worker_config where
  "sample_workers =
     \<lparr>SubmitInterval = 5 * second, PollInterval = 30 * second, DownloadInterval = 5 * second,
      FinalizeInterval = 3 * second, RemoveInterval = 5 * second, PruneInterval = 12 * 3600 * second,
      SubmitRetryMin = 15 * second, SubmitRetryMax = 15 * 60 * second,
      RemovedRetention = 30 * 24 * 3600 * second, BatchSize = 25\<rparr>"

definition sample_orc :: orchestrator where
  "sample_orc = \<lparr>oWorkers = sample_workers, oLayout = sample_layout, oUnescape = \<lambda>s. s, oQuote = \<lambda>s. s\<rparr>"

definition silent :: torbox_client where
  "silent =
     \<lparr>CreateTorrentTask = \<lambda>_. Inr None, CreateUsenetTask = \<lambda>_. Inr None, GetQueuedStatus = \<lambda>_ _. Inr None,
      GetTaskStatus = \<lambda>_ _. Inr None, FindActiveTask = \<lambda>_ _ _ _. Inr None, GetDownloadLinks = \<lambda>_ _ _. Inr []\<rparr>"

definition sample_status :: task_status where
  "sample_status =
     \<lparr>tsRemoteID = ''7'', tsQueuedID = [], tsQueueAuthID = [], tsHash = [], tsName = ''Show'', tsState = ''cached'',
      tsLabel = [], tsProgress = (0, 0), tsBytesTotal = 10, tsBytesDone = 4, tsDownloadPresent = True,
      tsDownloadFinished = True, tsDownloadReady = True, tsFailed = True, tsInactive = False, tsError = [], tsFiles = []\<rparr>"

definition sample_job :: "job_state \<Rightarrow> job" where
  "sample_job s = zero_job\<lparr>jID := ''0a1b'', jPublicID := ''p'', jSourceType := SourceTypeTorrent, jCategory := ''tv'',
     jState := s, jSubmissionKey := ''k'', jDisplayName := ''Show'', jRemoteID := Some ''7'', jQueuedID := Some ''q7'',
     jStagingPath := Some ''/data/staging/0a1b''\<rparr>"

definition sample_store :: "job_state \<Rightarrow> store" where
  "sample_store s = snd (CreateJob empty_store 0 (sample_job s))"

lemma sample_store_audited: "audited (sample_store s)"
  unfolding sample_store_def by (rule CreateJob_audited(1) [OF empty_store_audited])

lemma sample_job_fields [simp]:
  "jID (sample_job s) = ''0a1b''" "jState (sample_job s) = s" "jSourceType (sample_job s) = SourceTypeTorrent"
  "jRetryCount (sample_job s) = 0" "jRemoteID (sample_job s) = Some ''7''" "jQueuedID (sample_job s) = Some ''q7''"
  "jBytesDone (sample_job s) = 0" "jStagingPath (sample_job s) = Some ''/data/staging/0a1b''"
  "jCompletedPath (sample_job s) = None" "jPayloadRef (sample_job s) = None" "jCategory (sample_job s) = ''tv''"
  "jDisplayName (sample_job s) = ''Show''"
  by (simp_all add: sample_job_def zero_job_def)

lemma sample_store_row: "GetJobByID (sample_store s) ''0a1b'' = Some (sample_job s)"
  by (simp add: sample_store_def CreateJob_def empty_store_def job_exists_def key_taken_def AppendEvent_def
      GetJobByID_def inserted_row_def) (simp add: sample_job_def zero_job_def)

lemma sample_store_facts [simp]:
  "job_exists (sample_store s) ''0a1b''" "synced (sample_store s) (sample_job s)"
  by (simp_all add: job_exists_iff_find sample_store_row synced_def)

lemma sample_intervals [simp]:
  "PollInterval (oWorkers sample_orc) = 30 * second" "DownloadInterval (oWorkers sample_orc) = 5 * second"
  "SubmitRetryMin (oWorkers sample_orc) = 15 * second" "SubmitRetryMax (oWorkers sample_orc) = 900 * second"
  "RemovedRetention (oWorkers sample_orc) = 2592000 * second" "oLayout sample_orc = sample_layout"
  by (simp_all add: sample_orc_def sample_workers_def)

end
