(* ===== verification/Submitter.thy ===== *)
theory Submitter
  imports Worker_Samples
begin

text \<open>
  The submitter (\<open>internal/worker/submit.go\<close>): it hands a pending job to TorBox. \<open>now\<close> is the
  clock, \<open>r\<close> the random number of the jitter, \<open>tb\<close> what the service answers during the run.
\<close>

text \<open>
  Exponential backoff. The float64 arithmetic of the source is exact here: the bounds are
  durations below \<open>2^53\<close> ns and a power of two times one of them either is exact or exceeds
  the maximum.
\<close>

definition submitBackoff :: "orchestrator \<Rightarrow> int \<Rightarrow> int \<Rightarrow> int" where
  "submitBackoff orc r retryCount =
     (let base = SubmitRetryMin (oWorkers orc); maxDelay = SubmitRetryMax (oWorkers orc);
          delay = base * 2 ^ nat (max (retryCount - 1) 0);
          delay = (if maxDelay < delay then maxDelay else delay)
      in withJitter r delay)"

definition handleSubmitFailure ::
  "orchestrator \<Rightarrow> time \<Rightarrow> int \<Rightarrow> store \<Rightarrow> job \<Rightarrow> go_error \<Rightarrow> err \<times> store" where
  "handleSubmitFailure orc now r st job e =
     (let message = Error e;
          job = job\<lparr>jErrorMessage := Some message, jUpdatedAt := now\<rparr>
      in if IsRetryable (Some e)
         then let job = job\<lparr>jRetryCount := jRetryCount job + 1\<rparr>;
                  job = job\<lparr>jNextRunAt := Some (now + submitBackoff orc r (jRetryCount job))\<rparr>
              in returning (UpdateJobState st now job StateSubmitRetry message)
         else let job = job\<lparr>jNextRunAt := None\<rparr>
              in returning (UpdateJobState st now job StateRemoteFailed message))"

definition torrent_request :: "job \<Rightarrow> create_torrent_request" where
  "torrent_request job =
     \<lparr>ctMagnet = deref (jSourceURI job), ctPayloadPath = deref (jPayloadRef job), ctName = jDisplayName job,
      ctSeed = 0, ctAllowZip = False, ctAsQueued = AsQueued (jMetadata job),
      ctAddOnlyIfCached = AddOnlyIfCached (jMetadata job)\<rparr>"

definition usenet_request :: "job \<Rightarrow> create_usenet_request" where
  "usenet_request job =
     \<lparr>cuLink = deref (jSourceURI job), cuPayloadPath = deref (jPayloadRef job), cuName = jDisplayName job,
      cuPassword = Password (jMetadata job), cuPostProcessing = Some (PostProcessing (jMetadata job)),
      cuAsQueued = AsQueued (jMetadata job), cuAddOnlyIfCached = AddOnlyIfCached (jMetadata job)\<rparr>"

definition create_task :: "orchestrator \<Rightarrow> torbox_client \<Rightarrow> job \<Rightarrow> create_task_response answer" where
  "create_task orc tb job =
     (case jSourceType job of
        SourceTypeTorrent \<Rightarrow> CreateTorrentTask tb (torrent_request job)
      | SourceTypeNZB \<Rightarrow> CreateUsenetTask tb (usenet_request job)
      | OtherSource s \<Rightarrow> Inl (ErrText (''unsupported source type '' @ oQuote orc s)))"

text \<open>The identifiers of the answer, as the job keeps them.\<close>

definition with_response :: "orchestrator \<Rightarrow> job \<Rightarrow> create_task_response \<Rightarrow> job" where
  "with_response orc job resp =
     takeRemoteName orc
       (job\<lparr>jRemoteID := ptr (TrimSpace (crRemoteID resp)), jQueuedID := ptr (TrimSpace (crQueuedID resp)),
            jQueueAuthID := ptr (TrimSpace (crQueueAuthID resp)), jRemoteHash := ptr (TrimSpace (crRemoteHash resp))\<rparr>)
       (crDisplayName resp)"

definition untracked :: "job \<Rightarrow> bool" where
  "untracked job \<longleftrightarrow> jRemoteID job = None \<and> jQueuedID job = None \<and> jQueueAuthID job = None \<and> jRemoteHash job = None"

definition processSubmitJob ::
  "orchestrator \<Rightarrow> torbox_client \<Rightarrow> time \<Rightarrow> int \<Rightarrow> store \<Rightarrow> job \<Rightarrow> err \<times> store" where
  "processSubmitJob orc tb now r st job =
     (case create_task orc tb job of
        Inl e \<Rightarrow> handleSubmitFailure orc now r st job e
      | Inr None \<Rightarrow>
          handleSubmitFailure orc now r st job (RetryableError (ErrText ''torbox create returned empty response''))
      | Inr (Some resp) \<Rightarrow>
          let job = with_response orc job resp in
          if untracked job
          then handleSubmitFailure orc now r st job
                 (RetryableError (ErrText ''torbox create returned no remote id or queue tracking identifiers''))
          else
            let job = job\<lparr>jErrorMessage := None, jRetryCount := 0,
                          jNextRunAt := Some (now + PollInterval (oWorkers orc)), jUpdatedAt := now\<rparr> in
            if jRemoteID job \<noteq> None
            then returning (UpdateJobState st now job StateRemoteActive ''remote task created'')
            else returning (UpdateJobState st now job StateRemoteQueued ''remote task queued awaiting active id''))"

text \<open>The loop over the claimed jobs: the claim of each is released, whatever the handler returned.\<close>

definition runSubmitter ::
  "orchestrator \<Rightarrow> (job \<Rightarrow> torbox_client) \<Rightarrow> time \<Rightarrow> (job \<Rightarrow> int) \<Rightarrow> store \<Rightarrow> store" where
  "runSubmitter orc tb now r st =
     (case ClaimJobsDue st ''submitter'' [StateSubmitPending, StateSubmitRetry] now (BatchSize (oWorkers orc)) of
        (jobs, st') \<Rightarrow>
          for_each (\<lambda>st job. ReleaseJobClaim (snd (processSubmitJob orc (tb job) now (r job) st job)) (jID job)) st' jobs)"

section \<open>What the handler keeps\<close>

context write_contract begin

lemma handleSubmitFailure_keeps:
  "I st \<Longrightarrow> P st job \<Longrightarrow> jID job' = jID job \<Longrightarrow> jState job' = jState job \<Longrightarrow>
   T StateSubmitRetry \<Longrightarrow> T StateRemoteFailed \<Longrightarrow> I (snd (handleSubmitFailure orc now r st job' e))"
  unfolding handleSubmitFailure_def Let_def
  by (cases "IsRetryable (Some e)") (simp_all only: if_True if_False, (rule update_state_returns; simp)+)

lemma processSubmitJob_keeps:
  assumes "I st" and "P st job"
    and T: "T StateSubmitRetry" "T StateRemoteFailed" "T StateRemoteActive" "T StateRemoteQueued"
  shows "I (snd (processSubmitJob orc tb now r st job))"
proof -
  note f = handleSubmitFailure_keeps [OF assms(1,2)] and u = update_state_returns [OF assms(1,2)]
  have w: "jID (with_response orc job resp) = jID job" "jState (with_response orc job resp) = jState job" for resp
    by (simp_all add: with_response_def frame_simps)
  show ?thesis
  proof (cases "create_task orc tb job")
    case (Inl e)
    then show ?thesis by (simp add: processSubmitJob_def f T)
  next
    case (Inr answer)
    then show ?thesis
      by (cases answer) (simp_all add: processSubmitJob_def Let_def f w T u [unfolded snd_returning])
  qed
qed

end

section \<open>The round\<close>

lemma submit_frame: "jID j \<noteq> k \<Longrightarrow> GetJobByID (snd (processSubmitJob orc tb now r st j)) k = GetJobByID st k"
  by (rule other_jobs.processSubmitJob_keeps) simp_all

lemma submit_state:
  assumes "synced st j"
  shows "state_in (snd (processSubmitJob orc tb now r st j)) (jID j)
    (insert (jState j) {StateSubmitRetry, StateRemoteFailed, StateRemoteActive, StateRemoteQueued})"
  using assms
  by (intro edges.processSubmitJob_keeps) (auto simp: in_hand_def state_in_def synced_def split: option.splits)

lemma runSubmitter_facts:
  assumes "audited st"
  shows "audited (runSubmitter orc tb now r st)"
    and "moves {StateSubmitPending, StateSubmitRetry} {StateSubmitRetry, StateRemoteFailed, StateRemoteActive, StateRemoteQueued}
      st (runSubmitter orc tb now r st)"
proof -
  obtain jobs st' where c: "ClaimJobsDue st ''submitter'' [StateSubmitPending, StateSubmitRetry] now (BatchSize (oWorkers orc)) = (jobs, st')"
    by fastforce
  let ?f = "\<lambda>st job. ReleaseJobClaim (snd (processSubmitJob orc (tb job) now (r job) st job)) (jID job)"
  have run: "runSubmitter orc tb now r st = for_each ?f st' jobs" by (simp add: runSubmitter_def c)
  note b = ClaimJobsDue_batch [OF assms c]
  show "audited (runSubmitter orc tb now r st)" unfolding run
    by (rule audit_writes.for_each_keeps [where store_of = "\<lambda>st. st" and states = "{StateSubmitPending, StateSubmitRetry}"])
       (use b in \<open>auto intro!: ReleaseJobClaim_audited audit_writes.processSubmitJob_keeps release_frame submit_frame\<close>)
  show "moves {StateSubmitPending, StateSubmitRetry} {StateSubmitRetry, StateRemoteFailed, StateRemoteActive, StateRemoteQueued}
      st (runSubmitter orc tb now r st)" unfolding run
    using round_moves [OF assms, where store_of = "\<lambda>st. st", OF c, of ?f "{StateSubmitRetry, StateRemoteFailed, StateRemoteActive, StateRemoteQueued}"]
      release_frame [OF submit_frame] release_state_in [OF submit_state] by simp
qed

section \<open>Properties\<close>

lemma delay_bounds:
  assumes "0 \<le> (base :: int)" and "base \<le> max_delay"
  shows "base \<le> min (base * 2 ^ n) max_delay"
proof -
  have "base * 1 \<le> base * 2 ^ n" using assms(1) by (intro mult_left_mono) simp_all
  with assms(2) show ?thesis by simp
qed

lemma submitBackoff_min:
  "submitBackoff orc r n =
     withJitter r (min (SubmitRetryMin (oWorkers orc) * 2 ^ nat (max (n - 1) 0)) (SubmitRetryMax (oWorkers orc)))"
  by (simp add: submitBackoff_def Let_def min_def)

text \<open>
  C38. The retry delay doubles with every failure until it reaches the maximum: for retry \<open>n\<close> it is
  the least of \<open>2^(n-1)\<close> times the minimum and the maximum, plus a jitter of at most a fifth; so
  it is never below the configured minimum nor above six fifths of the maximum.
\<close>

theorem submit_backoff_bounds:
  assumes "0 \<le> SubmitRetryMin (oWorkers orc)" and "SubmitRetryMin (oWorkers orc) \<le> SubmitRetryMax (oWorkers orc)"
    and "d = min (SubmitRetryMin (oWorkers orc) * 2 ^ nat (max (n - 1) 0)) (SubmitRetryMax (oWorkers orc))"
  shows "d \<le> submitBackoff orc r n \<and> submitBackoff orc r n \<le> d + d div 5 \<and>
    SubmitRetryMin (oWorkers orc) \<le> submitBackoff orc r n \<and>
    5 * submitBackoff orc r n \<le> 6 * SubmitRetryMax (oWorkers orc)"
proof -
  have low: "SubmitRetryMin (oWorkers orc) \<le> d"
    unfolding assms(3) by (rule delay_bounds [OF assms(1,2)])
  then have "0 \<le> d" using assms(1) by linarith
  have "submitBackoff orc r n = withJitter r d" by (simp add: submitBackoff_min assms(3))
  with withJitter_bounds [OF \<open>0 \<le> d\<close>, of r]
  have b: "d \<le> submitBackoff orc r n \<and> submitBackoff orc r n \<le> d + d div 5" by simp
  have "5 * (d div 5) \<le> d" by simp
  moreover have "d \<le> SubmitRetryMax (oWorkers orc)" by (simp add: assms(3))
  ultimately show ?thesis using b low by linarith
qed

theorem submit_backoff_bounds_witness:
  "60 * second \<le> submitBackoff sample_orc 7 3 \<and> submitBackoff sample_orc 7 3 \<le> 72 * second"
  using submit_backoff_bounds [of sample_orc "60 * second" 3 7]
  by simp

text \<open>The row after a failed submission, and an answer without identifiers.\<close>

definition failed_row :: "orchestrator \<Rightarrow> time \<Rightarrow> int \<Rightarrow> job \<Rightarrow> go_error \<Rightarrow> job \<Rightarrow> bool" where
  "failed_row orc now r job e row \<longleftrightarrow>
     jErrorMessage row = Some (Error e) \<and>
     (if IsRetryable (Some e)
      then jState row = StateSubmitRetry \<and> jRetryCount row = jRetryCount job + 1 \<and>
           jNextRunAt row = Some (now + submitBackoff orc r (jRetryCount job + 1))
      else jState row = StateRemoteFailed \<and> jNextRunAt row = None)"

definition no_ids :: "create_task_response \<Rightarrow> bool" where
  "no_ids resp \<longleftrightarrow>
     list_all (\<lambda>i. TrimSpace i = []) [crRemoteID resp, crQueuedID resp, crQueueAuthID resp, crRemoteHash resp]"

lemma handleSubmitFailure_row:
  assumes "handleSubmitFailure orc now r st job' e = (nil, st')"
    and "jID job' = jID job" and "jRetryCount job' = jRetryCount job"
  shows "\<exists>row. GetJobByID st' (jID job) = Some row \<and> failed_row orc now r job e row"
proof -
  obtain job2 s where w: "handleSubmitFailure orc now r st job' e = returning (UpdateJobState st now job2 s (Error e))"
    and j: "jID job2 = jID job" "failed_row orc now r job e (job2\<lparr>jState := s, jUpdatedAt := now\<rparr>)"
  proof (cases "IsRetryable (Some e)")
    case True
    then show thesis using that assms(2,3) by (simp add: handleSubmitFailure_def Let_def failed_row_def)
  next
    case False
    then show thesis using that assms(2,3) by (simp add: handleSubmitFailure_def Let_def failed_row_def)
  qed
  have "fst (UpdateJobState st now job2 s (Error e)) = nil" "st' = snd (snd (UpdateJobState st now job2 s (Error e)))"
    using assms(1) w by (metis fst_conv fst_returning, metis snd_conv snd_returning)
  then obtain row where "GetJobByID st' (jID job) = Some (updated_row (job2\<lparr>jState := s, jUpdatedAt := now\<rparr>) row)"
    using UpdateJobState_row j(1) by metis
  moreover have "failed_row orc now r job e (updated_row (job2\<lparr>jState := s, jUpdatedAt := now\<rparr>) row)"
    using j(2) by (simp add: failed_row_def)
  ultimately show ?thesis by blast
qed

lemma untracked_no_ids: "untracked (with_response orc job resp) \<longleftrightarrow> no_ids resp"
  by (auto simp: untracked_def with_response_def no_ids_def frame_simps)

definition outcome_row :: "orchestrator \<Rightarrow> time \<Rightarrow> int \<Rightarrow> job \<Rightarrow> create_task_response answer \<Rightarrow> job \<Rightarrow> bool" where
  "outcome_row orc now r job answer row =
     (case answer of
        Inl e \<Rightarrow> failed_row orc now r job e row
      | Inr None \<Rightarrow> failed_row orc now r job (RetryableError (ErrText ''torbox create returned empty response'')) row
      | Inr (Some resp) \<Rightarrow>
          if no_ids resp
          then failed_row orc now r job
                 (RetryableError (ErrText ''torbox create returned no remote id or queue tracking identifiers'')) row
          else jErrorMessage row = None \<and> jRetryCount row = 0 \<and>
               jNextRunAt row = Some (now + PollInterval (oWorkers orc)) \<and>
               \<not> untracked row \<and> jRemoteID row = ptr (TrimSpace (crRemoteID resp)) \<and>
               jState row = (if jRemoteID row \<noteq> None then StateRemoteActive else StateRemoteQueued))"

text \<open>
  C18. What a submission makes of the job's row when its write succeeds: a retryable failure (and an
  answer without any identifier) schedules the next retry with one more on the counter; any other
  failure ends the job with no further run; an identifier of the active task makes it active, any
  other identifier queued. In the last two cases the row bears an identifier, so that the poller
  can find the task, and the counter and the error are cleared.
\<close>

theorem submit_outcome:
  assumes "processSubmitJob orc tb now r st job = (nil, st')"
  shows "\<exists>row. GetJobByID st' (jID job) = Some row \<and> outcome_row orc now r job (create_task orc tb job) row"
proof (cases "create_task orc tb job")
  case (Inl e)
  with assms handleSubmitFailure_row [of orc now r st job e st' job] show ?thesis
    by (simp add: processSubmitJob_def outcome_row_def)
next
  case (Inr answer)
  show ?thesis
  proof (cases answer)
    case None
    with Inr assms handleSubmitFailure_row [of orc now r st job _ st' job] show ?thesis
      by (simp add: processSubmitJob_def outcome_row_def)
  next
    case (Some resp)
    let ?job = "with_response orc job resp"
    have same: "jID ?job = jID job" "jRetryCount ?job = jRetryCount job"
      "jRemoteID ?job = ptr (TrimSpace (crRemoteID resp))"
      by (simp_all add: with_response_def frame_simps)
    show ?thesis
    proof (cases "untracked ?job")
      case True
      with Inr Some assms same handleSubmitFailure_row [of orc now r st ?job _ st' job] show ?thesis
        by (simp add: processSubmitJob_def outcome_row_def Let_def untracked_no_ids)
    next
      case False
      let ?job2 = "?job\<lparr>jErrorMessage := None, jRetryCount := 0,
          jNextRunAt := Some (now + PollInterval (oWorkers orc)), jUpdatedAt := now\<rparr>"
      let ?s = "if jRemoteID ?job \<noteq> None then StateRemoteActive else StateRemoteQueued"
      have "\<exists>m. processSubmitJob orc tb now r st job = returning (UpdateJobState st now ?job2 ?s m)"
        using Inr Some False by (auto simp: processSubmitJob_def Let_def)
      then obtain m where m: "returning (UpdateJobState st now ?job2 ?s m) = (nil, st')" using assms by auto
      then have "fst (UpdateJobState st now ?job2 ?s m) = nil" "st' = snd (snd (UpdateJobState st now ?job2 ?s m))"
        by (metis fst_conv fst_returning, metis snd_conv snd_returning)
      then obtain row where row: "GetJobByID st' (jID ?job2) = Some (updated_row (?job2\<lparr>jState := ?s, jUpdatedAt := now\<rparr>) row)"
        using UpdateJobState_row by metis
      have "\<not> no_ids resp" using False untracked_no_ids by blast
      moreover have "\<not> untracked (updated_row (?job2\<lparr>jState := ?s, jUpdatedAt := now\<rparr>) row)"
        using False by (simp add: untracked_def)
      ultimately show ?thesis using row same Inr Some by (simp add: outcome_row_def)
    qed
  qed
qed

theorem submit_outcome_witness:
  "\<exists>st' row. processSubmitJob sample_orc (silent\<lparr>CreateTorrentTask := \<lambda>_. Inl (RetryableError (ErrText ''busy''))\<rparr>) 0 0
       (sample_store StateSubmitPending) (sample_job StateSubmitPending) = (nil, st') \<and>
     GetJobByID st' ''0a1b'' = Some row \<and> jState row = StateSubmitRetry \<and> jNextRunAt row = Some (15 * second)"
proof -
  let ?run = "processSubmitJob sample_orc (silent\<lparr>CreateTorrentTask := \<lambda>_. Inl (RetryableError (ErrText ''busy''))\<rparr>) 0 0
      (sample_store StateSubmitPending) (sample_job StateSubmitPending)"
  have "fst ?run = nil" by code_simp
  then have run: "?run = (nil, snd ?run)" by (metis prod.collapse)
  then show ?thesis
    using submit_outcome [OF run] run
    by (auto simp: outcome_row_def create_task_def failed_row_def IsRetryable_def submitBackoff_def withJitter_def)
qed

end
