(* ===== verification/Poller.thy ===== *)
theory Poller
  imports Worker_Samples
begin

text \<open>
  The poller (\<open>internal/worker/poll.go\<close>): it asks TorBox how a submitted job is doing, follows it
  from the queue to the active list, and hands it to the downloader once the content is ready.
\<close>

text \<open>Every branch that only waits: the next run is one interval and a jitter away.\<close>

definition poll_later :: "orchestrator \<Rightarrow> time \<Rightarrow> int \<Rightarrow> store \<Rightarrow> job \<Rightarrow> err \<times> store" where
  "poll_later orc now r st job =
     UpdateJob st (job\<lparr>jNextRunAt := Some (now + withJitter r (PollInterval (oWorkers orc))), jUpdatedAt := now\<rparr>)"

text \<open>A permanent error of the service ends the job.\<close>

definition poll_failed :: "time \<Rightarrow> store \<Rightarrow> job \<Rightarrow> string \<Rightarrow> err \<times> store" where
  "poll_failed now st job msg =
     returning (UpdateJobState st now (job\<lparr>jErrorMessage := Some msg, jNextRunAt := None, jUpdatedAt := now\<rparr>)
       StateRemoteFailed msg)"

text \<open>What the status of the task sets in the job.\<close>

definition with_status :: "orchestrator \<Rightarrow> time \<Rightarrow> job \<Rightarrow> task_status \<Rightarrow> job" where
  "with_status orc now job status =
     (let job = takeRemoteName orc job (tsName status);
          job = (if tsRemoteID status \<noteq> [] then job\<lparr>jRemoteID := ptr (tsRemoteID status)\<rparr> else job);
          job = (if tsQueueAuthID status \<noteq> [] then job\<lparr>jQueueAuthID := ptr (tsQueueAuthID status)\<rparr> else job);
          job = (if tsHash status \<noteq> [] then job\<lparr>jRemoteHash := ptr (tsHash status)\<rparr> else job);
          job = (if tsState status \<noteq> [] then job\<lparr>jLastRemoteStatus := Some (tsState status)\<rparr> else job);
          job = (if 0 < tsBytesTotal status then job\<lparr>jBytesTotal := tsBytesTotal status\<rparr> else job);
          job = (if jBytesDone job < tsBytesDone status then job\<lparr>jBytesDone := tsBytesDone status\<rparr> else job)
      in job\<lparr>jUpdatedAt := now\<rparr>)"

definition failure_text :: "task_status \<Rightarrow> string" where
  "failure_text status =
     (if tsError status \<noteq> [] then tsError status
      else ''remote task ended in state='' @ tsState status @ '' label='' @ tsLabel status)"

definition applyActiveStatus ::
  "orchestrator \<Rightarrow> time \<Rightarrow> int \<Rightarrow> store \<Rightarrow> job \<Rightarrow> task_status option \<Rightarrow> err \<times> store" where
  "applyActiveStatus orc now r st job answer =
     (case answer of
        None \<Rightarrow> poll_later orc now r st job
      | Some status \<Rightarrow>
          let job = with_status orc now job status in
          if tsDownloadReady status
          then returning (UpdateJobState st now
                 (job\<lparr>jNextRunAt := Some now, jErrorMessage := None, jQueuedID := None\<rparr>)
                 StateLocalDownloadPending ''remote content ready for local download'')
          else if tsFailed status \<or> tsInactive status
          then returning (UpdateJobState st now
                 (job\<lparr>jErrorMessage := Some (failure_text status), jNextRunAt := None\<rparr>)
                 StateRemoteFailed (failure_text status))
          else
            let job = job\<lparr>jNextRunAt := Some (now + withJitter r (PollInterval (oWorkers orc)))\<rparr> in
            UpdateJob st (if jState job \<noteq> StateRemoteActive then job\<lparr>jState := StateRemoteActive\<rparr> else job))"

definition tryRecoverActiveStatus ::
  "orchestrator \<Rightarrow> torbox_client \<Rightarrow> time \<Rightarrow> int \<Rightarrow> store \<Rightarrow> job \<Rightarrow> err \<times> store" where
  "tryRecoverActiveStatus orc tb now r st job =
     (case FindActiveTask tb (source_text (jSourceType job)) (deref (jRemoteID job)) (deref (jQueueAuthID job))
             (deref (jRemoteHash job)) of
        Inl e \<Rightarrow>
          if IsRetryable (Some e) then poll_later orc now r st job else poll_failed now st job (Error e)
      | Inr None \<Rightarrow> poll_later orc now r st job
      | Inr (Some status) \<Rightarrow>
          let job = (if tsRemoteID status \<noteq> [] then job\<lparr>jRemoteID := ptr (tsRemoteID status)\<rparr> else job);
              job = job\<lparr>jUpdatedAt := now\<rparr>
          in if jState job \<noteq> StateRemoteActive
             then (case UpdateJobState st now job StateRemoteActive ''active task discovered after queue lookup'' of
                     (Some e, _, st') \<Rightarrow> (Some e, st')
                   | (None, job', st') \<Rightarrow> applyActiveStatus orc now r st' job' (Some status))
             else applyActiveStatus orc now r st job (Some status))"

definition with_queued :: "job \<Rightarrow> task_status \<Rightarrow> job" where
  "with_queued job queued =
     (let job = (if tsQueueAuthID queued \<noteq> [] then job\<lparr>jQueueAuthID := ptr (tsQueueAuthID queued)\<rparr> else job)
      in if tsHash queued \<noteq> [] then job\<lparr>jRemoteHash := ptr (tsHash queued)\<rparr> else job)"

definition processQueuedPollJob ::
  "orchestrator \<Rightarrow> torbox_client \<Rightarrow> time \<Rightarrow> int \<Rightarrow> store \<Rightarrow> job \<Rightarrow> err \<times> store" where
  "processQueuedPollJob orc tb now r st job =
     (case GetQueuedStatus tb (source_text (jSourceType job)) (deref (jQueuedID job)) of
        Inl e \<Rightarrow> tryRecoverActiveStatus orc tb now r st job
      | Inr None \<Rightarrow> tryRecoverActiveStatus orc tb now r st job
      | Inr (Some queued) \<Rightarrow>
          let job = with_queued job queued in
          if tsRemoteID queued \<noteq> []
          then
            (case UpdateJobState st now (job\<lparr>jRemoteID := ptr (tsRemoteID queued), jUpdatedAt := now\<rparr>)
                    StateRemoteActive ''queued task promoted to active'' of
               (Some e, _, st') \<Rightarrow> (Some e, st')
             | (None, job', st') \<Rightarrow>
                 (case FindActiveTask tb (source_text (jSourceType job')) (deref (jRemoteID job'))
                         (deref (jQueueAuthID job')) (deref (jRemoteHash job')) of
                    Inl e \<Rightarrow> (Some e, st')
                  | Inr None \<Rightarrow> poll_later orc now r st' job'
                  | Inr (Some status) \<Rightarrow> applyActiveStatus orc now r st' job' (Some status)))
          else poll_later orc now r st job)"

definition processPollJob ::
  "orchestrator \<Rightarrow> torbox_client \<Rightarrow> time \<Rightarrow> int \<Rightarrow> store \<Rightarrow> job \<Rightarrow> err \<times> store" where
  "processPollJob orc tb now r st job =
     (if jState job = StateRemoteQueued \<or> jRemoteID job = None
      then processQueuedPollJob orc tb now r st job
      else
        case GetTaskStatus tb (source_text (jSourceType job)) (deref (jRemoteID job)) of
          Inl e \<Rightarrow>
            if IsRetryable (Some e) then poll_later orc now r st job else poll_failed now st job (Error e)
        | Inr status \<Rightarrow> applyActiveStatus orc now r st job status)"

definition runPoller ::
  "orchestrator \<Rightarrow> (job \<Rightarrow> torbox_client) \<Rightarrow> time \<Rightarrow> (job \<Rightarrow> int) \<Rightarrow> store \<Rightarrow> store" where
  "runPoller orc tb now r st =
     (case ClaimJobsDue st ''poller'' [StateRemoteQueued, StateRemoteActive] now (BatchSize (oWorkers orc)) of
        (jobs, st') \<Rightarrow>
          for_each (\<lambda>st job. ReleaseJobClaim (snd (processPollJob orc (tb job) now (r job) st job)) (jID job)) st' jobs)"

section \<open>What the handler keeps\<close>

lemma with_status_fields [frame_simps]:
  "jID (with_status orc now job status) = jID job" "jState (with_status orc now job status) = jState job"
  "jErrorMessage (with_status orc now job status) = jErrorMessage job"
  "jRemoteID (with_status orc now job status) =
     (if tsRemoteID status \<noteq> [] then Some (tsRemoteID status) else jRemoteID job)"
  "jBytesDone (with_status orc now job status) = max (jBytesDone job) (tsBytesDone status)"
  by (simp_all add: with_status_def Let_def frame_simps ptr_def)

lemma with_queued_fields [frame_simps]:
  "jID (with_queued job queued) = jID job" "jState (with_queued job queued) = jState job"
  "jRemoteID (with_queued job queued) = jRemoteID job" "jBytesDone (with_queued job queued) = jBytesDone job"
  by (simp_all add: with_queued_def Let_def)

context write_contract begin

lemma poll_later_keeps:
  "I st \<Longrightarrow> P st job \<Longrightarrow> jID job' = jID job \<Longrightarrow> jState job' = jState job \<Longrightarrow> I (snd (poll_later orc now r st job'))"
  unfolding poll_later_def by (erule update_returns) simp_all

lemma poll_failed_keeps:
  "I st \<Longrightarrow> P st job \<Longrightarrow> jID job' = jID job \<Longrightarrow> jState job' = jState job \<Longrightarrow> T StateRemoteFailed \<Longrightarrow>
   I (snd (poll_failed now st job' msg))"
  unfolding poll_failed_def by (erule update_state_returns) simp_all

lemma applyActiveStatus_keeps:
  assumes "I st" and "P st job" and "jState job = StateRemoteActive"
    and T: "T StateLocalDownloadPending" "T StateRemoteFailed"
  shows "I (snd (applyActiveStatus orc now r st job answer))"
proof (cases answer)
  case None
  then show ?thesis by (simp add: applyActiveStatus_def poll_later_keeps [OF assms(1,2)])
next
  case (Some status)
  note u = update_state_returns [OF assms(1,2), unfolded snd_returning] and w = update_returns [OF assms(1,2)]
  show ?thesis
    using Some assms(3) by (simp add: applyActiveStatus_def Let_def frame_simps T u w)
qed

lemma active_then_keeps:
  assumes "I st" and "P st job" and "jID job0 = jID job" and "jState job0 = jState job"
    and "T StateRemoteActive" and u: "UpdateJobState st now job0 StateRemoteActive m = (None, job', st')"
  shows "I st'" and "P st' job'" and "jState job' = StateRemoteActive"
proof -
  have "P st job0" by (rule may_write_cong [OF assms(2-4)])
  from update_state_keeps [OF assms(1) this assms(5) u] show "I st'" and "P st' job'" by simp_all
  show "jState job' = StateRemoteActive" using UpdateJobState_storeI(2) [OF u] by simp
qed

lemma failed_then_keeps:
  assumes "I st" and "P st job" and "jID job0 = jID job" and "jState job0 = jState job"
    and "T s" and "UpdateJobState st now job0 s m = (Some e, job', st')"
  shows "I st'"
  using update_state_keeps [OF assms(1) may_write_cong [OF assms(2-4)] assms(5,6)] by simp

lemma tryRecoverActiveStatus_keeps:
  assumes "I st" and "P st job"
    and T: "T StateRemoteActive" "T StateLocalDownloadPending" "T StateRemoteFailed"
  shows "I (snd (tryRecoverActiveStatus orc tb now r st job))"
proof -
  note k = poll_later_keeps [OF assms(1,2)] poll_failed_keeps [OF assms(1,2)] T
  show ?thesis
  proof (cases "FindActiveTask tb (source_text (jSourceType job)) (deref (jRemoteID job)) (deref (jQueueAuthID job)) (deref (jRemoteHash job))")
    case (Inl e)
    then show ?thesis by (simp add: tryRecoverActiveStatus_def k)
  next
    case (Inr answer)
    show ?thesis
    proof (cases answer)
      case None
      with Inr show ?thesis by (simp add: tryRecoverActiveStatus_def k)
    next
      case (Some status)
      let ?job = "(if tsRemoteID status \<noteq> [] then job\<lparr>jRemoteID := ptr (tsRemoteID status)\<rparr> else job)\<lparr>jUpdatedAt := now\<rparr>"
      have same: "jID ?job = jID job" "jState ?job = jState job" by simp_all
      obtain e job' st' where u: "UpdateJobState st now ?job StateRemoteActive ''active task discovered after queue lookup'' = (e, job', st')"
        by (metis prod_cases3)
      have may: "P st ?job" by (rule may_write_cong [OF assms(2) same])
      show ?thesis
      proof (cases "jState job = StateRemoteActive")
        case True
        with Inr Some applyActiveStatus_keeps [OF assms(1) may _ T(2,3), of orc now r "Some status"] show ?thesis
          by (simp add: tryRecoverActiveStatus_def Let_def)
      next
        case False
        show ?thesis
        proof (cases e)
          case None
          from applyActiveStatus_keeps [OF active_then_keeps [OF assms(1,2) same T(1) u [unfolded None]] T(2,3)] False Inr Some u None
          show ?thesis by (simp add: tryRecoverActiveStatus_def Let_def)
        next
          case err: (Some x)
          from failed_then_keeps [OF assms(1,2) same T(1) u [unfolded err]] False Inr Some u err
          show ?thesis by (simp add: tryRecoverActiveStatus_def Let_def)
        qed
      qed
    qed
  qed
qed

lemma processQueuedPollJob_keeps:
  assumes "I st" and "P st job"
    and T: "T StateRemoteActive" "T StateLocalDownloadPending" "T StateRemoteFailed"
  shows "I (snd (processQueuedPollJob orc tb now r st job))"
proof (cases "GetQueuedStatus tb (source_text (jSourceType job)) (deref (jQueuedID job))")
  case (Inl e)
  then show ?thesis by (simp add: processQueuedPollJob_def tryRecoverActiveStatus_keeps [OF assms])
next
  case (Inr answer)
  show ?thesis
  proof (cases answer)
    case None
    with Inr show ?thesis by (simp add: processQueuedPollJob_def tryRecoverActiveStatus_keeps [OF assms])
  next
    case (Some queued)
    let ?job = "with_queued job queued\<lparr>jRemoteID := ptr (tsRemoteID queued), jUpdatedAt := now\<rparr>"
    have same: "jID ?job = jID job" "jState ?job = jState job" by (simp_all add: frame_simps)
    obtain e job' st' where u: "UpdateJobState st now ?job StateRemoteActive ''queued task promoted to active'' = (e, job', st')"
      by (metis prod_cases3)
    show ?thesis
    proof (cases "tsRemoteID queued = []")
      case True
      with Inr Some show ?thesis
        by (simp add: processQueuedPollJob_def Let_def poll_later_keeps [OF assms(1,2)] frame_simps)
    next
      case False
      show ?thesis
      proof (cases e)
        case None
        note a = active_then_keeps [OF assms(1,2) same T(1) u [unfolded None]]
        have "I (snd (poll_later orc now r st' job'))" by (rule poll_later_keeps [OF a(1,2)]) simp_all
        moreover have "I (snd (applyActiveStatus orc now r st' job' x))" for x by (rule applyActiveStatus_keeps [OF a T(2,3)])
        ultimately show ?thesis using False Inr Some u None a(1)
          by (simp add: processQueuedPollJob_def Let_def split: sum.split option.split)
      next
        case err: (Some x)
        with False Inr Some u failed_then_keeps [OF assms(1,2) same T(1) u [unfolded err]] show ?thesis
          by (simp add: processQueuedPollJob_def Let_def)
      qed
    qed
  qed
qed

lemma processPollJob_keeps:
  assumes "I st" and "P st job" and "jState job \<in> {StateRemoteQueued, StateRemoteActive}"
    and T: "T StateRemoteActive" "T StateLocalDownloadPending" "T StateRemoteFailed"
  shows "I (snd (processPollJob orc tb now r st job))"
proof (cases "jState job = StateRemoteQueued \<or> jRemoteID job = None")
  case True
  then show ?thesis by (simp add: processPollJob_def processQueuedPollJob_keeps [OF assms(1,2) T])
next
  case False
  with assms(3) have a: "jState job = StateRemoteActive" by simp
  moreover have "jRemoteID job \<noteq> None" using False by simp
  ultimately show ?thesis
    by (cases "GetTaskStatus tb (source_text (jSourceType job)) (deref (jRemoteID job))")
       (simp_all del: not_None_eq add: processPollJob_def poll_later_keeps [OF assms(1,2)] poll_failed_keeps [OF assms(1,2)]
         applyActiveStatus_keeps [OF assms(1,2) a T(2,3)] T)
qed

end
section \<open>The round\<close>

lemma poll_frame:
  "jID j \<noteq> k \<Longrightarrow> jState j \<in> {StateRemoteQueued, StateRemoteActive} \<Longrightarrow>
   GetJobByID (snd (processPollJob orc tb now r st j)) k = GetJobByID st k"
  by (rule other_jobs.processPollJob_keeps) simp_all

lemma poll_state:
  assumes "synced st j" and "jState j \<in> {StateRemoteQueued, StateRemoteActive}"
  shows "state_in (snd (processPollJob orc tb now r st j)) (jID j)
    (insert (jState j) {StateRemoteActive, StateLocalDownloadPending, StateRemoteFailed})"
  using assms
  by (intro edges.processPollJob_keeps) (auto simp: in_hand_def state_in_def synced_def split: option.splits)

lemma runPoller_facts:
  assumes "audited st"
  shows "audited (runPoller orc tb now r st)"
    and "moves {StateRemoteQueued, StateRemoteActive} {StateRemoteActive, StateLocalDownloadPending, StateRemoteFailed}
      st (runPoller orc tb now r st)"
proof -
  obtain jobs st' where c: "ClaimJobsDue st ''poller'' [StateRemoteQueued, StateRemoteActive] now (BatchSize (oWorkers orc)) = (jobs, st')"
    by fastforce
  let ?f = "\<lambda>st job. ReleaseJobClaim (snd (processPollJob orc (tb job) now (r job) st job)) (jID job)"
  have run: "runPoller orc tb now r st = for_each ?f st' jobs" by (simp add: runPoller_def c)
  note b = ClaimJobsDue_batch [OF assms c]
  show "audited (runPoller orc tb now r st)" unfolding run
    by (rule audit_writes.for_each_keeps [where store_of = "\<lambda>st. st" and states = "{StateRemoteQueued, StateRemoteActive}"])
       (use b in \<open>auto intro!: ReleaseJobClaim_audited audit_writes.processPollJob_keeps release_frame poll_frame\<close>)
  show "moves {StateRemoteQueued, StateRemoteActive} {StateRemoteActive, StateLocalDownloadPending, StateRemoteFailed}
      st (runPoller orc tb now r st)" unfolding run
    using round_moves [OF assms, where store_of = "\<lambda>st. st", OF c, of ?f "{StateRemoteActive, StateLocalDownloadPending, StateRemoteFailed}"]
      release_frame [OF poll_frame] release_state_in [OF poll_state] by simp
qed

section \<open>Properties\<close>

text \<open>When the row runs next: one interval later, with a jitter of at most a fifth.\<close>

definition waits :: "orchestrator \<Rightarrow> time \<Rightarrow> job \<Rightarrow> bool" where
  "waits orc now row \<longleftrightarrow> (case jNextRunAt row of None \<Rightarrow> False | Some t \<Rightarrow>
     now + PollInterval (oWorkers orc) \<le> t \<and> t \<le> now + PollInterval (oWorkers orc) + PollInterval (oWorkers orc) div 5)"

lemma waits_later:
  "0 \<le> PollInterval (oWorkers orc) \<Longrightarrow> jNextRunAt row = Some (now + withJitter r (PollInterval (oWorkers orc))) \<Longrightarrow> waits orc now row"
  using withJitter_bounds [of "PollInterval (oWorkers orc)" r] by (simp add: waits_def)

text \<open>The row after an active job was polled with the given answer.\<close>

definition polled_row :: "orchestrator \<Rightarrow> time \<Rightarrow> job \<Rightarrow> task_status answer \<Rightarrow> job \<Rightarrow> bool" where
  "polled_row orc now job answer row =
     (case answer of
        Inl e \<Rightarrow>
          if IsRetryable (Some e) then jState row = StateRemoteActive \<and> waits orc now row
          else jState row = StateRemoteFailed \<and> jNextRunAt row = None \<and> jErrorMessage row = Some (Error e)
      | Inr None \<Rightarrow> jState row = StateRemoteActive \<and> waits orc now row
      | Inr (Some status) \<Rightarrow>
          jBytesDone row = max (jBytesDone job) (tsBytesDone status) \<and>
          jRemoteID row = (if tsRemoteID status \<noteq> [] then Some (tsRemoteID status) else jRemoteID job) \<and>
          (if tsDownloadReady status
           then jState row = StateLocalDownloadPending \<and> jNextRunAt row = Some now \<and> jErrorMessage row = None
           else if tsFailed status \<or> tsInactive status
           then jState row = StateRemoteFailed \<and> jNextRunAt row = None \<and> jErrorMessage row = Some (failure_text status)
           else jState row = StateRemoteActive \<and> waits orc now row))"

lemma poll_later_row:
  assumes "poll_later orc now r st job = (nil, st')" and "job_exists st (jID job)" and "0 \<le> PollInterval (oWorkers orc)"
  obtains row where "GetJobByID st' (jID job) = Some row" and "jState row = jState job" and "waits orc now row"
    and "jRemoteID row = jRemoteID job" and "jQueueAuthID row = jQueueAuthID job" and "jRemoteHash row = jRemoteHash job"
proof -
  let ?job = "job\<lparr>jNextRunAt := Some (now + withJitter r (PollInterval (oWorkers orc))), jUpdatedAt := now\<rparr>"
  have "fst (UpdateJob st ?job) = nil" "job_exists st (jID ?job)" "st' = snd (UpdateJob st ?job)"
    using assms(1,2) by (simp_all add: poll_later_def)
  then obtain row where "GetJobByID st' (jID job) = Some (updated_row ?job row)" by (auto elim!: UpdateJob_row)
  with that waits_later [OF assms(3), of "updated_row ?job row" now r] show thesis by simp
qed

lemma applyActiveStatus_row:
  assumes "applyActiveStatus orc now r st job answer = (nil, st')" and "job_exists st (jID job)"
    and "jState job = StateRemoteActive" and "0 \<le> PollInterval (oWorkers orc)"
  shows "\<exists>row. GetJobByID st' (jID job) = Some row \<and> polled_row orc now job (Inr answer) row"
proof (cases answer)
  case None
  with assms show ?thesis by (auto simp: applyActiveStatus_def polled_row_def elim!: poll_later_row)
next
  case (Some status)
  let ?job = "with_status orc now job status"
  note f = with_status_fields [of orc now job status]
  consider "tsDownloadReady status" | "\<not> tsDownloadReady status" "tsFailed status \<or> tsInactive status"
    | "\<not> tsDownloadReady status" "\<not> (tsFailed status \<or> tsInactive status)" by blast
  then show ?thesis
  proof cases
    case 1
    with Some assms(1) obtain row where "GetJobByID st' (jID job) = Some (updated_row
        (?job\<lparr>jNextRunAt := Some now, jErrorMessage := None, jQueuedID := None, jState := StateLocalDownloadPending, jUpdatedAt := now\<rparr>) row)"
      by (auto simp: applyActiveStatus_def Let_def f elim!: returning_row)
    with 1 Some f show ?thesis by (simp add: polled_row_def)
  next
    case 2
    with Some assms(1) obtain row where "GetJobByID st' (jID job) = Some (updated_row
        (?job\<lparr>jErrorMessage := Some (failure_text status), jNextRunAt := None, jState := StateRemoteFailed, jUpdatedAt := now\<rparr>) row)"
      by (auto simp: applyActiveStatus_def Let_def f elim!: returning_row)
    with 2 Some f show ?thesis by (simp add: polled_row_def)
  next
    case 3
    let ?job2 = "?job\<lparr>jNextRunAt := Some (now + withJitter r (PollInterval (oWorkers orc)))\<rparr>"
    have "fst (UpdateJob st ?job2) = nil" "job_exists st (jID ?job2)" "st' = snd (UpdateJob st ?job2)"
      using 3 Some assms by (simp_all add: applyActiveStatus_def Let_def f)
    then obtain row where "GetJobByID st' (jID job) = Some (updated_row ?job2 row)" by (auto simp: f elim!: UpdateJob_row)
    moreover have "waits orc now (updated_row ?job2 row)" by (rule waits_later [OF assms(4), of _ _ r]) simp
    ultimately show ?thesis using 3 Some f assms(3) by (simp add: polled_row_def)
  qed
qed

text \<open>
  C16. Polling an active job follows the status: ready content hands the job to the downloader at
  once, whatever else the status says; a failed or inactive task, or a permanent error, ends the
  job with no further run; in every other case the job stays active and runs again after one
  interval with a jitter of at most a fifth. The count of bytes done never goes back.
\<close>

theorem poll_follows_status:
  assumes "processPollJob orc tb now r st job = (nil, st')" and "job_exists st (jID job)"
    and "jState job = StateRemoteActive" and "jRemoteID job = Some i" and "0 \<le> PollInterval (oWorkers orc)"
  shows "\<exists>row. GetJobByID st' (jID job) = Some row \<and>
    polled_row orc now job (GetTaskStatus tb (source_text (jSourceType job)) i) row"
proof (cases "GetTaskStatus tb (source_text (jSourceType job)) i")
  case (Inl e)
  show ?thesis
  proof (cases "IsRetryable (Some e)")
    case True
    with Inl assms show ?thesis by (auto simp: processPollJob_def polled_row_def elim!: poll_later_row)
  next
    case False
    with Inl assms(1,3,4) obtain row where "GetJobByID st' (jID job) = Some (updated_row
        (job\<lparr>jErrorMessage := Some (Error e), jNextRunAt := None, jUpdatedAt := now, jState := StateRemoteFailed, jUpdatedAt := now\<rparr>) row)"
      by (auto simp: processPollJob_def poll_failed_def elim!: returning_row)
    with Inl False show ?thesis by (simp add: polled_row_def)
  qed
next
  case (Inr answer)
  with assms applyActiveStatus_row [OF _ assms(2,3,5), of now r answer st'] show ?thesis
    by (simp add: processPollJob_def)
qed

theorem poll_follows_status_witness:
  "\<exists>st' row. processPollJob sample_orc (silent\<lparr>GetTaskStatus := \<lambda>_ _. Inr (Some sample_status)\<rparr>) 9 0
       (sample_store StateRemoteActive) (sample_job StateRemoteActive) = (nil, st') \<and>
     GetJobByID st' ''0a1b'' = Some row \<and> jState row = StateLocalDownloadPending \<and> jBytesDone row = 4"
proof -
  let ?run = "processPollJob sample_orc (silent\<lparr>GetTaskStatus := \<lambda>_ _. Inr (Some sample_status)\<rparr>) 9 0
      (sample_store StateRemoteActive) (sample_job StateRemoteActive)"
  have "fst ?run = nil" by code_simp
  then have run: "?run = (nil, snd ?run)" by (metis prod.collapse)
  show ?thesis
    using poll_follows_status [OF run] run by (auto simp: polled_row_def sample_status_def)
qed



end
