(* ===== verification/Range_Downloader.thy ===== *)
theory Range_Downloader
  imports Layout_Facts Job_Model
begin

text \<open>
  The downloader of \<open>internal/files/downloader.go\<close>: one part, from a URL into its file, resumed
  with a range request when the file is there already. The HTTP client is a record of two
  functions: what \<open>http.NewRequest\<close> says of a URL, and what the server answers to the URL and the
  start of the range (0: no range header). A body is the list of its reads and the error that ends
  it (nil: EOF). The progress callback works on the part and on a state of its caller.
\<close>

record http_response =
  rsStatusCode :: int
  rsContentLength :: int
  rsContentRange :: string
  rsETag :: string
  rsReads :: "string list"
  rsEnd :: err

record http_client =
  hcNewRequest :: "string \<Rightarrow> err"
  hcDo :: "string \<Rightarrow> int \<Rightarrow> go_error + http_response"

type_synonym 'w progress = "int \<Rightarrow> int \<Rightarrow> transfer_part \<times> 'w \<Rightarrow> err \<times> transfer_part \<times> 'w"

definition downloadNotifyEvery :: int where "downloadNotifyEvery = 1048576"

section \<open>The total size\<close>

text \<open>What follows the last slash, when there is a slash and something follows it.\<close>

definition after_last_slash :: "string \<Rightarrow> string option" where
  "after_last_slash s =
     (let tail = takeWhile (\<lambda>c. c \<noteq> slash) (rev s) in
      if slash \<in> set s \<and> tail \<noteq> [] then Some (rev tail) else None)"

definition contentLength :: "http_response \<Rightarrow> int \<Rightarrow> int" where
  "contentLength resp existing =
     (let declared = (if rsStatusCode resp = 206 \<and> rsContentRange resp \<noteq> []
                      then (case after_last_slash (rsContentRange resp) of None \<Rightarrow> None | Some t \<Rightarrow> ParseInt t)
                      else None)
      in case declared of
           Some parsed \<Rightarrow> parsed
         | None \<Rightarrow> if 0 < rsContentLength resp then wrap64 (existing + rsContentLength resp) else 0)"

section \<open>The transfer\<close>

text \<open>The state of the copy loop: the part and the caller's state, the file tree, the counters.\<close>

record 'w transfer =
  tfOut :: "transfer_part \<times> 'w"
  tfFS :: fs
  tfCurrent :: int
  tfSinceNotify :: int
  tfSentFirst :: bool

fun copy_loop :: "'w progress \<Rightarrow> string \<Rightarrow> int \<Rightarrow> err \<Rightarrow> string list \<Rightarrow> 'w transfer \<Rightarrow> err \<times> 'w transfer" where
  "copy_loop progress path tot end [] t =
     (case end of
        None \<Rightarrow> (nil, t)
      | Some e \<Rightarrow> (Some (ErrWrap ''read response body'' e), t))"
| "copy_loop progress path tot end (bytes # reads) t =
     (if bytes = [] then copy_loop progress path tot end reads t
      else case WriteFile (tfFS t) path bytes of
        (Some e, fs') \<Rightarrow> (Some (ErrWrap ''write temp file'' (path_error ''write'' path e)), t\<lparr>tfFS := fs'\<rparr>)
      | (None, fs') \<Rightarrow>
          let n = int (length bytes);
              current = tfCurrent t + n;
              since = tfSinceNotify t + n;
              (part, w) = tfOut t;
              part = part\<lparr>pBytesDone := current\<rparr>
          in if \<not> tfSentFirst t \<or> downloadNotifyEvery \<le> since
             then (case progress current tot (part, w) of
                (Some e, out) \<Rightarrow>
                  (Some e, t\<lparr>tfOut := out, tfFS := fs', tfCurrent := current, tfSinceNotify := since\<rparr>)
              | (None, out) \<Rightarrow>
                  copy_loop progress path tot end reads
                    (t\<lparr>tfOut := out, tfFS := fs', tfCurrent := current, tfSinceNotify := 0, tfSentFirst := True\<rparr>))
             else copy_loop progress path tot end reads
                    (t\<lparr>tfOut := (part, w), tfFS := fs', tfCurrent := current, tfSinceNotify := since\<rparr>))"

text \<open>From an accepted answer on: open the file, note the ETag and the size, copy, report.\<close>

definition noted :: "http_response \<Rightarrow> int \<Rightarrow> transfer_part \<Rightarrow> transfer_part" where
  "noted resp existing part =
     (let etag = TrimSpace (rsETag resp);
          part = (if etag \<noteq> [] then part\<lparr>pETag := Some etag\<rparr> else part);
          tot = contentLength resp existing
      in if 0 < tot then part\<lparr>pContentLength := tot\<rparr> else part)"

definition receive ::
  "'w progress \<Rightarrow> http_response \<Rightarrow> int \<Rightarrow> transfer_part \<times> 'w \<Rightarrow> fs \<Rightarrow> err \<times> (transfer_part \<times> 'w) \<times> fs" where
  "receive progress resp existingSize out fs =
     (let path = pTempPath (fst out);
          append = 0 < existingSize \<and> rsStatusCode resp = 206;
          existing = (if append then existingSize else 0);
          tot = contentLength resp existing
      in case (if append then (OpenAppend fs path, fs) else CreateTrunc fs path) of
        (Some e, fs1) \<Rightarrow> (Some (ErrWrap ''open temp file'' (path_error ''open'' path e)), out, fs1)
      | (None, fs1) \<Rightarrow>
          (case progress existing tot (noted resp existing (fst out), snd out) of
            (Some e, out) \<Rightarrow> (Some e, out, fs1)
          | (None, out) \<Rightarrow>
              (case copy_loop progress path tot (rsEnd resp) (rsReads resp)
                      \<lparr>tfOut = out, tfFS = fs1, tfCurrent = existing, tfSinceNotify = 0, tfSentFirst = (0 < existing)\<rparr> of
                 (Some e, t) \<Rightarrow> (Some e, tfOut t, tfFS t)
               | (None, t) \<Rightarrow>
                   let (part, w) = tfOut t;
                       part = part\<lparr>pBytesDone := tfCurrent t\<rparr>;
                       part = (if pContentLength part = 0 then part\<lparr>pContentLength := tfCurrent t\<rparr> else part)
                   in case progress (tfCurrent t) (pContentLength part) (part, w) of
                        (e, out) \<Rightarrow> (e, out, tfFS t))))"

definition Download ::
  "http_client \<Rightarrow> 'w progress \<Rightarrow> transfer_part \<times> 'w \<Rightarrow> fs \<Rightarrow> err \<times> (transfer_part \<times> 'w) \<times> fs" where
  "Download http progress out fs =
     (let path = pTempPath (fst out) in
      case MkdirAll fs (Dir path) of
        (Some e, fs1) \<Rightarrow> (Some (ErrWrap ''ensure part directory'' (path_error ''mkdir'' (Dir path) e)), out, fs1)
      | (None, fs1) \<Rightarrow>
          (case (case Stat fs1 path of Inr info \<Rightarrow> Inr (node_size info)
                 | Inl ENOENT \<Rightarrow> Inr 0
                 | Inl e \<Rightarrow> Inl (ErrWrap ''stat temp part'' (path_error ''stat'' path e))) of
             Inl e \<Rightarrow> (Some e, out, fs1)
           | Inr existingSize \<Rightarrow>
               (case hcNewRequest http (pSourceURL (fst out)) of
                  Some e \<Rightarrow> (Some (ErrWrap ''create request'' e), out, fs1)
                | None \<Rightarrow>
                    (case hcDo http (pSourceURL (fst out)) existingSize of
                       Inl e \<Rightarrow> (Some (ErrWrap ''download part'' e), out, fs1)
                     | Inr resp \<Rightarrow>
                         if rsStatusCode resp = 200 \<or> rsStatusCode resp = 206
                         then receive progress resp existingSize out fs1
                         else if rsStatusCode resp = 416
                         then
                           let (part, w) = out;
                               part = part\<lparr>pBytesDone := existingSize\<rparr>;
                               part = (if pContentLength part = 0 then part\<lparr>pContentLength := existingSize\<rparr> else part)
                           in case progress (pBytesDone part) (pContentLength part) (part, w) of
                                (e, out) \<Rightarrow> (e, out, fs1)
                         else (Some (HTTPStatusError (rsStatusCode resp)), out, fs1)))))"

section \<open>What is on disk\<close>

lemma WriteFile_result:
  assumes "node_at fs (at fs p) = Some (FileNode d)"
  shows "WriteFile fs p bytes = (Some EIO, fs) \<or>
    WriteFile fs p bytes = (None, put_node (at fs p) (FileNode (d @ bytes)) fs) \<and> at fs p \<noteq> []"
proof -
  have "at fs p \<noteq> []" using assms by (auto simp: node_at_def)
  with assms show ?thesis by (auto simp: WriteFile_def)
qed

text \<open>One read: the write fails, the callback fails, or the loop goes on with the bytes written.\<close>

lemma copy_loop_step:
  assumes "copy_loop progress p tot end (bytes # reads) t = (e, t')" "bytes \<noteq> []"
    and "WriteFile (tfFS t) p bytes = (None, fs')"
  shows "(e \<noteq> nil \<and> tfFS t' = fs') \<or>
    (\<exists>t1. tfFS t1 = fs' \<and> tfCurrent t1 = tfCurrent t + int (length bytes) \<and>
       copy_loop progress p tot end reads t1 = (e, t'))"
  using assms by (auto simp: Let_def split: prod.splits option.splits if_splits)

text \<open>
  However the copy ends, the file has grown by a beginning of what the server sent; when it ends
  without an error, by all of it, and the count of the loop is the size of the file.
\<close>

lemma copy_loop_file:
  assumes "node_at (tfFS t) (at (tfFS t) p) = Some (FileNode d)" and "tfCurrent t = int (length d)"
    and "copy_loop progress p tot end reads t = (e, t')"
  shows "fsCwd (tfFS t') = fsCwd (tfFS t) \<and> (\<exists>s. prefix s (concat reads) \<and>
    node_at (tfFS t') (at (tfFS t) p) = Some (FileNode (d @ s)) \<and>
    (e = nil \<longrightarrow> s = concat reads \<and> end = nil \<and> tfCurrent t' = int (length (d @ s))))"
  using assms
proof (induction reads arbitrary: d t)
  case Nil
  then show ?case by (auto split: option.splits)
next
  case (Cons bytes reads)
  show ?case
  proof (cases "bytes = []")
    case True
    with Cons show ?thesis by simp
  next
    case False
    let ?fs = "put_node (at (tfFS t) p) (FileNode (d @ bytes)) (tfFS t)"
    have here: "at ?fs p = at (tfFS t) p" by (simp add: at_def)
    consider (io) "WriteFile (tfFS t) p bytes = (Some EIO, tfFS t)"
      | (ok) "WriteFile (tfFS t) p bytes = (None, ?fs)" "at (tfFS t) p \<noteq> []"
      using WriteFile_result [OF Cons.prems(1)] by blast
    then show ?thesis
    proof cases
      case io
      with False Cons.prems(3) have "e \<noteq> nil" "tfFS t' = tfFS t" by auto
      then show ?thesis using Cons.prems(1) by (intro conjI exI [of _ "[]"]) auto
    next
      case ok
      have node: "node_at ?fs (at ?fs p) = Some (FileNode (d @ bytes))" using ok(2) by (simp add: here node_at_put)
      from copy_loop_step [OF Cons.prems(3) False ok(1)] show ?thesis
      proof
        assume "e \<noteq> nil \<and> tfFS t' = ?fs"
        then show ?thesis using node here by (intro conjI exI [of _ bytes]) auto
      next
        assume "\<exists>t1. tfFS t1 = ?fs \<and> tfCurrent t1 = tfCurrent t + int (length bytes) \<and>
          copy_loop progress p tot end reads t1 = (e, t')"
        then obtain t1 where t1: "tfFS t1 = ?fs" "tfCurrent t1 = int (length (d @ bytes))"
          "copy_loop progress p tot end reads t1 = (e, t')" using Cons.prems(2) by auto
        from Cons.IH [OF _ t1(2,3)] node obtain s where s: "fsCwd (tfFS t') = fsCwd ?fs" "prefix s (concat reads)"
          "node_at (tfFS t') (at ?fs p) = Some (FileNode ((d @ bytes) @ s))"
          "e = nil \<longrightarrow> s = concat reads \<and> end = nil \<and> tfCurrent t' = int (length ((d @ bytes) @ s))"
          by (auto simp: t1(1))
        then show ?thesis using here by (intro conjI exI [of _ "bytes @ s"]) auto
      qed
    qed
  qed
qed

lemma mkdirs_existing: "node_at fs k = Some n \<Longrightarrow> node_at (snd (mkdirs fs seen cs)) k = Some n"
proof (induction fs seen cs rule: mkdirs.induct)
  case (2 fs seen c cs)
  have "node_at (put_node (seen @ [c]) DirNode fs) k = Some n" if "node_at fs (seen @ [c]) = None"
    using 2(3) that by (cases "k = seen @ [c]") (simp_all add: fs_simps)
  with 2 show ?case by (simp add: Let_def split: option.splits node.splits)
qed simp

lemma MkdirAll_existing: "node_at fs k = Some n \<Longrightarrow> MkdirAll fs p = (e, fs') \<Longrightarrow> node_at fs' k = Some n"
  using mkdirs_existing [of fs k n "[]" "at fs p"] by (auto simp: MkdirAll_def split: if_splits)

text \<open>A callback that writes down the count it is told.\<close>

definition counts :: "'w progress \<Rightarrow> bool" where
  "counts progress \<longleftrightarrow> (\<forall>done tot out out'. progress done tot out = (nil, out') \<longrightarrow> pBytesDone (fst out') = done)"

lemma countsD: "counts progress \<Longrightarrow> progress done tot out = (nil, out') \<Longrightarrow> pBytesDone (fst out') = done"
  unfolding counts_def by blast

lemma counts_done: "counts progress \<Longrightarrow> fst (progress done tot out) = nil \<Longrightarrow> pBytesDone (fst (snd (progress done tot out))) = done"
  using countsD [of progress "done" tot out "snd (progress done tot out)"] by (metis prod.collapse)

text \<open>What \<open>receive\<close> leaves in the file that held \<open>d\<close>: appended to it, or written from scratch.\<close>

lemma receive_file:
  assumes "receive progress resp (int (length d)) out fs = (e, out', fs')"
    and "node_at fs (at fs p) = Some (FileNode d)" and "p = pTempPath (fst out)"
  defines "base \<equiv> if d \<noteq> [] \<and> rsStatusCode resp = 206 then d else []"
  shows "\<exists>s. node_at fs' (at fs p) = Some (FileNode s) \<and>
    (s = d \<or> (\<exists>r. s = base @ r \<and> prefix r (concat (rsReads resp)))) \<and>
    (e = nil \<longrightarrow> s = base @ concat (rsReads resp) \<and> rsEnd resp = nil \<and> (counts progress \<longrightarrow> pBytesDone (fst out') = int (length s)))"
proof -
  have root: "at fs p \<noteq> []" using assms(2) by (auto simp: node_at_def)
  define append where "append \<longleftrightarrow> 0 < int (length d) \<and> rsStatusCode resp = 206"
  have base: "base = (if append then d else [])" by (simp add: base_def append_def)
  obtain oe fs1 where open_eq: "(if append then (OpenAppend fs p, fs) else CreateTrunc fs p) = (oe, fs1)" by fastforce
  have opened: "fsCwd fs1 = fsCwd fs \<and> (oe = None \<longrightarrow> node_at fs1 (at fs p) = Some (FileNode base)) \<and>
      (oe \<noteq> None \<longrightarrow> node_at fs1 (at fs p) = Some (FileNode d))"
    using open_eq CreateTrunc_tree [of fs p] assms(2) root op_cwd(2) [of fs p]
    by (auto simp: base fs_simps CreateTrunc_def Let_def split: if_splits option.splits)
  have here: "at fs1 p = at fs p" using opened by (simp add: at_def)
  show ?thesis
  proof (cases oe)
    case (Some x)
    with assms(1,3) open_eq have "e \<noteq> nil" "fs' = fs1"
      by (auto simp: receive_def Let_def append_def)
    with Some opened show ?thesis by auto
  next
    case None
    obtain pe out1 where pr: "progress (int (length base)) (contentLength resp (int (length base))) (noted resp (int (length base)) (fst out), snd out) = (pe, out1)"
      by (rule prod.exhaust)
    let ?t = "\<lparr>tfOut = out1, tfFS = fs1, tfCurrent = int (length base), tfSinceNotify = 0, tfSentFirst = (0 < int (length base))\<rparr>"
    obtain ce t' where cl: "copy_loop progress p (contentLength resp (int (length base))) (rsEnd resp) (rsReads resp) ?t = (ce, t')"
      by fastforce
    have "node_at (tfFS ?t) (at (tfFS ?t) p) = Some (FileNode base)" using opened None here by simp
    from copy_loop_file [OF this _ cl] obtain r where r: "fsCwd (tfFS t') = fsCwd fs1" "prefix r (concat (rsReads resp))"
      "node_at (tfFS t') (at fs p) = Some (FileNode (base @ r))"
      "ce = nil \<longrightarrow> r = concat (rsReads resp) \<and> rsEnd resp = nil \<and> tfCurrent t' = int (length (base @ r))"
      by (auto simp: here)
    have run: "receive progress resp (int (length d)) out fs = (case pe of
         Some e \<Rightarrow> (Some e, out1, fs1)
       | None \<Rightarrow> (case ce of Some e \<Rightarrow> (Some e, tfOut t', tfFS t')
           | None \<Rightarrow> (let (part, w) = tfOut t'; part = part\<lparr>pBytesDone := tfCurrent t'\<rparr>;
                 part = (if pContentLength part = 0 then part\<lparr>pContentLength := tfCurrent t'\<rparr> else part)
               in case progress (tfCurrent t') (pContentLength part) (part, w) of (e, out) \<Rightarrow> (e, out, tfFS t'))))"
    proof -
      have "if append then OpenAppend fs p = None \<and> fs1 = fs else CreateTrunc fs p = (None, fs1)"
        using open_eq None by (cases append) auto
      then show ?thesis
        using pr cl unfolding receive_def assms(3) [symmetric] append_def [symmetric] base
        by (cases append)
          (simp_all only: Let_def if_True if_False prod.case option.case of_nat_0 list.size conj_imp_eq_imp_imp simp_thms)
    qed
    show ?thesis
    proof (cases "pe = nil \<and> ce = nil")
      case False
      with run assms(1) have "e \<noteq> nil" "fs' = fs1 \<or> fs' = tfFS t'" by (auto split: option.splits)
      then show ?thesis using r opened None by auto
    next
      case True
      with run assms(1) have "fs' = tfFS t'" "counts progress \<longrightarrow> e = nil \<longrightarrow> pBytesDone (fst out') = tfCurrent t'"
        by (auto simp: Let_def case_prod_beta split: prod.splits intro: counts_done)
      then show ?thesis using r True by auto
    qed
  qed
qed

text \<open>What the file should hold: a partial answer extends it, a full one replaces it, another leaves it.\<close>

definition answered :: "string \<Rightarrow> http_response \<Rightarrow> string" where
  "answered d resp =
     (if rsStatusCode resp = 206 \<and> d \<noteq> [] then d @ concat (rsReads resp)
      else if rsStatusCode resp = 206 \<or> rsStatusCode resp = 200 then concat (rsReads resp)
      else d)"

text \<open>
  C9. Resuming a download loses nothing. Where the part's file holds the bytes d and the server
  answers the range request from there on, the file afterwards is d extended by a beginning of what
  was sent (206), a beginning of what was sent (200: the server does not resume), or d itself; and
  when the download reports success it is the whole answer, and the part's count of bytes done,
  which decides whether the part is complete, is the size of the file.
\<close>

theorem download_resumes:
  assumes "fs_wf fs" and "Stat fs (pTempPath (fst out)) = Inr (FileNode d)"
    and "hcDo http (pSourceURL (fst out)) (int (length d)) = Inr resp"
    and "counts progress"
    and "Download http progress out fs = (e, out', fs')"
  shows "\<exists>s. node_at fs' (at fs (pTempPath (fst out))) = Some (FileNode s) \<and>
    (s = d \<or> prefix s (answered d resp) \<and> (rsStatusCode resp = 206 \<longrightarrow> prefix d s)) \<and>
    (e = nil \<longrightarrow> s = answered d resp \<and> pBytesDone (fst out') = int (length s))"
proof -
  let ?p = "pTempPath (fst out)"
  note node = Stat_node [OF assms(2)]
  obtain me fs1 where m: "MkdirAll fs (Dir ?p) = (me, fs1)" by fastforce
  have fs1: "fs_wf fs1" "at fs1 ?p = at fs ?p" "node_at fs1 (at fs ?p) = Some (FileNode d)"
    "at fs1 ?p \<notin> set (fsFaults fs1)"
    using MkdirAll_facts(1) [OF assms(1), of "Dir ?p"] MkdirAll_facts(2) [of fs "Dir ?p"] op_cwd(1) [of fs "Dir ?p"]
      MkdirAll_existing [OF conjunct1 [OF node] m] node by (simp_all add: m at_def)
  then have st: "Stat fs1 ?p = Inr (FileNode d)" using Stat_iff [OF fs1(1) _ fs1(4)] node by simp
  note run = assms(5) [unfolded Download_def Let_def m prod.case st sum.case node_size.simps assms(3)]
  consider (early) "e \<noteq> nil" "fs' = fs1"
    | (got) "rsStatusCode resp = 200 \<or> rsStatusCode resp = 206" "receive progress resp (int (length d)) out fs1 = (e, out', fs')"
    | (full) "rsStatusCode resp = 416" "fs' = fs1" "e = nil \<longrightarrow> pBytesDone (fst out') = int (length d)"
  proof (cases "me = None \<and> hcNewRequest http (pSourceURL (fst out)) = None")
    case True
    note run = run [unfolded conjunct1 [OF True] conjunct2 [OF True] option.case]
    show thesis
    proof (cases "rsStatusCode resp = 200 \<or> rsStatusCode resp = 206")
      case True
      with run show thesis by (intro got) simp_all
    next
      case False
      with run early full counts_done [OF assms(4)] show thesis
        by (simp add: case_prod_beta split: if_splits) blast+
    qed
  qed (use run early in \<open>auto split: option.splits\<close>)
  then show ?thesis
  proof cases
    case got
    from receive_file [OF got(2) fs1(3) [folded fs1(2)] refl] assms(4) got(1) show ?thesis
      by (auto simp: fs1(2) answered_def split: if_splits)
  qed (use fs1(3) in \<open>auto simp: answered_def\<close>)
qed

definition plain_progress :: "unit progress" where
  "plain_progress bytes tot out = (nil, (fst out)\<lparr>pBytesDone := bytes\<rparr>, snd out)"

lemma plain_progress_counts: "counts plain_progress"
  by (auto simp: counts_def plain_progress_def)

definition sample_part :: transfer_part where
  "sample_part = \<lparr>pID = 1, pJobID = ''0a1b'', pPartKey = ''p'', pFileID = None, pSourceURL = ''u'',
     pTempPath = ''/data/staging/0a1b/f.mkv'', pRelativePath = ''f.mkv'', pContentLength = 5, pBytesDone = 0,
     pETag = None, pCompleted = False, pCreatedAt = 0, pUpdatedAt = 0\<rparr>"

definition sample_http :: http_client where
  "sample_http = \<lparr>hcNewRequest = \<lambda>_. nil,
     hcDo = \<lambda>_ start. Inr \<lparr>rsStatusCode = 206, rsContentLength = 2, rsContentRange = ''bytes 3-4/5'', rsETag = [],
       rsReads = [''a'', ''b''], rsEnd = nil\<rparr>\<rparr>"

theorem download_resumes_witness:
  "\<exists>out fs. Download sample_http plain_progress (sample_part, ()) sample_tree = (nil, out, fs) \<and>
     node_at fs [''data'', ''staging'', ''0a1b'', ''f.mkv''] = Some (FileNode ''xyzab'') \<and> pBytesDone (fst out) = 5"
proof -
  let ?run = "Download sample_http plain_progress (sample_part, ()) sample_tree"
  have "fst ?run = nil" by code_simp
  then have run: "?run = (nil, fst (snd ?run), snd (snd ?run))" by (metis prod.collapse)
  have held: "Stat sample_tree (pTempPath (fst (sample_part, ()))) = Inr (FileNode ''xyz'')"
    and place: "at sample_tree (pTempPath (fst (sample_part, ()))) = [''data'', ''staging'', ''0a1b'', ''f.mkv'']"
    by code_simp+
  have sent: "hcDo sample_http u n = Inr \<lparr>rsStatusCode = 206, rsContentLength = 2, rsContentRange = ''bytes 3-4/5'',
      rsETag = [], rsReads = [''a'', ''b''], rsEnd = nil\<rparr>" for u n
    by (simp add: sample_http_def)
  from download_resumes [OF sample_tree_wf held sent plain_progress_counts run]
  have "node_at (snd (snd ?run)) [''data'', ''staging'', ''0a1b'', ''f.mkv''] = Some (FileNode ''xyzab'') \<and>
    pBytesDone (fst (fst (snd ?run))) = 5"
    unfolding place by (auto simp: answered_def)
  with run show ?thesis by (intro exI conjI; blast)
qed

section \<open>Where a download writes\<close>

context fs_contract begin

lemma copy_loop_keeps:
  "I (tfFS t) \<Longrightarrow> P (tfFS t) p \<Longrightarrow> I (tfFS (snd (copy_loop progress p tot end reads t))) \<and>
   fsCwd (tfFS (snd (copy_loop progress p tot end reads t))) = fsCwd (tfFS t)"
proof (induction reads arbitrary: t)
  case (Cons bytes reads)
  show ?case
  proof (cases "bytes = []")
    case False
    obtain we fs' where w: "WriteFile (tfFS t) p bytes = (we, fs')" by fastforce
    have k: "I fs' \<and> fsCwd fs' = fsCwd (tfFS t)" by (rule write_keepsI [OF Cons.prems w])
    then have "P fs' p" using path_cong Cons.prems(2) by blast
    note ih = Cons.IH [of "t\<lparr>tfOut := out, tfFS := fs', tfCurrent := c, tfSinceNotify := n, tfSentFirst := f\<rparr>" for out c n f]
      Cons.IH [of "t\<lparr>tfOut := out, tfFS := fs', tfCurrent := c, tfSinceNotify := n\<rparr>" for out c n]
    show ?thesis using False w k \<open>P fs' p\<close> ih by (auto simp: Let_def split: option.splits prod.splits)
  qed (use Cons in simp)
qed (simp split: option.split)

lemma receive_keeps:
  assumes "I fs" and "P fs (pTempPath (fst out))"
  shows "I (snd (snd (receive progress resp n out fs))) \<and> fsCwd (snd (snd (receive progress resp n out fs))) = fsCwd fs"
proof -
  let ?p = "pTempPath (fst out)"
  define append where "append \<longleftrightarrow> 0 < n \<and> rsStatusCode resp = 206"
  obtain oe fs1 where op: "(if append then (OpenAppend fs ?p, fs) else CreateTrunc fs ?p) = (oe, fs1)" by (rule prod.exhaust)
  have 1: "I fs1" "fsCwd fs1 = fsCwd fs"
  proof -
    have "fs1 = fs \<or> CreateTrunc fs ?p = (oe, fs1)" using op by (metis prod.inject)
    then show "I fs1" "fsCwd fs1 = fsCwd fs" using assms(1) create_keepsI [OF assms] by blast+
  qed
  have "P fs1 ?p" using path_cong [OF assms(2) 1(2)] .
  let ?start = "if append then n else 0"
  obtain pe out1 where pr: "progress ?start (contentLength resp ?start) (noted resp ?start (fst out), snd out) = (pe, out1)"
    by (rule prod.exhaust)
  obtain ce t where cl: "copy_loop progress ?p (contentLength resp ?start) (rsEnd resp) (rsReads resp)
      \<lparr>tfOut = out1, tfFS = fs1, tfCurrent = ?start, tfSinceNotify = 0, tfSentFirst = (0 < ?start)\<rparr> = (ce, t)"
    by (rule prod.exhaust)
  have t: "I (tfFS t) \<and> fsCwd (tfFS t) = fsCwd fs1"
    using copy_loop_keeps [of "\<lparr>tfOut = out1, tfFS = fs1, tfCurrent = ?start, tfSinceNotify = 0, tfSentFirst = (0 < ?start)\<rparr>" ?p]
      cl 1(1) \<open>P fs1 ?p\<close> by (metis snd_conv transfer.select_convs(2))
  have "snd (snd (receive progress resp n out fs)) \<in> {fs1, tfFS t}"
    unfolding receive_def append_def [symmetric] Let_def op prod.case pr
    by (cases oe; cases pe; cases ce) (simp_all add: cl case_prod_beta)
  with 1 t show ?thesis by auto
qed

text \<open>A download creates the directory of its file and writes the file.\<close>

lemma Download_keeps:
  assumes "I fs" and "P fs (pTempPath (fst out))" and "prefix (at fs (Dir (pTempPath (fst out)))) (at fs (pTempPath (fst out)))"
  shows "I (snd (snd (Download http progress out fs))) \<and> fsCwd (snd (snd (Download http progress out fs))) = fsCwd fs"
proof -
  obtain me fs1 where m: "MkdirAll fs (Dir (pTempPath (fst out))) = (me, fs1)" by (rule prod.exhaust)
  have 1: "I fs1 \<and> fsCwd fs1 = fsCwd fs" by (rule parent_keepsI [OF assms m])
  with receive_keeps [of fs1 out progress] path_cong [OF assms(2)] show ?thesis
    unfolding Download_def Let_def m by (auto simp: case_prod_beta split: option.splits sum.splits errno.splits)
qed

end

section \<open>The callback\<close>

text \<open>How a download ends: early, in \<open>receive\<close>, or with the callback of a complete file (416).\<close>

lemma Download_cases:
  assumes "Download http progress out fs = (e, out', fs')"
  shows "(e \<noteq> nil \<and> out' = out) \<or> (\<exists>resp n fs1. receive progress resp n out fs1 = (e, out', fs')) \<or>
    (\<exists>part m tot. pJobID part = pJobID (fst out) \<and> pPartKey part = pPartKey (fst out) \<and>
       pTempPath part = pTempPath (fst out) \<and> pSourceURL part = pSourceURL (fst out) \<and>
       pRelativePath part = pRelativePath (fst out) \<and> pCompleted part = pCompleted (fst out) \<and>
       progress m tot (part, snd out) = (e, out'))"
proof -
  obtain me fs1 where m: "MkdirAll fs (Dir (pTempPath (fst out))) = (me, fs1)" by (rule prod.exhaust)
  define size where "size = (case Stat fs1 (pTempPath (fst out)) of Inr info \<Rightarrow> Inr (node_size info)
      | Inl ENOENT \<Rightarrow> Inr 0 | Inl e \<Rightarrow> Inl (ErrWrap ''stat temp part'' (path_error ''stat'' (pTempPath (fst out)) e)))"
  note run = assms [unfolded Download_def Let_def m prod.case size_def [symmetric]]
  consider "e \<noteq> nil" "out' = out" | n resp where "receive progress resp n out fs1 = (e, out', fs')"
    | n part tot where "part = (fst out)\<lparr>pBytesDone := n\<rparr> \<or> part = (fst out)\<lparr>pBytesDone := n, pContentLength := n\<rparr>"
        "progress n tot (part, snd out) = (e, out')"
  proof (cases "me = None \<and> hcNewRequest http (pSourceURL (fst out)) = None \<and> (\<exists>n. size = Inr n)")
    case True
    then obtain n where n: "size = Inr n" by blast
    note run = run [unfolded conjunct1 [OF True] conjunct1 [OF conjunct2 [OF True]] n option.case sum.case]
    show thesis
    proof (cases "hcDo http (pSourceURL (fst out)) n")
      case (Inl x)
      with run have "e \<noteq> nil" "out' = out" by auto
      then show thesis by (rule that(1))
    next
      case (Inr resp)
      note run = run [unfolded Inr sum.case]
      consider "rsStatusCode resp = 200 \<or> rsStatusCode resp = 206" | "rsStatusCode resp = 416"
        | "rsStatusCode resp \<notin> {200, 206, 416}" by auto
      then show thesis
      proof cases
        case 1
        with run that(2) show thesis by simp
      next
        case 2
        have "\<exists>part tot. (part = (fst out)\<lparr>pBytesDone := n\<rparr> \<or> part = (fst out)\<lparr>pBytesDone := n, pContentLength := n\<rparr>) \<and>
            progress n tot (part, snd out) = (e, out')"
        proof (cases "pContentLength (fst out) = 0")
          case True
          with run 2 have "progress n n ((fst out)\<lparr>pBytesDone := n, pContentLength := n\<rparr>, snd out) = (e, out')"
            by (auto simp: case_prod_beta prod_eq_iff)
          then show ?thesis by blast
        next
          case False
          with run 2 have "progress n (pContentLength (fst out)) ((fst out)\<lparr>pBytesDone := n\<rparr>, snd out) = (e, out')"
            by (auto simp: case_prod_beta prod_eq_iff)
          then show ?thesis by blast
        qed
        then show thesis using that(3) by blast
      next
        case 3
        with run have "e \<noteq> nil" "out' = out" by auto
        then show thesis by (rule that(1))
      qed
    qed
  next
    case False
    with run that(1) show thesis by (auto split: option.splits sum.splits)
  qed
  then show ?thesis
  proof cases
    case (3 n part tot)
    then show ?thesis by (intro disjI2 exI [of _ part] exI [of _ n] exI [of _ tot] conjI) auto
  qed blast+
qed

text \<open>
  What a caller may rely on: a property of the part and of its own state that survives the
  downloader's changes of the part and every callback that reports no error still holds after the
  download, unless the error the download returns is the callback's.
\<close>

locale progress_contract =
  fixes Q :: "transfer_part \<times> 'w \<Rightarrow> bool" and R :: "go_error \<Rightarrow> transfer_part \<times> 'w \<Rightarrow> bool"
    and progress :: "'w progress"
  assumes part_keeps: "Q out \<Longrightarrow> pJobID part = pJobID (fst out) \<Longrightarrow> pPartKey part = pPartKey (fst out) \<Longrightarrow>
      pTempPath part = pTempPath (fst out) \<Longrightarrow> pSourceURL part = pSourceURL (fst out) \<Longrightarrow>
      pRelativePath part = pRelativePath (fst out) \<Longrightarrow> pCompleted part = pCompleted (fst out) \<Longrightarrow> Q (part, snd out)"
    and call_keeps: "Q out \<Longrightarrow> progress n tot out = (nil, out') \<Longrightarrow> Q out'"
    and call_stops: "Q out \<Longrightarrow> progress n tot out = (Some e, out') \<Longrightarrow> R e out'"
begin

lemma copy_loop_out:
  "Q (tfOut t) \<Longrightarrow> copy_loop progress p tot end reads t = (e, t') \<Longrightarrow>
   Q (tfOut t') \<or> (\<exists>x. e = Some x \<and> R x (tfOut t'))"
proof (induction reads arbitrary: t)
  case (Cons bytes reads)
  show ?case
  proof (cases "bytes = []")
    case False
    obtain we fs' where w: "WriteFile (tfFS t) p bytes = (we, fs')" by (rule prod.exhaust)
    let ?cur = "tfCurrent t + int (length bytes)"
    let ?part = "(fst (tfOut t))\<lparr>pBytesDone := ?cur\<rparr>"
    have q: "Q (?part, snd (tfOut t))" using Cons.prems(1) by (rule part_keeps) simp_all
    obtain pe out where pr: "progress ?cur tot (?part, snd (tfOut t)) = (pe, out)" by (rule prod.exhaust)
    show ?thesis
    proof (cases we)
      case (Some x)
      with Cons.prems False w show ?thesis by auto
    next
      case None
      show ?thesis
      proof (cases "\<not> tfSentFirst t \<or> downloadNotifyEvery \<le> tfSinceNotify t + int (length bytes)")
        case True
        with Cons.prems(2) False w None pr have *: "(case pe of
            Some x \<Rightarrow> (Some x, t\<lparr>tfOut := out, tfFS := fs', tfCurrent := ?cur, tfSinceNotify := tfSinceNotify t + int (length bytes)\<rparr>)
          | None \<Rightarrow> copy_loop progress p tot end reads
              (t\<lparr>tfOut := out, tfFS := fs', tfCurrent := ?cur, tfSinceNotify := 0, tfSentFirst := True\<rparr>)) = (e, t')"
          by (simp add: Let_def case_prod_beta)
        show ?thesis
        proof (cases pe)
          case None
          with call_keeps [OF q] pr have "Q out" by simp
          then show ?thesis using * None Cons.IH [of "t\<lparr>tfOut := out, tfFS := fs', tfCurrent := ?cur,
              tfSinceNotify := 0, tfSentFirst := True\<rparr>"] by simp
        next
          case (Some x)
          with call_stops [OF q] pr have "R x out" by simp
          with Some * show ?thesis by auto
        qed
      next
        case late: False
        with Cons.prems(2) False w None have "copy_loop progress p tot end reads
            (t\<lparr>tfOut := (?part, snd (tfOut t)), tfFS := fs', tfCurrent := ?cur, tfSinceNotify := tfSinceNotify t + int (length bytes)\<rparr>) = (e, t')"
          by (simp add: Let_def case_prod_beta)
        then show ?thesis using q Cons.IH [of "t\<lparr>tfOut := (?part, snd (tfOut t)), tfFS := fs',
            tfCurrent := ?cur, tfSinceNotify := tfSinceNotify t + int (length bytes)\<rparr>"] by simp
      qed
    qed
  qed (use Cons in simp)
qed (auto split: option.splits)

lemma receive_out:
  assumes "Q out" and "receive progress resp n out fs = (e, out', fs')"
  shows "Q out' \<or> (\<exists>x. e = Some x \<and> R x out')"
proof -
  let ?p = "pTempPath (fst out)"
  define append where "append \<longleftrightarrow> 0 < n \<and> rsStatusCode resp = 206"
  obtain oe fs1 where op: "(if append then (OpenAppend fs ?p, fs) else CreateTrunc fs ?p) = (oe, fs1)" by (rule prod.exhaust)
  let ?start = "if append then n else 0"
  have q: "Q (noted resp ?start (fst out), snd out)"
    using assms(1) by (rule part_keeps) (simp_all add: noted_def Let_def)
  obtain pe out1 where pr: "progress ?start (contentLength resp ?start) (noted resp ?start (fst out), snd out) = (pe, out1)"
    by (rule prod.exhaust)
  obtain ce t where cl: "copy_loop progress ?p (contentLength resp ?start) (rsEnd resp) (rsReads resp)
      \<lparr>tfOut = out1, tfFS = fs1, tfCurrent = ?start, tfSinceNotify = 0, tfSentFirst = (0 < ?start)\<rparr> = (ce, t)"
    by (rule prod.exhaust)
  note run = assms(2) [unfolded receive_def append_def [symmetric] Let_def op prod.case pr]
  show ?thesis
  proof (cases "oe = None \<and> pe = None")
    case False
    have "pe = Some x \<Longrightarrow> R x out1" for x using call_stops [OF q] pr by simp
    with False show ?thesis using run assms(1) by (cases oe; cases pe; auto)
  next
    case True
    then have "Q out1" using call_keeps [OF q] pr by simp
    then have ct: "Q (tfOut t) \<or> (\<exists>x. ce = Some x \<and> R x (tfOut t))"
      using copy_loop_out [OF _ cl] by simp
    show ?thesis
    proof (cases ce)
      case (Some x)
      with run True cl ct show ?thesis by auto
    next
      case None
      with ct have "Q (tfOut t)" by simp
      then have *: "pJobID part = pJobID (fst (tfOut t)) \<Longrightarrow> pPartKey part = pPartKey (fst (tfOut t)) \<Longrightarrow>
          pTempPath part = pTempPath (fst (tfOut t)) \<Longrightarrow> pSourceURL part = pSourceURL (fst (tfOut t)) \<Longrightarrow>
          pRelativePath part = pRelativePath (fst (tfOut t)) \<Longrightarrow> pCompleted part = pCompleted (fst (tfOut t)) \<Longrightarrow>
          progress m tot (part, snd (tfOut t)) = (e, out') \<Longrightarrow> ?thesis" for part m tot
        using call_keeps [OF part_keeps] call_stops [OF part_keeps] by (cases e) blast+
      obtain pt w where tf: "tfOut t = (pt, w)" by (rule prod.exhaust)
      have "\<exists>part m tot. pJobID part = pJobID pt \<and> pPartKey part = pPartKey pt \<and> pTempPath part = pTempPath pt \<and>
          pSourceURL part = pSourceURL pt \<and> pRelativePath part = pRelativePath pt \<and> pCompleted part = pCompleted pt \<and>
          progress m tot (part, w) = (e, out')"
      proof (cases "pContentLength pt = 0")
        case zero: True
        with run True cl None have "progress (tfCurrent t) (tfCurrent t)
            (pt\<lparr>pBytesDone := tfCurrent t, pContentLength := tfCurrent t\<rparr>, w) = (e, out')"
          by (simp add: tf case_prod_beta prod_eq_iff)
        then show ?thesis
          by (intro exI [of _ "pt\<lparr>pBytesDone := tfCurrent t, pContentLength := tfCurrent t\<rparr>"] exI conjI) simp_all
      next
        case False
        with run True cl None have "progress (tfCurrent t) (pContentLength pt) (pt\<lparr>pBytesDone := tfCurrent t\<rparr>, w) = (e, out')"
          by (simp add: tf case_prod_beta prod_eq_iff)
        then show ?thesis by (intro exI [of _ "pt\<lparr>pBytesDone := tfCurrent t\<rparr>"] exI conjI) simp_all
      qed
      then show ?thesis using * by (auto simp: tf)
    qed
  qed
qed

lemma Download_out:
  assumes "Q out" and "Download http progress out fs = (e, out', fs')"
  shows "Q out' \<or> (\<exists>x. e = Some x \<and> R x out')"
  using Download_cases [OF assms(2)]
proof (elim disjE exE conjE)
  fix part m tot
  assume "pJobID part = pJobID (fst out)" "pPartKey part = pPartKey (fst out)"
    "pTempPath part = pTempPath (fst out)" "pSourceURL part = pSourceURL (fst out)"
    "pRelativePath part = pRelativePath (fst out)" "pCompleted part = pCompleted (fst out)"
    and call: "progress m tot (part, snd out) = (e, out')"
  then have "Q (part, snd out)" by (intro part_keeps [OF assms(1)])
  with call call_keeps call_stops show ?thesis by (cases e) blast+
qed (use assms(1) receive_out [OF assms(1)] in blast)+

end

end
