(* ===== verification/Downloader.thy ===== *)
theory Downloader
  imports Worker_Samples Range_Downloader
begin

text \<open>
  The downloader (\<open>internal/worker/download.go\<close>): it registers the assets of a finished remote task
  as transfer parts below the job's staging directory, downloads them one after the other with
  checkpoints of their progress, renews links that fail, and hands the job to the finalizer when
  every part is complete. A download takes long, so the clock is a function of the number of
  readings: one in every progress callback and one in every step of the handler. Log lines, and
  the transfer rate that is only logged, are left out.
\<close>

definition progressCheckpointInterval :: int where "progressCheckpointInterval = 15 * second"

definition max5xxRetries :: int where "max5xxRetries = 3"

section \<open>Links and checkpoints\<close>

definition isRefresh5xx :: "int \<Rightarrow> bool" where
  "isRefresh5xx statusCode \<longleftrightarrow> 500 \<le> statusCode \<and> statusCode < 600"

definition shouldRefreshLink :: "int \<Rightarrow> bool" where
  "shouldRefreshLink statusCode \<longleftrightarrow> statusCode = 404 \<or> isRefresh5xx statusCode"

definition reset5xxCount :: "job \<Rightarrow> int \<Rightarrow> int \<Rightarrow> job" where
  "reset5xxCount job prevDone bytes = (if prevDone < bytes \<and> 0 < jRetryCount job then job\<lparr>jRetryCount := 0\<rparr> else job)"

definition partMatchesAsset :: "transfer_part \<Rightarrow> download_asset \<Rightarrow> nat \<Rightarrow> bool" where
  "partMatchesAsset part asset idx =
     (if pPartKey part = partKey asset idx then True
      else if pFileID part \<noteq> None \<and> deref (pFileID part) \<noteq> [] \<and> daFileID asset = deref (pFileID part) then True
      else pRelativePath part = safeRelativePath (daRelativePath asset) idx)"

fun find_asset_from :: "nat \<Rightarrow> transfer_part \<Rightarrow> download_asset list \<Rightarrow> download_asset option" where
  "find_asset_from idx part [] = None"
| "find_asset_from idx part (asset # assets) =
     (if partMatchesAsset part asset idx then Some asset else find_asset_from (Suc idx) part assets)"

definition findMatchingDownloadAsset :: "transfer_part \<Rightarrow> download_asset list \<Rightarrow> download_asset option" where
  "findMatchingDownloadAsset part assets = find_asset_from 0 part assets"

definition shouldCheckpointProgress :: "time \<Rightarrow> time \<Rightarrow> int \<Rightarrow> int \<Rightarrow> bool" where
  "shouldCheckpointProgress lastPersist now bytes tot =
     (if IsZero lastPersist then True
      else if 0 < tot \<and> tot \<le> bytes then True
      else progressCheckpointInterval \<le> now - lastPersist)"

section \<open>The state of a download\<close>

text \<open>
  What the handler's closures share: the job and the store, whether the job shows as downloading,
  when the current part was last checkpointed, the clock readings and the calls for links so far.
\<close>

record download_state =
  dlJob :: job
  dlStore :: store
  dlVisible :: bool
  dlLastPersist :: time
  dlTicks :: nat
  dlCalls :: nat

text \<open>The first progress that knows a size makes the job visible as downloading.\<close>

definition visible_job :: "orchestrator \<Rightarrow> time \<Rightarrow> int \<Rightarrow> int \<Rightarrow> job \<Rightarrow> job" where
  "visible_job orc now bytes tot job =
     (let job = job\<lparr>jBytesTotal := tot\<rparr>;
          job = (if jBytesDone job < bytes then job\<lparr>jBytesDone := bytes\<rparr> else job)
      in job\<lparr>jErrorMessage := None, jUpdatedAt := now,
             jNextRunAt := Some (now + DownloadInterval (oWorkers orc))\<rparr>)"

definition make_visible ::
  "orchestrator \<Rightarrow> time \<Rightarrow> int \<Rightarrow> int \<Rightarrow> download_state \<Rightarrow> err \<times> download_state" where
  "make_visible orc now bytes tot s =
     (if \<not> dlVisible s \<and> 0 < tot
      then
        case UpdateJobState (dlStore s) now (visible_job orc now bytes tot (dlJob s)) StateLocalDownloading
               ''local download started'' of
          (Some e, job, st) \<Rightarrow> (Some e, s\<lparr>dlJob := job, dlStore := st\<rparr>)
        | (None, job, st) \<Rightarrow> (nil, s\<lparr>dlJob := job, dlStore := st, dlVisible := True\<rparr>)
      else (nil, s))"

text \<open>The progress callback.\<close>

definition download_progress :: "orchestrator \<Rightarrow> (nat \<Rightarrow> time) \<Rightarrow> download_state progress" where
  "download_progress orc clock bytes tot out =
     (let (part, s) = out;
          now = clock (dlTicks s);
          s = s\<lparr>dlJob := reset5xxCount (dlJob s) (pBytesDone part) bytes, dlTicks := Suc (dlTicks s)\<rparr>;
          part = part\<lparr>pBytesDone := bytes\<rparr>;
          part = (if 0 < tot then part\<lparr>pContentLength := tot\<rparr> else part);
          part = part\<lparr>pUpdatedAt := now\<rparr>
      in case make_visible orc now bytes tot s of
           (Some e, s) \<Rightarrow> (Some e, part, s)
         | (None, s) \<Rightarrow>
             if shouldCheckpointProgress (dlLastPersist s) now bytes tot
             then (case UpsertTransferPart (dlStore s) part of
                     (e, st) \<Rightarrow> (e, part, s\<lparr>dlLastPersist := now, dlStore := st\<rparr>))
             else (nil, part, s))"

section \<open>After a failed download\<close>

text \<open>Asks for the links again; the part takes the new one, and the flag says whether there was one.\<close>

definition refreshDownloadPartSourceURL ::
  "torbox_client \<Rightarrow> nat \<Rightarrow> time \<Rightarrow> store \<Rightarrow> job \<Rightarrow> transfer_part \<Rightarrow> go_error \<Rightarrow> (bool \<times> err) \<times> transfer_part \<times> store" where
  "refreshDownloadPartSourceURL tb calls now st job part downloadErr =
     (if as_status downloadErr = None \<or> \<not> shouldRefreshLink (the (as_status downloadErr)) then ((False, nil), part, st)
      else if TrimSpace (deref (jRemoteID job)) = [] then ((False, nil), part, st)
      else case GetDownloadLinks tb calls (source_text (jSourceType job)) (deref (jRemoteID job)) of
        Inl e \<Rightarrow> ((False, Some (ErrWrap ''refresh download links'' e)), part, st)
      | Inr assets \<Rightarrow>
          (case findMatchingDownloadAsset part assets of
             None \<Rightarrow> ((False, nil), part, st)
           | Some asset \<Rightarrow>
               if daURL asset = [] \<or> daURL asset = pSourceURL part then ((False, nil), part, st)
               else
                 let part = part\<lparr>pSourceURL := daURL asset\<rparr>;
                     part = (if daFileID asset \<noteq> [] then part\<lparr>pFileID := Some (daFileID asset)\<rparr> else part);
                     part = (if 0 < daSize asset \<and> pContentLength part = 0
                             then part\<lparr>pContentLength := daSize asset\<rparr> else part);
                     part = part\<lparr>pUpdatedAt := now\<rparr>
                 in case UpsertTransferPart st part of
                      (Some e, st') \<Rightarrow> ((False, Some (ErrWrap ''persist refreshed transfer part'' e)), part, st')
                    | (None, st') \<Rightarrow> ((True, nil), part, st')))"

definition not_found_text :: string where
  "not_found_text = ''download part returned HTTP 404 and no fresh link was available''"

definition repeated_text :: "string \<Rightarrow> int \<Rightarrow> int \<Rightarrow> string" where
  "repeated_text key code count =
     ''download part '' @ key @ '' returned HTTP '' @ itoa code @ '' '' @ itoa count @ '' consecutive times''"

text \<open>The branch of a failed download; the handler then returns without an error.\<close>

definition download_failed ::
  "orchestrator \<Rightarrow> torbox_client \<Rightarrow> nat \<Rightarrow> time \<Rightarrow> store \<Rightarrow> job \<Rightarrow> transfer_part \<Rightarrow> go_error \<Rightarrow> store" where
  "download_failed orc tb calls now st job part downloadErr =
     (let statusCode = (case as_status downloadErr of None \<Rightarrow> 0 | Some c \<Rightarrow> c);
          job = (if \<not> isRefresh5xx statusCode then job\<lparr>jRetryCount := 0\<rparr> else job);
          ((refreshed, _), part, st) = refreshDownloadPartSourceURL tb calls now st job part downloadErr;
          msg = (if refreshed then ''download link refreshed after HTTP '' @ itoa statusCode else Error downloadErr);
          job = (if isRefresh5xx statusCode then job\<lparr>jRetryCount := jRetryCount job + 1\<rparr> else job);
          st = snd (UpsertTransferPart st part)
      in if statusCode = 404 \<and> \<not> refreshed
         then snd (snd (UpdateJobState st now
                (job\<lparr>jErrorMessage := Some not_found_text, jNextRunAt := None, jUpdatedAt := now\<rparr>)
                StateFailed not_found_text))
         else if isRefresh5xx statusCode \<and> max5xxRetries \<le> jRetryCount job
         then
           let msg = repeated_text (pPartKey part) statusCode (jRetryCount job)
           in snd (snd (UpdateJobState st now
                (job\<lparr>jErrorMessage := Some msg, jNextRunAt := None, jUpdatedAt := now\<rparr>) StateFailed msg))
         else snd (snd (UpdateJobState st now
                (job\<lparr>jErrorMessage := Some msg, jUpdatedAt := now,
                     jNextRunAt := Some (now + DownloadInterval (oWorkers orc))\<rparr>) StateLocalDownloading msg)))"

section \<open>The handler\<close>

text \<open>The loop over the parts: \<open>Inl\<close> when the handler returns from within it.\<close>

fun download_parts ::
  "orchestrator \<Rightarrow> torbox_client \<Rightarrow> http_client \<Rightarrow> (nat \<Rightarrow> time) \<Rightarrow> transfer_part list \<Rightarrow> download_state \<Rightarrow> fs \<Rightarrow>
   ((err \<times> store) + download_state) \<times> fs" where
  "download_parts orc tb http clock [] s fs = (Inr s, fs)"
| "download_parts orc tb http clock (part # parts) s fs =
     (if pCompleted part then download_parts orc tb http clock parts s fs
      else
        let now = clock (dlTicks s);
            part = part\<lparr>pUpdatedAt := now\<rparr>;
            part = (if IsZero (pCreatedAt part) then part\<lparr>pCreatedAt := now\<rparr> else part)
        in case Download http (download_progress orc clock)
                  (part, s\<lparr>dlLastPersist := zero_time, dlTicks := Suc (dlTicks s)\<rparr>) fs of
             (Some e, (part, s), fs) \<Rightarrow>
               (Inl (nil, download_failed orc tb (dlCalls s) (clock (dlTicks s)) (dlStore s) (dlJob s) part e), fs)
           | (None, (part, s), fs) \<Rightarrow>
               let s = s\<lparr>dlJob := (dlJob s)\<lparr>jRetryCount := 0\<rparr>, dlTicks := Suc (dlTicks s)\<rparr>;
                   part = part\<lparr>pCompleted := (pContentLength part = 0 \<or> pContentLength part \<le> pBytesDone part),
                               pUpdatedAt := clock (dlTicks s)\<rparr>
               in (case UpsertTransferPart (dlStore s) part of
                     (Some e, st) \<Rightarrow> (Inl (Some e, st), fs)
                   | (None, st) \<Rightarrow> download_parts orc tb http clock parts (s\<lparr>dlStore := st\<rparr>) fs))"

text \<open>The parts as they are registered; \<open>Inl\<close> when the handler returns from within the loop.\<close>

definition new_part :: "time \<Rightarrow> job \<Rightarrow> download_asset \<Rightarrow> nat \<Rightarrow> transfer_part" where
  "new_part now job asset idx =
     \<lparr>pID = 0, pJobID = jID job, pPartKey = partKey asset idx,
      pFileID = (if daFileID asset \<noteq> [] then Some (daFileID asset) else None), pSourceURL = daURL asset,
      pTempPath = Join [deref (jStagingPath job), safeRelativePath (daRelativePath asset) idx],
      pRelativePath = safeRelativePath (daRelativePath asset) idx, pContentLength = daSize asset, pBytesDone = 0,
      pETag = None, pCompleted = False, pCreatedAt = now, pUpdatedAt = now\<rparr>"

fun register_parts ::
  "orchestrator \<Rightarrow> string \<Rightarrow> time \<Rightarrow> job \<Rightarrow> nat \<Rightarrow> download_asset list \<Rightarrow> store \<Rightarrow> (err \<times> store) + store" where
  "register_parts orc cwd now job idx [] st = Inr st"
| "register_parts orc cwd now job idx (asset # assets) st =
     (let part = new_part now job asset idx in
      case ensurePathWithinRoot (oQuote orc) cwd (deref (jStagingPath job)) (pTempPath part) of
        Some e \<Rightarrow>
          let msg = ''refusing to use download path outside staging root: '' @ oQuote orc (daRelativePath asset)
          in Inl (returning (UpdateJobState st now
                (job\<lparr>jErrorMessage := Some msg, jNextRunAt := None, jUpdatedAt := now\<rparr>) StateFailed msg))
      | None \<Rightarrow>
          (case UpsertTransferPart st part of
             (Some e, st') \<Rightarrow> Inl (Some e, st')
           | (None, st') \<Rightarrow> register_parts orc cwd now job (Suc idx) assets st'))"

text \<open>The parts of a job, registered first when there are none.\<close>

definition resolve_parts ::
  "orchestrator \<Rightarrow> torbox_client \<Rightarrow> string \<Rightarrow> time \<Rightarrow> store \<Rightarrow> job \<Rightarrow> (err \<times> store) + (nat \<times> store)" where
  "resolve_parts orc tb cwd now st job =
     (if ListTransferParts st (jID job) \<noteq> [] then Inr (0, st)
      else case GetDownloadLinks tb 0 (source_text (jSourceType job)) (deref (jRemoteID job)) of
        Inl e \<Rightarrow>
          Inl (nil, snd (snd (UpdateJobState st now
            (job\<lparr>jNextRunAt := Some (now + DownloadInterval (oWorkers orc)), jErrorMessage := Some (Error e),
                 jUpdatedAt := now\<rparr>) StateLocalDownloading (Error e))))
      | Inr assets \<Rightarrow>
          if assets = []
          then Inl (returning (UpdateJobState st now
                 (job\<lparr>jErrorMessage := Some ''remote task returned no downloadable assets'', jUpdatedAt := now\<rparr>)
                 StateFailed ''remote task returned no downloadable assets''))
          else (case register_parts orc cwd now job 0 assets st of
                  Inl out \<Rightarrow> Inl out
                | Inr st' \<Rightarrow> Inr (1, st')))"

text \<open>After the loop: the job goes on to the finalizer, or is due again.\<close>

definition conclude_download :: "orchestrator \<Rightarrow> time \<Rightarrow> store \<Rightarrow> job \<Rightarrow> err \<times> store" where
  "conclude_download orc now st job =
     (let parts = ListTransferParts st (jID job);
          job = (syncJobBytesFromParts job parts)\<lparr>jErrorMessage := None, jUpdatedAt := now\<rparr>
      in if allPartsCompleted parts
         then returning (UpdateJobState st now (job\<lparr>jNextRunAt := Some now\<rparr>)
                StateLocalVerify ''local download finished'')
         else returning (UpdateJobState st now (job\<lparr>jNextRunAt := Some (now + DownloadInterval (oWorkers orc))\<rparr>)
                StateLocalDownloading ''local download in progress''))"

definition with_staging :: "layout \<Rightarrow> job \<Rightarrow> job" where
  "with_staging l job = (if jStagingPath job = None then job\<lparr>jStagingPath := Some (StagingPathForJob l (jID job))\<rparr> else job)"

text \<open>The handler up to the end of the loop over the parts.\<close>

definition run_downloads ::
  "orchestrator \<Rightarrow> torbox_client \<Rightarrow> http_client \<Rightarrow> (nat \<Rightarrow> time) \<Rightarrow> store \<Rightarrow> fs \<Rightarrow> job \<Rightarrow>
   ((err \<times> store) + download_state) \<times> fs" where
  "run_downloads orc tb http clock st fs job =
     (let job = with_staging (oLayout orc) job in
      case MkdirAll fs (deref (jStagingPath job)) of
        (Some e, fs) \<Rightarrow>
          (Inl (Some (ErrWrap ''ensure staging path'' (path_error ''mkdir'' (deref (jStagingPath job)) e)), st), fs)
      | (None, fs) \<Rightarrow>
          (case resolve_parts orc tb (fsCwd fs) (clock 0) st job of
             Inl out \<Rightarrow> (Inl out, fs)
           | Inr (calls, st) \<Rightarrow>
               download_parts orc tb http clock (ListTransferParts st (jID job))
                 \<lparr>dlJob = job, dlStore = st,
                  dlVisible = (jState job = StateLocalDownloading \<and> 0 < jBytesTotal job),
                  dlLastPersist = zero_time, dlTicks = 1, dlCalls = calls\<rparr> fs))"

definition processDownloadJob ::
  "orchestrator \<Rightarrow> torbox_client \<Rightarrow> http_client \<Rightarrow> (nat \<Rightarrow> time) \<Rightarrow> store \<Rightarrow> fs \<Rightarrow> job \<Rightarrow> (err \<times> store) \<times> fs" where
  "processDownloadJob orc tb http clock st fs job =
     (case run_downloads orc tb http clock st fs job of
        (Inl out, fs) \<Rightarrow> (out, fs)
      | (Inr s, fs) \<Rightarrow> (conclude_download orc (clock (dlTicks s)) (dlStore s) (dlJob s), fs))"

definition download_step ::
  "orchestrator \<Rightarrow> (job \<Rightarrow> torbox_client) \<Rightarrow> (job \<Rightarrow> http_client) \<Rightarrow> (job \<Rightarrow> nat \<Rightarrow> time) \<Rightarrow> store \<times> fs \<Rightarrow> job \<Rightarrow> store \<times> fs" where
  "download_step orc tb http clock s job =
     (case processDownloadJob orc (tb job) (http job) (clock job) (fst s) (snd s) job of
        ((e, st), fs) \<Rightarrow> (ReleaseJobClaim st (jID job), fs))"

definition runDownloader ::
  "orchestrator \<Rightarrow> (job \<Rightarrow> torbox_client) \<Rightarrow> (job \<Rightarrow> http_client) \<Rightarrow> time \<Rightarrow> (job \<Rightarrow> nat \<Rightarrow> time) \<Rightarrow> store \<times> fs \<Rightarrow> store \<times> fs" where
  "runDownloader orc tb http now clock s =
     (case ClaimJobsDue (fst s) ''downloader'' [StateLocalDownloadPending, StateLocalDownloading] now
             (BatchSize (oWorkers orc)) of
        (jobs, st') \<Rightarrow> for_each (download_step orc tb http clock) (st', snd s) jobs)"

end
