(* ===== verification/Downloader_Facts.thy ===== *)
theory Downloader_Facts
  imports Downloader
begin

text \<open>
  What the downloader keeps and promises: the contract of its progress callback, the laws of
  \<open>write_contract\<close> and \<open>fs_contract\<close> for its handler, the moves of a round, where the downloads
  go, what a failed download makes of the job, and what a job in local verify has.
\<close>

section \<open>What the callback keeps\<close>

text \<open>A job that cannot be written as downloading: its row is gone or its key is taken.\<close>

definition blocked :: "store \<Rightarrow> job \<Rightarrow> bool" where
  "blocked st job \<longleftrightarrow> \<not> job_exists st (jID job) \<or> key_taken st (job\<lparr>jState := StateLocalDownloading\<rparr>)"

lemma blocked_cong: "blocked st job \<Longrightarrow> sJobs st' = sJobs st \<Longrightarrow> jID job' = jID job \<Longrightarrow>
    jSubmissionKey job' = jSubmissionKey job \<Longrightarrow> blocked st' job'"
  by (simp add: blocked_def job_exists_def key_taken_def active_def)

lemma UpdateJobState_failed:
  assumes "UpdateJobState st now job s m = (Some e, job', st')"
  shows "st' = st" and "as_status e = None" and "\<not> job_exists st (jID job) \<or> key_taken st (job\<lparr>jState := s\<rparr>)"
proof -
  have key: "key_taken st (job\<lparr>jState := s, jUpdatedAt := now\<rparr>) = key_taken st (job\<lparr>jState := s\<rparr>)"
    by (simp add: key_taken_def active_def)
  have gone: "st\<lparr>sJobs := map (\<lambda>r. if jID r = jID job then updated_row job2 r else r) (sJobs st)\<rparr> = st"
    if "\<not> job_exists st (jID job)" for job2
  proof -
    have "map (\<lambda>r. if jID r = jID job then updated_row job2 r else r) (sJobs st) = map id (sJobs st)"
      using that by (intro map_cong) (auto simp: job_exists_def image_iff)
    then show ?thesis by simp
  qed
  have "st' = st \<and> as_status e = None \<and> (\<not> job_exists st (jID job) \<or> key_taken st (job\<lparr>jState := s\<rparr>))"
    using assms gone
    by (auto simp: UpdateJobState_def UpdateJob_def Let_def AppendEvent_def key gone job_exists_map split: if_splits)
  then show "st' = st" "as_status e = None" "\<not> job_exists st (jID job) \<or> key_taken st (job\<lparr>jState := s\<rparr>)" by auto
qed

lemma blocked_write: "blocked st job \<Longrightarrow> snd (snd (UpdateJobState st now job StateLocalDownloading m)) = st"
proof (cases "UpdateJobState st now job StateLocalDownloading m")
  case (fields e job' st')
  assume "blocked st job"
  then have "e \<noteq> nil"
    using fields by (auto simp: blocked_def UpdateJobState_def UpdateJob_def Let_def AppendEvent_def key_taken_def
        active_def job_exists_map split: if_splits)
  then show ?thesis using fields UpdateJobState_failed(1) by auto
qed

lemma UpsertTransferPart_failed: "UpsertTransferPart st p = (Some e, st') \<Longrightarrow> as_status e = None"
  by (auto simp: UpsertTransferPart_def split: if_splits)

text \<open>
  What holds between two callbacks, and what holds when one of them ends the download: the job can
  still be written, or any attempt to write it as downloading fails and changes nothing.
\<close>

definition in_download ::
  "(store \<Rightarrow> bool) \<Rightarrow> (store \<Rightarrow> job \<Rightarrow> bool) \<Rightarrow> (job_state \<Rightarrow> bool) \<Rightarrow> (transfer_part \<Rightarrow> bool) \<Rightarrow> string \<Rightarrow>
   transfer_part \<times> download_state \<Rightarrow> bool" where
  "in_download I P T G jid out \<longleftrightarrow> T StateLocalDownloading \<and> I (dlStore (snd out)) \<and>
     P (dlStore (snd out)) (dlJob (snd out)) \<and> jID (dlJob (snd out)) = jid \<and> pJobID (fst out) = jid \<and>
     G (fst out) \<and> \<not> pCompleted (fst out)"

definition halted ::
  "(store \<Rightarrow> bool) \<Rightarrow> (store \<Rightarrow> job \<Rightarrow> bool) \<Rightarrow> (transfer_part \<Rightarrow> bool) \<Rightarrow> string \<Rightarrow> go_error \<Rightarrow> transfer_part \<times> download_state \<Rightarrow> bool" where
  "halted I P G jid e out \<longleftrightarrow> as_status e = None \<and> I (dlStore (snd out)) \<and>
     jID (dlJob (snd out)) = jid \<and> pJobID (fst out) = jid \<and> G (fst out) \<and> \<not> pCompleted (fst out) \<and>
     (\<exists>job0. P (dlStore (snd out)) job0 \<and> jID job0 = jid) \<and>
     (P (dlStore (snd out)) (dlJob (snd out)) \<or> blocked (dlStore (snd out)) (dlJob (snd out)))"

lemma visible_job_fields [frame_simps]:
  "jID (visible_job orc now n tot job) = jID job" "jState (visible_job orc now n tot job) = jState job"
  "jSubmissionKey (visible_job orc now n tot job) = jSubmissionKey job"
  "jRetryCount (visible_job orc now n tot job) = jRetryCount job"
  by (simp_all add: visible_job_def Let_def)

lemma reset5xxCount_fields [frame_simps]:
  "jID (reset5xxCount job m n) = jID job" "jState (reset5xxCount job m n) = jState job"
  "jSubmissionKey (reset5xxCount job m n) = jSubmissionKey job"
  by (simp_all add: reset5xxCount_def)

context write_contract begin

lemma make_visible_keeps:
  assumes "make_visible orc now n tot s = (e, s')" and "I (dlStore s)" and "P (dlStore s) (dlJob s)"
    and "T StateLocalDownloading"
  shows "I (dlStore s')" and "jID (dlJob s') = jID (dlJob s)" and "e = nil \<Longrightarrow> P (dlStore s') (dlJob s')"
    and "e = Some x \<Longrightarrow> as_status x = None \<and> dlStore s' = dlStore s \<and> blocked (dlStore s') (dlJob s')"
proof -
  let ?job = "visible_job orc now n tot (dlJob s)"
  obtain e1 job1 st1 where u: "UpdateJobState (dlStore s) now ?job StateLocalDownloading ''local download started'' = (e1, job1, st1)"
    by (rule prod_cases3)
  have p: "P (dlStore s) ?job" using assms(3) by (rule may_write_cong) (simp_all add: frame_simps)
  note k = update_state_keeps [OF assms(2) p assms(4) u]
  have j: "job1 = ?job\<lparr>jState := StateLocalDownloading, jUpdatedAt := now\<rparr>" by (rule UpdateJobState_storeI(2) [OF u])
  have b: "st1 = dlStore s \<and> as_status x = None \<and> blocked st1 job1" if "e1 = Some x" for x
  proof -
    note f = UpdateJobState_failed [OF u [unfolded that]]
    then have "blocked (dlStore s) ?job" by (simp add: blocked_def)
    then have "blocked st1 job1" by (rule blocked_cong) (simp_all add: f(1) j)
    with f show ?thesis by simp
  qed
  have r: "make_visible orc now n tot s =
      (if \<not> dlVisible s \<and> 0 < tot
       then (case e1 of Some e \<Rightarrow> (Some e, s\<lparr>dlJob := job1, dlStore := st1\<rparr>)
             | None \<Rightarrow> (nil, s\<lparr>dlJob := job1, dlStore := st1, dlVisible := True\<rparr>))
       else (nil, s))"
    by (simp add: make_visible_def u split: option.split)
  show "I (dlStore s')" "jID (dlJob s') = jID (dlJob s)"
    using assms(1,2) k by (auto simp: r j frame_simps split: if_splits option.splits)
  show "e = nil \<Longrightarrow> P (dlStore s') (dlJob s')"
    using assms(1,3) k by (auto simp: r split: if_splits option.splits)
  show "e = Some x \<Longrightarrow> as_status x = None \<and> dlStore s' = dlStore s \<and> blocked (dlStore s') (dlJob s')"
    using assms(1) b by (auto simp: r split: if_splits option.splits)
qed

end

sublocale write_contract < progress: progress_contract "in_download I P T G jid" "halted I P G jid" "download_progress orc clock"
  for jid orc clock
proof unfold_locales
  fix out and part :: transfer_part
  assume "in_download I P T G jid out" "pJobID part = pJobID (fst out)" "pTempPath part = pTempPath (fst out)"
    "pRelativePath part = pRelativePath (fst out)" "pCompleted part = pCompleted (fst out)"
  then show "in_download I P T G jid (part, snd out)"
    using good_cong [of "fst out" part] by (simp add: in_download_def same_place_def counted_def)
next
  fix out n tot e and out' :: "transfer_part \<times> download_state"
  assume pre: "in_download I P T G jid out"
  obtain part s where out: "out = (part, s)" by (rule prod.exhaust)
  let ?now = "clock (dlTicks s)"
  let ?s = "s\<lparr>dlJob := reset5xxCount (dlJob s) (pBytesDone part) n, dlTicks := Suc (dlTicks s)\<rparr>"
  let ?part = "(if 0 < tot then part\<lparr>pBytesDone := n, pContentLength := tot\<rparr> else part\<lparr>pBytesDone := n\<rparr>)\<lparr>pUpdatedAt := ?now\<rparr>"
  obtain e1 s1 where v: "make_visible orc ?now n tot ?s = (e1, s1)" by (rule prod.exhaust)
  have p0: "I (dlStore ?s)" "P (dlStore ?s) (dlJob ?s)" "T StateLocalDownloading"
    using pre may_write_cong by (auto simp: in_download_def out frame_simps)
  note k = make_visible_keeps [OF v this]
  obtain ue st where u: "UpsertTransferPart (dlStore s1) ?part = (ue, st)" by (rule prod.exhaust)
  have good: "G ?part" "\<not> pCompleted ?part"
    using pre good_cong [of part ?part] by (simp_all add: in_download_def out same_place_def counted_def)
  have ids: "jID (dlJob s1) = jid" "pJobID ?part = jid" using pre k(2) by (simp_all add: in_download_def out frame_simps)
  have up: "I st" "P st (dlJob s1)" if "e1 = nil"
    using upsert_keeps [OF k(1) k(3) [OF that], of ?part] ids u good(1) by simp_all
  note run = download_progress_def [of orc clock n tot out, unfolded out prod.case Let_def, folded out]
  have shape: "download_progress orc clock n tot out = (case e1 of
      Some e \<Rightarrow> (Some e, ?part, s1)
    | None \<Rightarrow> if shouldCheckpointProgress (dlLastPersist s1) ?now n tot
              then (ue, ?part, s1\<lparr>dlLastPersist := ?now, dlStore := st\<rparr>) else (nil, ?part, s1))"
    using v u unfolding download_progress_def out by (cases "0 < tot"; cases e1) (simp_all add: Let_def)
  show "in_download I P T G jid out'" if "download_progress orc clock n tot out = (nil, out')"
    using that shape k(1,3) up ids p0(3) good by (auto simp: in_download_def split: option.splits if_splits)
  show "halted I P G jid e out'" if "download_progress orc clock n tot out = (Some e, out')"
  proof (cases e1)
    case (Some x)
    then have "P (dlStore s1) (dlJob ?s)" using k(4) p0(2) by simp
    with Some that shape k ids good show ?thesis by (auto simp: halted_def frame_simps intro!: exI [of _ "dlJob ?s"])
  next
    case None
    with that shape up ids good UpsertTransferPart_failed u show ?thesis
      by (auto simp: halted_def split: if_splits)
  qed
qed

section \<open>What the handler keeps\<close>

text \<open>The status of a failed download, when it gives the job up, and what it then writes.\<close>

definition status_of :: "go_error \<Rightarrow> int" where
  "status_of e = (case as_status e of None \<Rightarrow> 0 | Some c \<Rightarrow> c)"

definition gives_up :: "int \<Rightarrow> int \<Rightarrow> bool \<Rightarrow> bool" where
  "gives_up code count refreshed \<longleftrightarrow> code = 404 \<and> \<not> refreshed \<or> isRefresh5xx code \<and> max5xxRetries \<le> count"

definition failure_write :: "orchestrator \<Rightarrow> time \<Rightarrow> job \<Rightarrow> go_error \<Rightarrow> bool \<Rightarrow> job \<Rightarrow> job_state \<Rightarrow> bool" where
  "failure_write orc now job e refreshed j s \<longleftrightarrow>
     jRetryCount j = (if isRefresh5xx (status_of e) then jRetryCount job + 1 else 0) \<and>
     (if gives_up (status_of e) (jRetryCount j) refreshed
      then s = StateFailed \<and> jNextRunAt j = None
      else s = StateLocalDownloading \<and> jNextRunAt j = Some (now + DownloadInterval (oWorkers orc)))"

lemma refresh_job: "refreshDownloadPartSourceURL tb c now st (job\<lparr>jRetryCount := n\<rparr>) part e =
    refreshDownloadPartSourceURL tb c now st job part e"
  by (simp add: refreshDownloadPartSourceURL_def)

lemma download_failed_shape:
  assumes "refreshDownloadPartSourceURL tb c now st job part e = ((b, x), part1, st1)"
  shows "\<exists>j s m. download_failed orc tb c now st job part e =
      snd (snd (UpdateJobState (snd (UpsertTransferPart st1 part1)) now j s m)) \<and>
    jID j = jID job \<and> jState j = jState job \<and> jSubmissionKey j = jSubmissionKey job \<and> failure_write orc now job e b j s"
proof -
  let ?code = "status_of e"
  define fin where "fin = (\<lambda>j s m. snd (snd (UpdateJobState (snd (UpsertTransferPart st1 part1)) now j s m)))"
  define job1 where "job1 = (if \<not> isRefresh5xx ?code then job\<lparr>jRetryCount := 0\<rparr> else job)"
  define job2 where "job2 = (if isRefresh5xx ?code then job1\<lparr>jRetryCount := jRetryCount job1 + 1\<rparr> else job1)"
  define msg where "msg = (if b then ''download link refreshed after HTTP '' @ itoa ?code else Error e)"
  have r: "refreshDownloadPartSourceURL tb c now st job1 part e = ((b, x), part1, st1)"
    using assms by (simp add: job1_def refresh_job)
  have ids: "jID job2 = jID job" "jState job2 = jState job" "jSubmissionKey job2 = jSubmissionKey job"
    "jRetryCount job2 = (if isRefresh5xx ?code then jRetryCount job + 1 else 0)"
    by (simp_all add: job2_def job1_def)
  have shape: "download_failed orc tb c now st job part e =
      (if ?code = 404 \<and> \<not> b
       then fin (job2\<lparr>jErrorMessage := Some not_found_text, jNextRunAt := None, jUpdatedAt := now\<rparr>) StateFailed not_found_text
       else if isRefresh5xx ?code \<and> max5xxRetries \<le> jRetryCount job2
       then fin (job2\<lparr>jErrorMessage := Some (repeated_text (pPartKey part1) ?code (jRetryCount job2)), jNextRunAt := None,
              jUpdatedAt := now\<rparr>) StateFailed (repeated_text (pPartKey part1) ?code (jRetryCount job2))
       else fin (job2\<lparr>jErrorMessage := Some msg, jUpdatedAt := now,
                   jNextRunAt := Some (now + DownloadInterval (oWorkers orc))\<rparr>) StateLocalDownloading msg)"
    unfolding download_failed_def status_of_def [symmetric] Let_def job1_def [symmetric] r prod.case
      job2_def [symmetric] msg_def fin_def by (simp split: if_split)
  consider "?code = 404 \<and> \<not> b" | "\<not> (?code = 404 \<and> \<not> b)" "isRefresh5xx ?code \<and> max5xxRetries \<le> jRetryCount job2"
    | "\<not> (?code = 404 \<and> \<not> b)" "\<not> (isRefresh5xx ?code \<and> max5xxRetries \<le> jRetryCount job2)" by blast
  then have "\<exists>j s m. download_failed orc tb c now st job part e = fin j s m \<and>
    jID j = jID job \<and> jState j = jState job \<and> jSubmissionKey j = jSubmissionKey job \<and> failure_write orc now job e b j s"
  proof cases
    case 1
    note eq = shape [unfolded if_P [OF 1]]
    show ?thesis by (intro exI conjI, rule eq) (use ids 1 in \<open>simp_all add: failure_write_def gives_up_def\<close>)
  next
    case 2
    note eq = shape [unfolded if_not_P [OF 2(1)] if_P [OF 2(2)]]
    show ?thesis by (intro exI conjI, rule eq) (use ids 2 in \<open>simp_all add: failure_write_def gives_up_def\<close>)
  next
    case 3
    note eq = shape [unfolded if_not_P [OF 3(1)] if_not_P [OF 3(2)]]
    show ?thesis by (intro exI conjI, rule eq) (use ids 3 in \<open>auto simp: failure_write_def gives_up_def\<close>)
  qed
  then show ?thesis unfolding fin_def .
qed

context write_contract begin

lemma refresh_keeps:
  assumes "refreshDownloadPartSourceURL tb c now st job part e = (r, part', st')"
    and "I st" and "P st job0" and "pJobID part = jID job0" and "G part" and "\<not> pCompleted part"
  shows "I st' \<and> P st' job0 \<and> sJobs st' = sJobs st \<and> pJobID part' = jID job0 \<and> G part'"
proof -
  have good: "G p" if "same_place part p" "\<not> pCompleted p" for p
    using good_cong [OF assms(5) that(1)] that(2) by (simp add: counted_def)
  have *: "I st1 \<and> P st1 job0 \<and> sJobs st1 = sJobs st"
    if "UpsertTransferPart st p = (x, st1)" "same_place part p" "\<not> pCompleted p" for p x st1
    using upsert_keeps [OF assms(2,3) _ good [OF that(2,3)]] UpsertTransferPart_jobs(1) [of st p] that(1,2) assms(4)
    by (simp add: same_place_def)
  show ?thesis
    using assms(1) assms(2-6) * good
    unfolding refreshDownloadPartSourceURL_def Let_def same_place_def
    by (auto split: if_splits sum.splits option.splits prod.splits)
qed

lemma download_failed_keeps:
  assumes "I st" and "P st job0" and "jID job0 = jID job" and "pJobID part = jID job"
    and G: "G part" "\<not> pCompleted part"
    and job: "P st job \<or> as_status e = None \<and> blocked st job"
    and T: "T StateFailed" "T StateLocalDownloading"
  shows "I (download_failed orc tb c now st job part e)"
proof -
  obtain b x part1 st1 where r: "refreshDownloadPartSourceURL tb c now st job part e = ((b, x), part1, st1)"
    by (metis prod.collapse)
  define st2 where "st2 = snd (UpsertTransferPart st1 part1)"
  obtain j s m where j: "download_failed orc tb c now st job part e = snd (snd (UpdateJobState st2 now j s m))"
    "jID j = jID job" "jState j = jState job" "jSubmissionKey j = jSubmissionKey job" "failure_write orc now job e b j s"
    using download_failed_shape [OF r] unfolding st2_def by blast
  have through: "I st2 \<and> P st2 j \<and> sJobs st2 = sJobs st" if "P st j" "jID j = jID job" for j
  proof -
    have "pJobID part = jID j" using assms(4) that(2) by simp
    from refresh_keeps [OF r assms(1) that(1) this G] upsert_keeps [of st1 j part1] show ?thesis
      by (simp add: st2_def store_simps)
  qed
  have st2: "I st2" "sJobs st2 = sJobs st" using through [OF assms(2,3)] by auto
  from job show ?thesis
  proof
    assume "P st job"
    then have "P st2 j" using through [of job] j(2,3) may_write_cong by blast
    moreover have "T s" using j(5) T by (auto simp: failure_write_def split: if_splits)
    ultimately show ?thesis unfolding j(1) by (rule update_state_keeps_store [OF st2(1)])
  next
    assume b: "as_status e = None \<and> blocked st job"
    then have "blocked st2 j" using blocked_cong st2(2) j(2,4) by blast
    moreover have "s = StateLocalDownloading"
      using b j(5) by (simp add: failure_write_def gives_up_def status_of_def isRefresh5xx_def)
    ultimately show ?thesis using st2(1) blocked_write unfolding j(1) by simp
  qed
qed

end

definition finished :: "time \<Rightarrow> transfer_part \<Rightarrow> transfer_part" where
  "finished t part = part\<lparr>pCompleted := (pContentLength part = 0 \<or> pContentLength part \<le> pBytesDone part), pUpdatedAt := t\<rparr>"

lemma finished_fields [simp]:
  "pJobID (finished t part) = pJobID part" "pPartKey (finished t part) = pPartKey part"
  "pTempPath (finished t part) = pTempPath part" "pSourceURL (finished t part) = pSourceURL part"
  "pRelativePath (finished t part) = pRelativePath part" "pBytesDone (finished t part) = pBytesDone part" "pContentLength (finished t part) = pContentLength part"
  "pCompleted (finished t part) \<longleftrightarrow> pContentLength part = 0 \<or> pContentLength part \<le> pBytesDone part"
  by (simp_all add: finished_def)

text \<open>How the loop takes one part: skips it, gives up on it, cannot store it, or goes on.\<close>

lemma download_parts_step:
  assumes "download_parts orc tb http clock (part # parts) s fs = (r, fs')"
  obtains (skip) "pCompleted part" "download_parts orc tb http clock parts s fs = (r, fs')"
  | (run) part0 s0 e part1 s1 fs1 where "\<not> pCompleted part"
      "pJobID part0 = pJobID part" "pTempPath part0 = pTempPath part" "pPartKey part0 = pPartKey part"
      "pSourceURL part0 = pSourceURL part" "pRelativePath part0 = pRelativePath part" "pCompleted part0 = pCompleted part" "dlJob s0 = dlJob s" "dlStore s0 = dlStore s"
      "Download http (download_progress orc clock) (part0, s0) fs = (e, (part1, s1), fs1)"
      "(\<exists>x. e = Some x \<and> fs' = fs1 \<and>
         r = Inl (nil, download_failed orc tb (dlCalls s1) (clock (dlTicks s1)) (dlStore s1) (dlJob s1) part1 x)) \<or>
       (e = nil \<and> (\<exists>t ue st s2. UpsertTransferPart (dlStore s1) (finished t part1) = (ue, st) \<and>
          dlStore s2 = st \<and> dlJob s2 = (dlJob s1)\<lparr>jRetryCount := 0\<rparr> \<and>
          (ue \<noteq> nil \<and> fs' = fs1 \<and> r = Inl (ue, st) \<or>
           ue = nil \<and> download_parts orc tb http clock parts s2 fs1 = (r, fs'))))"
proof (cases "pCompleted part")
  case True
  with assms skip show thesis by simp
next
  case False
  let ?now = "clock (dlTicks s)"
  let ?p0 = "if IsZero (pCreatedAt part) then part\<lparr>pUpdatedAt := ?now, pCreatedAt := ?now\<rparr> else part\<lparr>pUpdatedAt := ?now\<rparr>"
  let ?s0 = "s\<lparr>dlLastPersist := zero_time, dlTicks := Suc (dlTicks s)\<rparr>"
  obtain e part1 s1 fs1 where d: "Download http (download_progress orc clock) (?p0, ?s0) fs = (e, (part1, s1), fs1)"
    by (metis prod.collapse)
  let ?s2 = "s1\<lparr>dlJob := (dlJob s1)\<lparr>jRetryCount := 0\<rparr>, dlTicks := Suc (dlTicks s1)\<rparr>"
  let ?t = "clock (Suc (dlTicks s1))"
  obtain ue st where u: "UpsertTransferPart (dlStore s1) (finished ?t part1) = (ue, st)" by (rule prod.exhaust)
  have shape: "download_parts orc tb http clock (part # parts) s fs =
      (case e of
         Some e \<Rightarrow> (Inl (nil, download_failed orc tb (dlCalls s1) (clock (dlTicks s1)) (dlStore s1) (dlJob s1) part1 e), fs1)
       | None \<Rightarrow> (case ue of Some e \<Rightarrow> (Inl (Some e, st), fs1)
                 | None \<Rightarrow> download_parts orc tb http clock parts (?s2\<lparr>dlStore := st\<rparr>) fs1))"
    using False d u by (cases "IsZero (pCreatedAt part)") (simp_all add: Let_def finished_def split: option.split)
  show thesis
  proof (rule run [OF False _ _ _ _ _ _ _ _ d])
    show "(\<exists>x. e = Some x \<and> fs' = fs1 \<and>
         r = Inl (nil, download_failed orc tb (dlCalls s1) (clock (dlTicks s1)) (dlStore s1) (dlJob s1) part1 x)) \<or>
       (e = nil \<and> (\<exists>t ue st s2. UpsertTransferPart (dlStore s1) (finished t part1) = (ue, st) \<and>
          dlStore s2 = st \<and> dlJob s2 = (dlJob s1)\<lparr>jRetryCount := 0\<rparr> \<and>
          (ue \<noteq> nil \<and> fs' = fs1 \<and> r = Inl (ue, st) \<or>
           ue = nil \<and> download_parts orc tb http clock parts s2 fs1 = (r, fs'))))"
    proof (cases e)
      case (Some x)
      with shape assms show ?thesis by simp
    next
      case None
      have "ue \<noteq> nil \<and> fs' = fs1 \<and> r = Inl (ue, st) \<or>
          ue = nil \<and> download_parts orc tb http clock parts (?s2\<lparr>dlStore := st\<rparr>) fs1 = (r, fs')"
        using shape assms None by (cases ue) simp_all
      then show ?thesis using None u
        by - (rule disjI2, rule conjI, assumption, rule exI [of _ ?t], rule exI [of _ ue], rule exI [of _ st],
          rule exI [of _ "?s2\<lparr>dlStore := st\<rparr>"], simp)
    qed
  qed simp_all
qed

context write_contract begin

lemma download_parts_keeps:
  assumes T: "T StateFailed" "T StateLocalDownloading"
  shows "download_parts orc tb http clock parts s fs = (r, fs') \<Longrightarrow> I (dlStore s) \<Longrightarrow> P (dlStore s) (dlJob s) \<Longrightarrow>
    \<forall>p\<in>set parts. pJobID p = jID (dlJob s) \<and> G p \<Longrightarrow>
    (\<forall>e st. r = Inl (e, st) \<longrightarrow> I st) \<and>
    (\<forall>s'. r = Inr s' \<longrightarrow> I (dlStore s') \<and> P (dlStore s') (dlJob s') \<and> jID (dlJob s') = jID (dlJob s))"
proof (induction parts arbitrary: s fs)
  case (Cons part parts)
  let ?id = "jID (dlJob s)"
  from Cons.prems(1) show ?case
  proof (cases rule: download_parts_step)
    case skip
    then show ?thesis using Cons.IH [OF skip(2)] Cons.prems(2-4) by simp
  next
    case (run part0 s0 e part1 s1 fs1)
    have "G part0"
      using Cons.prems(4) good_cong [of part part0] run(1-3,6,7) by (simp add: same_place_def counted_def)
    then have "in_download I P T G ?id (part0, s0)"
      using Cons.prems(2-4) T(2) run(1,2,7-9) by (simp add: in_download_def)
    from progress.Download_out [OF this run(10)] have out: "in_download I P T G ?id (part1, s1) \<or>
        (\<exists>x. e = Some x \<and> halted I P G ?id x (part1, s1))" .
    show ?thesis
    proof (cases e)
      case (Some x)
      have "I (download_failed orc tb (dlCalls s1) (clock (dlTicks s1)) (dlStore s1) (dlJob s1) part1 x)"
        using out
      proof
        assume "in_download I P T G ?id (part1, s1)"
        then show ?thesis by (intro download_failed_keeps [OF _ _ _ _ _ _ _ T, of _ "dlJob s1"]) (simp_all add: in_download_def)
      next
        assume "\<exists>x. e = Some x \<and> halted I P G ?id x (part1, s1)"
        then have h: "halted I P G ?id x (part1, s1)" using Some by simp
        then obtain job0 where "P (dlStore s1) job0" "jID job0 = ?id" by (auto simp: halted_def)
        with h show ?thesis by (intro download_failed_keeps [OF _ _ _ _ _ _ _ T, of _ job0]) (auto simp: halted_def)
      qed
      with run(11) Some show ?thesis by auto
    next
      case None
      then have q: "I (dlStore s1)" "P (dlStore s1) (dlJob s1)" "jID (dlJob s1) = ?id" "pJobID part1 = ?id"
        "G part1" using out by (auto simp: in_download_def)
      obtain t ue st s2 where n: "UpsertTransferPart (dlStore s1) (finished t part1) = (ue, st)" "dlStore s2 = st" "dlJob s2 = (dlJob s1)\<lparr>jRetryCount := 0\<rparr>"
        "ue \<noteq> nil \<and> fs' = fs1 \<and> r = Inl (ue, st) \<or> ue = nil \<and> download_parts orc tb http clock parts s2 fs1 = (r, fs')"
        using run(11) None by auto
      have "G (finished t part1)"
        using q(5) by (rule good_cong) (simp_all add: same_place_def counted_def)
      then have st: "I st" "P st (dlJob s1)" using upsert_keeps [OF q(1,2), of "finished t part1"] n(1) q(3,4) by simp_all
      then have "P st (dlJob s2)" using may_write_cong n(3) by simp
      then show ?thesis using n(4) Cons.IH [of s2 fs1] Cons.prems(4) st(1) n(2,3) q(3) by auto
    qed
  qed
qed auto

end

lemma new_part_fields [simp]:
  "pJobID (new_part now job asset idx) = jID job" "pPartKey (new_part now job asset idx) = partKey asset idx"
  "pTempPath (new_part now job asset idx) = Join [deref (jStagingPath job), safeRelativePath (daRelativePath asset) idx]"
  "pCompleted (new_part now job asset idx) = False"
  by (simp_all add: new_part_def)

lemma with_staging_fields [frame_simps]:
  "jID (with_staging l job) = jID job" "jState (with_staging l job) = jState job"
  "jRetryCount (with_staging l job) = jRetryCount job" "jSubmissionKey (with_staging l job) = jSubmissionKey job"
  by (simp_all add: with_staging_def)

lemma ListTransferParts_job: "p \<in> set (ListTransferParts st k) \<Longrightarrow> pJobID p = k \<and> p \<in> set (sParts st)"
  by (simp add: ListTransferParts_def)

context write_contract begin

lemma register_parts_keeps:
  assumes "T StateFailed" and good: "\<And>asset idx. G (new_part now job asset idx)"
  shows "I st \<Longrightarrow> P st job \<Longrightarrow>
    case register_parts orc cwd now job idx assets st of Inl out \<Rightarrow> I (snd out) | Inr st' \<Rightarrow> I st' \<and> P st' job"
proof (induction assets arbitrary: idx st)
  case (Cons asset assets)
  note up = upsert_keeps [OF Cons.prems, of "new_part now job asset idx"]
  note u = update_state_returns [OF Cons.prems _ _ assms(1), unfolded snd_returning]
  obtain ue st1 where ue: "UpsertTransferPart st (new_part now job asset idx) = (ue, st1)" by (rule prod.exhaust)
  show ?case
    using up good Cons.IH [of st1 "Suc idx"] u by (simp add: Let_def ue split: option.split)
qed simp

lemma resolve_parts_keeps:
  assumes "I st" and "P st job" and T: "T StateFailed" "T StateLocalDownloading"
    and good: "\<And>asset idx. G (new_part now job asset idx)"
  shows "case resolve_parts orc tb cwd now st job of Inl out \<Rightarrow> I (snd out) | Inr out \<Rightarrow> I (snd out) \<and> P (snd out) job"
proof (cases "ListTransferParts st (jID job) = []")
  case False
  with assms(1,2) show ?thesis by (simp add: resolve_parts_def)
next
  case True
  note u = update_state_returns [OF assms(1,2) _ _ T(1)] update_state_returns [OF assms(1,2) _ _ T(2)]
  show ?thesis
  proof (cases "GetDownloadLinks tb 0 (source_text (jSourceType job)) (deref (jRemoteID job))")
    case (Inl e)
    with True u show ?thesis by (simp add: resolve_parts_def)
  next
    case (Inr assets)
    have "case register_parts orc cwd now job 0 assets st of Inl out \<Rightarrow> I (snd out) | Inr st' \<Rightarrow> I st' \<and> P st' job"
      by (rule register_parts_keeps [OF T(1) good assms(1,2)])
    then show ?thesis
      using True Inr u
      by (cases "register_parts orc cwd now job 0 assets st"; cases "assets = []") (simp_all add: resolve_parts_def)
  qed
qed

lemma conclude_download_keeps:
  "I st \<Longrightarrow> P st job \<Longrightarrow> T StateLocalVerify \<Longrightarrow> T StateLocalDownloading \<Longrightarrow> I (snd (conclude_download orc now st job))"
  using update_state_returns [of st job] by (simp add: conclude_download_def Let_def frame_simps)

lemma run_downloads_keeps:
  assumes "I st" and "P st job" and T: "T StateFailed" "T StateLocalDownloading"
    and good: "\<And>now asset idx. G (new_part now (with_staging (oLayout orc) job) asset idx)"
  shows "case fst (run_downloads orc tb http clock st fs job) of Inl out \<Rightarrow> I (snd out)
    | Inr s \<Rightarrow> I (dlStore s) \<and> P (dlStore s) (dlJob s) \<and> jID (dlJob s) = jID job"
proof -
  let ?job = "with_staging (oLayout orc) job"
  have p: "P st ?job" using assms(2) by (rule may_write_cong) (simp_all add: frame_simps)
  obtain me fs1 where m: "MkdirAll fs (deref (jStagingPath ?job)) = (me, fs1)" by (rule prod.exhaust)
  show ?thesis
  proof (cases me)
    case (Some e)
    with assms(1) m show ?thesis by (simp add: run_downloads_def Let_def)
  next
    case None
    note run = run_downloads_def [of orc tb http clock st fs job, unfolded Let_def m prod.case None option.case]
    have res: "case resolve_parts orc tb (fsCwd fs1) (clock 0) st ?job of Inl out \<Rightarrow> I (snd out) | Inr out \<Rightarrow> I (snd out) \<and> P (snd out) ?job"
      by (rule resolve_parts_keeps [OF assms(1) p T good])
    show ?thesis
    proof (cases "resolve_parts orc tb (fsCwd fs1) (clock 0) st ?job")
      case (Inl out)
      with res run show ?thesis by simp
    next
      case (Inr out)
      obtain calls st1 where out: "out = (calls, st1)" by (rule prod.exhaust)
      let ?s = "\<lparr>dlJob = ?job, dlStore = st1, dlVisible = (jState ?job = StateLocalDownloading \<and> 0 < jBytesTotal ?job),
          dlLastPersist = zero_time, dlTicks = 1, dlCalls = calls\<rparr>"
      obtain r fs2 where d: "download_parts orc tb http clock (ListTransferParts st1 (jID ?job)) ?s fs1 = (r, fs2)"
        by (rule prod.exhaust)
      have "(\<forall>e st. r = Inl (e, st) \<longrightarrow> I st) \<and>
          (\<forall>s'. r = Inr s' \<longrightarrow> I (dlStore s') \<and> P (dlStore s') (dlJob s') \<and> jID (dlJob s') = jID ?job)"
        using download_parts_keeps [OF T d] res Inr out ListTransferParts_job part_good [of st1] by auto
      then show ?thesis using run Inr out d by (auto simp: frame_simps split: sum.split)
    qed
  qed
qed

lemma processDownloadJob_keeps:
  assumes "I st" and "P st job" and T: "T StateFailed" "T StateLocalDownloading" "T StateLocalVerify"
    and good: "\<And>now asset idx. G (new_part now (with_staging (oLayout orc) job) asset idx)"
  shows "I (snd (fst (processDownloadJob orc tb http clock st fs job)))"
proof -
  have "case fst (run_downloads orc tb http clock st fs job) of Inl out \<Rightarrow> I (snd out)
    | Inr s \<Rightarrow> I (dlStore s) \<and> P (dlStore s) (dlJob s) \<and> jID (dlJob s) = jID job"
    by (rule run_downloads_keeps [OF assms(1,2) T(1,2) good])
  then show ?thesis using conclude_download_keeps [OF _ _ T(3,2)]
    by (cases "run_downloads orc tb http clock st fs job") (auto simp: processDownloadJob_def split: sum.splits)
qed

end

section \<open>The round\<close>

lemma download_frame:
  "jID j \<noteq> k \<Longrightarrow> GetJobByID (snd (fst (processDownloadJob orc tb http clock st fs j))) k = GetJobByID st k"
  by (rule other_jobs.processDownloadJob_keeps) simp_all

lemma download_state:
  "synced st j \<Longrightarrow> state_in (snd (fst (processDownloadJob orc tb http clock st fs j))) (jID j)
    (insert (jState j) {StateFailed, StateLocalDownloading, StateLocalVerify})"
  by (intro edges.processDownloadJob_keeps) (auto simp: in_hand_def state_in_def synced_def split: option.splits)

lemma download_step_store:
  "fst (download_step orc tb http clock s j) =
     ReleaseJobClaim (snd (fst (processDownloadJob orc (tb j) (http j) (clock j) (fst s) (snd s) j))) (jID j)"
  "snd (download_step orc tb http clock s j) = snd (processDownloadJob orc (tb j) (http j) (clock j) (fst s) (snd s) j)"
  by (simp_all add: download_step_def split: prod.split)

lemma runDownloader_facts:
  assumes "audited st"
  shows "audited (fst (runDownloader orc tb http now clock (st, fs)))"
    and "moves {StateLocalDownloadPending, StateLocalDownloading} {StateFailed, StateLocalDownloading, StateLocalVerify}
      st (fst (runDownloader orc tb http now clock (st, fs)))"
proof -
  let ?from = "[StateLocalDownloadPending, StateLocalDownloading]"
  obtain jobs st' where c: "ClaimJobsDue st ''downloader'' ?from now (BatchSize (oWorkers orc)) = (jobs, st')"
    by (rule prod.exhaust)
  have run: "runDownloader orc tb http now clock (st, fs) = for_each (download_step orc tb http clock) (st', fs) jobs"
    by (simp add: runDownloader_def c)
  note b = ClaimJobsDue_batch [OF assms c]
  show "audited (fst (runDownloader orc tb http now clock (st, fs)))" unfolding run
    by (rule audit_writes.for_each_keeps [where store_of = fst and states = "set ?from"])
       (use b in \<open>auto simp: download_step_store
          intro!: ReleaseJobClaim_audited audit_writes.processDownloadJob_keeps release_frame download_frame\<close>)
  have c': "ClaimJobsDue st ''downloader'' ?from now (BatchSize (oWorkers orc)) = (jobs, fst (st', fs))" using c by simp
  have "moves (set ?from) {StateFailed, StateLocalDownloading, StateLocalVerify} st (fst (runDownloader orc tb http now clock (st, fs)))"
    unfolding run by (rule round_moves [where store_of = fst, OF assms c'])
       (auto simp only: download_step_store intro!: release_frame download_frame release_state_in download_state)
  then show "moves {StateLocalDownloadPending, StateLocalDownloading} {StateFailed, StateLocalDownloading, StateLocalVerify}
      st (fst (runDownloader orc tb http now clock (st, fs)))" by simp
qed

section \<open>Where the downloads go\<close>

context fs_contract begin

lemma download_parts_tree:
  "download_parts orc tb http clock parts s fs = (r, fs') \<Longrightarrow> I fs \<Longrightarrow>
   \<forall>p\<in>set parts. P fs (pTempPath p) \<and> prefix (at fs (Dir (pTempPath p))) (at fs (pTempPath p)) \<Longrightarrow>
   I fs' \<and> fsCwd fs' = fsCwd fs"
proof (induction parts arbitrary: s fs)
  case (Cons part parts)
  from Cons.prems(1) show ?case
  proof (cases rule: download_parts_step)
    case skip
    then show ?thesis using Cons.IH [OF skip(2)] Cons.prems(2,3) by simp
  next
    case (run part0 s0 e part1 s1 fs1)
    have k: "I fs1" "fsCwd fs1 = fsCwd fs"
      using Download_keeps [of fs "(part0, s0)" http "download_progress orc clock"] Cons.prems(2,3) run(3,10) by simp_all
    have "\<forall>p\<in>set parts. P fs1 (pTempPath p) \<and> prefix (at fs1 (Dir (pTempPath p))) (at fs1 (pTempPath p))"
      using Cons.prems(3) path_cong k(2) by (auto simp: at_def)
    note IH = Cons.IH [OF _ k(1) this]
    from run(11) k IH show ?thesis by auto
  qed
qed simp

lemma processDownloadJob_tree:
  assumes "I fs" and "P fs (deref (jStagingPath (with_staging (oLayout orc) job)))"
    and parts: "\<And>fs' calls st'. fsCwd fs' = fsCwd fs \<Longrightarrow>
      resolve_parts orc tb (fsCwd fs) (clock 0) st (with_staging (oLayout orc) job) = Inr (calls, st') \<Longrightarrow>
      \<forall>p\<in>set (ListTransferParts st' (jID job)). P fs' (pTempPath p) \<and> prefix (at fs' (Dir (pTempPath p))) (at fs' (pTempPath p))"
  shows "I (snd (processDownloadJob orc tb http clock st fs job))"
proof -
  let ?job = "with_staging (oLayout orc) job"
  obtain me fs1 where m: "MkdirAll fs (deref (jStagingPath ?job)) = (me, fs1)" by (rule prod.exhaust)
  have k: "I fs1 \<and> fsCwd fs1 = fsCwd fs" by (rule mkdir_keepsI [OF assms(1,2) m])
  define s where "s = (\<lambda>calls st'. \<lparr>dlJob = ?job, dlStore = st',
      dlVisible = (jState ?job = StateLocalDownloading \<and> 0 < jBytesTotal ?job),
      dlLastPersist = zero_time, dlTicks = 1, dlCalls = calls\<rparr>)"
  have "snd (run_downloads orc tb http clock st fs job) = fs1 \<or>
      (\<exists>calls st'. resolve_parts orc tb (fsCwd fs) (clock 0) st ?job = Inr (calls, st') \<and>
        snd (run_downloads orc tb http clock st fs job) =
        snd (download_parts orc tb http clock (ListTransferParts st' (jID job)) (s calls st') fs1))"
    unfolding run_downloads_def Let_def m prod.case s_def
    by (auto simp: k frame_simps split: option.split sum.split prod.split)
  then have "I (snd (run_downloads orc tb http clock st fs job))"
  proof (elim exE disjE conjE)
    fix calls st'
    assume r: "resolve_parts orc tb (fsCwd fs) (clock 0) st ?job = Inr (calls, st')"
      and run: "snd (run_downloads orc tb http clock st fs job) =
        snd (download_parts orc tb http clock (ListTransferParts st' (jID job)) (s calls st') fs1)"
    obtain x fs2 where "download_parts orc tb http clock (ListTransferParts st' (jID job)) (s calls st') fs1 = (x, fs2)"
      by (rule prod.exhaust)
    with download_parts_tree [OF this conjunct1 [OF k] parts [OF conjunct2 [OF k] r]] run
    show ?thesis by simp
  qed (use k in simp)
  then show ?thesis
    by (cases "run_downloads orc tb http clock st fs job") (simp add: processDownloadJob_def split: sum.split)
qed

end

text \<open>A part below a directory: at a relative path of plain names.\<close>

definition staged :: "string \<Rightarrow> transfer_part \<Rightarrow> bool" where
  "staged dir p \<longleftrightarrow> pTempPath p = Join [dir, pRelativePath p] \<and> named (split_path (pRelativePath p))"

lemma UpsertTransferPart_good:
  assumes "\<forall>p\<in>set (sParts st). G p" and "G p" and "\<And>p q. G p \<Longrightarrow> q = p\<lparr>pID := pID q, pCreatedAt := pCreatedAt q\<rparr> \<Longrightarrow> G q"
  shows "\<forall>p\<in>set (sParts (snd (UpsertTransferPart st p))). G p"
  using assms(1,2) assms(3) [OF assms(2)] by (auto simp: UpsertTransferPart_def merged_part_def)

interpretation staged_parts: write_contract "\<lambda>st. \<forall>p\<in>set (sParts st). pJobID p = k \<longrightarrow> staged dir p"
  "\<lambda>_ _. True" "\<lambda>_. True" "\<lambda>p. pJobID p = k \<longrightarrow> staged dir p" for k dir :: string
proof unfold_locales
  fix st :: store and job :: job and p
  assume "\<forall>p\<in>set (sParts st). pJobID p = k \<longrightarrow> staged dir p" "pJobID p = k \<longrightarrow> staged dir p"
  then have "\<forall>q\<in>set (sParts (snd (UpsertTransferPart st p))). pJobID q = k \<longrightarrow> staged dir q"
    by (rule UpsertTransferPart_good) (metis staged_def transfer_part.ext_inject transfer_part.surjective transfer_part.update_convs(1,12))
  then show "(\<forall>q\<in>set (sParts (snd (UpsertTransferPart st p))). pJobID q = k \<longrightarrow> staged dir q) \<and> True" by simp
next
  fix st now s m e st' and job job' :: job
  assume *: "\<forall>p\<in>set (sParts st). pJobID p = k \<longrightarrow> staged dir p" "UpdateJobState st now job s m = (e, job', st')"
  then show "(\<forall>p\<in>set (sParts st'). pJobID p = k \<longrightarrow> staged dir p) \<and> (e = nil \<longrightarrow> True)"
    by (simp add: UpdateJobState_storeI(1) [OF *(2)] store_simps)
qed (auto simp: store_simps staged_def same_place_def)

interpretation counted_parts: write_contract "\<lambda>st. \<forall>p\<in>set (sParts st). counted p"
  "\<lambda>_ _. True" "\<lambda>_. True" counted
proof unfold_locales
  fix st :: store and job :: job and p
  assume "\<forall>p\<in>set (sParts st). counted p" "counted p"
  then have "\<forall>q\<in>set (sParts (snd (UpsertTransferPart st p))). counted q"
    by (rule UpsertTransferPart_good) (metis counted_def transfer_part.ext_inject transfer_part.surjective transfer_part.update_convs(1,12))
  then show "(\<forall>q\<in>set (sParts (snd (UpsertTransferPart st p))). counted q) \<and> True" by simp
next
  fix st now s m e st' and job job' :: job
  assume *: "\<forall>p\<in>set (sParts st). counted p" "UpdateJobState st now job s m = (e, job', st')"
  then show "(\<forall>p\<in>set (sParts st'). counted p) \<and> (e = nil \<longrightarrow> True)"
    by (simp add: UpdateJobState_storeI(1) [OF *(2)] store_simps)
qed (auto simp: store_simps)

section \<open>Properties\<close>

lemma staged_place:
  assumes "IsAbs dir" and "staged dir p"
  shows "at fs (pTempPath p) = at fs dir @ split_path (pRelativePath p)"
    and "at fs (Dir (pTempPath p)) = butlast (at fs (pTempPath p))"
proof -
  have "plain (split_path (pRelativePath p))" using assms(2) by (simp add: staged_def name_comp_def)
  then show "at fs (pTempPath p) = at fs dir @ split_path (pRelativePath p)"
    using assms Join_plain [OF assms(1)] by (simp add: staged_def at_abs IsAbs_Join)
  show "at fs (Dir (pTempPath p)) = butlast (at fs (pTempPath p))"
    using assms(2) at_Dir_Join [OF assms(1)] by (simp add: staged_def)
qed

lemma new_part_staged: "staged (deref (jStagingPath job)) (new_part now job asset idx)"
  using safeRelativePath_named by (simp add: staged_def new_part_def)

lemma resolve_parts_staged:
  assumes "\<forall>p\<in>set (sParts st). pJobID p = jID job \<longrightarrow> staged (deref (jStagingPath job)) p"
  shows "case resolve_parts orc tb cwd now st job of Inl out \<Rightarrow> True
    | Inr out \<Rightarrow> \<forall>p\<in>set (sParts (snd out)). pJobID p = jID job \<longrightarrow> staged (deref (jStagingPath job)) p"
proof -
  let ?good = "\<lambda>st. \<forall>p\<in>set (sParts st). pJobID p = jID job \<longrightarrow> staged (deref (jStagingPath job)) p"
  have "case resolve_parts orc tb cwd now st job of Inl out \<Rightarrow> ?good (snd out) | Inr out \<Rightarrow> ?good (snd out) \<and> True"
    using assms new_part_staged by (intro staged_parts.resolve_parts_keeps) simp_all
  then show ?thesis by (simp split: sum.splits)
qed

text \<open>
  C10. Downloads stay in the staging directory. When the job's parts lie below its staging directory,
  a run of the downloader, whatever paths the service names for its assets and however the
  transfers end, changes no node of the file tree that is neither in that directory nor on the way
  to it, and the parts it registers or updates lie there as well.
\<close>

theorem downloads_stay_in_staging:
  assumes "dir = deref (jStagingPath (with_staging (oLayout orc) job))" and "IsAbs dir"
    and "\<forall>p\<in>set (sParts st). pJobID p = jID job \<longrightarrow> staged dir p"
    and "processDownloadJob orc tb http clock st fs job = ((e, st'), fs')"
  shows "confined [at fs dir] fs fs' \<and> (\<forall>p\<in>set (sParts st'). pJobID p = jID job \<longrightarrow> staged dir p)"
proof
  let ?job = "with_staging (oLayout orc) job"
  have in_dir: "inside [at fs dir] (at fs2 (pTempPath p)) \<and> prefix (at fs2 (Dir (pTempPath p))) (at fs2 (pTempPath p))"
    if "staged dir p" "fsCwd fs2 = fsCwd fs" for p fs2
    using staged_place [OF assms(2) that(1), of fs2] that(2)
    by (simp add: inside_def at_def prefixeq_butlast)
  have "confined [at fs dir] fs (snd (processDownloadJob orc tb http clock st fs job))"
  proof (rule confine.processDownloadJob_tree)
    show "confined [at fs dir] fs fs" by simp
    show "inside [at fs dir] (at fs (deref (jStagingPath ?job)))" by (simp add: inside_def assms(1))
    fix fs2 :: fs and calls st2
    assume cwd: "fsCwd fs2 = fsCwd fs"
      and r: "resolve_parts orc tb (fsCwd fs) (clock 0) st ?job = Inr (calls, st2)"
    have "\<forall>p\<in>set (sParts st2). pJobID p = jID job \<longrightarrow> staged dir p"
      using resolve_parts_staged [of st ?job orc tb "fsCwd fs" "clock 0"] assms(1,3) r by (simp add: frame_simps)
    then show "\<forall>p\<in>set (ListTransferParts st2 (jID job)). inside [at fs dir] (at fs2 (pTempPath p)) \<and>
        prefix (at fs2 (Dir (pTempPath p))) (at fs2 (pTempPath p))"
      using in_dir [OF _ cwd] ListTransferParts_job by blast
  qed
  then show "confined [at fs dir] fs fs'" using assms(4) by simp
  have "\<forall>p\<in>set (sParts (snd (fst (processDownloadJob orc tb http clock st fs job)))). pJobID p = jID job \<longrightarrow> staged dir p"
    using new_part_staged [of ?job] assms(1,3) by (intro staged_parts.processDownloadJob_keeps) simp_all
  then show "\<forall>p\<in>set (sParts st'). pJobID p = jID job \<longrightarrow> staged dir p" using assms(4) by simp
qed

definition links_to :: "string \<Rightarrow> torbox_client" where
  "links_to path = silent\<lparr>GetDownloadLinks := \<lambda>_ _ _. Inr [\<lparr>daFileID = [], daURL = ''u'', daRelativePath = path, daSize = 5\<rparr>]\<rparr>"

theorem downloads_stay_in_staging_witness:
  "confined [[''data'', ''staging'', ''0a1b'']] sample_tree
     (snd (processDownloadJob sample_orc (links_to ''../../../etc/passwd'') sample_http (\<lambda>_. 0)
        (sample_store StateLocalDownloadPending) sample_tree (sample_job StateLocalDownloadPending)))"
proof -
  let ?job = "sample_job StateLocalDownloadPending"
  have dir: "''/data/staging/0a1b'' = deref (jStagingPath (with_staging (oLayout sample_orc) ?job))"
    by (simp add: with_staging_def deref_def)
  have none: "\<forall>p\<in>set (sParts (sample_store StateLocalDownloadPending)). pJobID p = jID ?job \<longrightarrow> staged ''/data/staging/0a1b'' p"
    by code_simp
  have "at sample_tree ''/data/staging/0a1b'' = [''data'', ''staging'', ''0a1b'']" by code_simp
  with downloads_stay_in_staging [OF dir _ none, of "links_to ''../../../etc/passwd''" sample_http "\<lambda>_. 0" sample_tree]
  show ?thesis by (cases "processDownloadJob sample_orc (links_to ''../../../etc/passwd'') sample_http (\<lambda>_. 0)
      (sample_store StateLocalDownloadPending) sample_tree ?job") auto
qed

text \<open>No other active row can have the key of an active row, so that the job can be written.\<close>

lemma own_key_free:
  assumes "store_wf st" and "GetJobByID st (jID job) = Some row" and "active row"
    and "jSubmissionKey row = jSubmissionKey job"
  shows "\<not> key_taken st job"
proof
  assume "key_taken st job"
  then obtain r where r: "r \<in> set (sJobs st)" "jID r \<noteq> jID job" "active r" "jSubmissionKey r = jSubmissionKey job"
    by (auto simp: key_taken_def list_ex_iff)
  have "row \<in> set (sJobs st)" "jID row = jID job" using GetJobByID_SomeD [OF assms(2)] by simp_all
  with keys_uniqueD [OF store_wfD(3) [OF assms(1)] r(1) this(1) r(3) assms(3)] r assms(4) show False by simp
qed

lemma UpdateJobState_succeeds:
  assumes "store_wf st" and "GetJobByID st (jID job) = Some row" and "active row"
    and "jSubmissionKey row = jSubmissionKey job"
  shows "fst (UpdateJobState st now job s m) = nil"
proof (cases "UpdateJobState st now job s m")
  case (fields e job' st')
  have "\<not> key_taken st (job\<lparr>jState := s\<rparr>)" 
    by (rule own_key_free [OF assms(1) _ assms(3)]) (use assms in simp_all)
  moreover have "job_exists st (jID job)" using assms(2) by (simp add: job_exists_iff_find)
  ultimately show ?thesis using fields UpdateJobState_failed(3) [of st now job s m _ job' st'] by (cases e) auto
qed

lemma refresh_jobs:
  assumes "refreshDownloadPartSourceURL tb c now st job part e = ((b, x), part', st')"
  shows "sJobs st' = sJobs st" and "store_wf st \<Longrightarrow> store_wf st'"
proof -
  have "st' = st \<or> (\<exists>p. st' = snd (UpsertTransferPart st p))"
    using assms unfolding refreshDownloadPartSourceURL_def Let_def
    by (auto split: if_splits sum.splits option.splits prod.splits) (metis snd_conv)+
  then show "sJobs st' = sJobs st" and "store_wf st \<Longrightarrow> store_wf st'" by (auto simp: store_simps UpsertTransferPart_wf)
qed

text \<open>
  C12. What a failed download makes of the job. A status of 5xx counts one more failure in a row, any
  other failure starts the count over. A 404 without a fresh link, and the third 5xx in a row, end
  the job; after any other failure it stays a local download that is due one interval later.
\<close>

theorem download_error_outcome:
  assumes "store_wf st" and "GetJobByID st (jID job) = Some row" and "active row"
    and "jSubmissionKey row = jSubmissionKey job"
    and "refreshed = fst (fst (refreshDownloadPartSourceURL tb calls now st job part e))"
  shows "\<exists>row'. GetJobByID (download_failed orc tb calls now st job part e) (jID job) = Some row' \<and>
    jRetryCount row' = (if isRefresh5xx (status_of e) then jRetryCount job + 1 else 0) \<and>
    (if status_of e = 404 \<and> \<not> refreshed \<or> isRefresh5xx (status_of e) \<and> 3 \<le> jRetryCount job + 1
     then jState row' = StateFailed \<and> jNextRunAt row' = None
     else jState row' = StateLocalDownloading \<and> jNextRunAt row' = Some (now + DownloadInterval (oWorkers orc)))"
proof -
  obtain x part1 st1 where r: "refreshDownloadPartSourceURL tb calls now st job part e = ((refreshed, x), part1, st1)"
    unfolding assms(5) by (metis prod.collapse)
  let ?st2 = "snd (UpsertTransferPart st1 part1)"
  obtain j s m where j: "download_failed orc tb calls now st job part e = snd (snd (UpdateJobState ?st2 now j s m))"
    "jID j = jID job" "jSubmissionKey j = jSubmissionKey job" "failure_write orc now job e refreshed j s"
    using download_failed_shape [OF r] by blast
  have "sJobs ?st2 = sJobs st" "store_wf ?st2"
    using refresh_jobs [OF r] assms(1) by (simp_all add: store_simps UpsertTransferPart_wf)
  moreover from this(1) have "GetJobByID ?st2 (jID j) = Some row" using assms(2) j(2) by (simp add: GetJobByID_def)
  ultimately have "fst (UpdateJobState ?st2 now j s m) = nil"
    using assms(4) j(3) by (intro UpdateJobState_succeeds [OF _ _ assms(3)]) simp_all
  then obtain row2 where "GetJobByID (snd (snd (UpdateJobState ?st2 now j s m))) (jID j) =
      Some (updated_row (j\<lparr>jState := s, jUpdatedAt := now\<rparr>) row2)" by (rule UpdateJobState_row)
  with j show ?thesis
    by (auto simp: failure_write_def gives_up_def max5xxRetries_def split: if_splits)
qed

theorem download_error_outcome_witness:
  "\<exists>row. GetJobByID (download_failed sample_orc silent 0 0 (sample_store StateLocalDownloading)
       ((sample_job StateLocalDownloading)\<lparr>jRetryCount := 2\<rparr>) sample_part (HTTPStatusError 503)) ''0a1b'' = Some row \<and>
     jState row = StateFailed \<and> jRetryCount row = 3"
proof -
  let ?st = "sample_store StateLocalDownloading" and ?job = "(sample_job StateLocalDownloading)\<lparr>jRetryCount := 2\<rparr>"
  have wf: "store_wf ?st" using sample_store_audited by (simp add: audited_def)
  have row: "GetJobByID ?st (jID ?job) = Some (sample_job StateLocalDownloading)" by (simp add: sample_store_row)
  have act: "active (sample_job StateLocalDownloading)" by (simp add: active_def active_states_def)
  have code: "status_of (HTTPStatusError 503) = 503" "isRefresh5xx 503" by (simp_all add: status_of_def isRefresh5xx_def)
  show ?thesis
    using download_error_outcome [OF wf row act _ refl,
        where tb = silent and calls = 0 and now = 0 and part = sample_part and e = "HTTPStatusError 503" and orc = sample_orc] code
    by auto
qed

text \<open>
  C11. Only a finished download goes to the finalizer. When a run of the downloader leaves the job in
  the state local verify, the job has parts, every one of them is marked complete with as many
  bytes done as it should have (or with an unknown size), and the job's byte count is their sum.
\<close>

theorem verify_when_complete:
  assumes "synced st job" and "jState job \<noteq> StateLocalVerify" and "\<forall>p\<in>set (sParts st). counted p"
    and "processDownloadJob orc tb http clock st fs job = ((e, st'), fs')"
    and "GetJobByID st' (jID job) = Some row" and "jState row = StateLocalVerify"
  shows "ListTransferParts st' (jID job) \<noteq> [] \<and> jBytesDone row = done_bytes (ListTransferParts st' (jID job)) \<and>
    (\<forall>p\<in>set (ListTransferParts st' (jID job)).
       pCompleted p \<and> (pContentLength p = 0 \<or> pContentLength p \<le> pBytesDone p))"
proof -
  let ?S = "{jState job, StateFailed, StateLocalDownloading}" and ?k = "jID job"
  obtain r fs2 where run: "run_downloads orc tb http clock st fs job = (r, fs2)" by (rule prod.exhaust)
  have edge: "case fst (run_downloads orc tb http clock st fs job) of Inl out \<Rightarrow> state_in (snd out) ?k ?S
      | Inr s \<Rightarrow> state_in (dlStore s) ?k ?S \<and> in_hand ?k ?S (dlStore s) (dlJob s) \<and> jID (dlJob s) = jID job"
    using assms(1) by (intro edges.run_downloads_keeps) (auto simp: in_hand_def state_in_def synced_def split: option.splits)
  have good: "case fst (run_downloads orc tb http clock st fs job) of Inl out \<Rightarrow> \<forall>p\<in>set (sParts (snd out)). counted p
      | Inr s \<Rightarrow> (\<forall>p\<in>set (sParts (dlStore s)). counted p) \<and> True \<and> jID (dlJob s) = jID job"
    using assms(3) by (intro counted_parts.run_downloads_keeps) (simp_all add: counted_def)
  have out: "\<not> state_in st' ?k ?S" using assms(2,5,6) by (simp add: state_in_def)
  show ?thesis
  proof (cases r)
    case (Inl o')
    with run edge assms(4) out show ?thesis by (simp add: processDownloadJob_def)
  next
    case (Inr s)
    let ?parts = "ListTransferParts (dlStore s) ?k" and ?job = "dlJob s"
    have id: "jID ?job = ?k" and c: "(e, st') = conclude_download orc (clock (dlTicks s)) (dlStore s) ?job"
      and hand: "state_in (dlStore s) ?k ?S" "in_hand ?k ?S (dlStore s) ?job"
      using run edge Inr assms(4) by (simp_all add: processDownloadJob_def)
    have parts: "ListTransferParts st' ?k = ?parts"
      using arg_cong [OF c, of snd] by (simp add: conclude_download_def Let_def store_simps split: if_splits)
    have all: "allPartsCompleted ?parts"
    proof (rule ccontr)
      assume no: "\<not> allPartsCompleted ?parts"
      have "state_in (snd (conclude_download orc (clock (dlTicks s)) (dlStore s) ?job)) ?k ?S"
        using no id edges.update_state_returns [OF hand] by (simp add: conclude_download_def Let_def frame_simps)
      with c out show False by (metis snd_conv)
    qed
    have counted: "\<forall>p\<in>set ?parts. counted p" using good run Inr by (simp add: ListTransferParts_def)
    have bytes: "jBytesDone row = done_bytes ?parts"
    proof -
      let ?new = "(syncJobBytesFromParts ?job ?parts)\<lparr>jErrorMessage := None, jUpdatedAt := clock (dlTicks s), jNextRunAt := Some (clock (dlTicks s))\<rparr>"
      have w: "st' = snd (snd (UpdateJobState (dlStore s) (clock (dlTicks s)) ?new StateLocalVerify ''local download finished''))"
        using arg_cong [OF c, of snd] all id by (simp add: conclude_download_def Let_def)
      have "fst (UpdateJob (dlStore s) (?new\<lparr>jState := StateLocalVerify, jUpdatedAt := clock (dlTicks s)\<rparr>)) = nil"
        using assms(5,6) hand(1) out unfolding w by (auto simp: store_simps state_in_def frame_simps id split: if_splits option.splits)
      with assms(5) show ?thesis unfolding w by (auto simp: store_simps frame_simps id)
    qed
    from all counted bytes show ?thesis
      unfolding parts by (auto simp: allPartsCompleted_def counted_def list_all_iff split: if_splits)
  qed
qed

theorem verify_when_complete_witness:
  "\<exists>st' row. st' = snd (fst (processDownloadJob sample_orc (links_to ''f.mkv'') sample_http (\<lambda>_. 0)
       (sample_store StateLocalDownloadPending) sample_tree (sample_job StateLocalDownloadPending))) \<and>
     GetJobByID st' ''0a1b'' = Some row \<and> jState row = StateLocalVerify \<and> ListTransferParts st' ''0a1b'' \<noteq> [] \<and>
     jBytesDone row = done_bytes (ListTransferParts st' ''0a1b'')"
proof -
  let ?job = "sample_job StateLocalDownloadPending" and ?st = "sample_store StateLocalDownloadPending"
  let ?run = "processDownloadJob sample_orc (links_to ''f.mkv'') sample_http (\<lambda>_. 0) ?st sample_tree ?job"
  have run: "?run = ((fst (fst ?run), snd (fst ?run)), snd ?run)" by simp
  have "map_option jState (GetJobByID (snd (fst ?run)) ''0a1b'') = Some StateLocalVerify" by code_simp
  then obtain row where row: "GetJobByID (snd (fst ?run)) (jID ?job) = Some row" "jState row = StateLocalVerify" by auto
  have "\<forall>p\<in>set (sParts ?st). counted p" by code_simp
  from verify_when_complete [OF _ _ this run row] row show ?thesis by auto
qed

end
