(* ===== verification/Finalizer.thy ===== *)
theory Finalizer
  imports Worker_Samples
begin

text \<open>
  The finalizer (\<open>internal/worker/finalize.go\<close>): it checks that every part of a download is on
  disk in full and moves the staging directory to the completed path.
\<close>

text \<open>The first part that is missing or too short, as the message the job gets.\<close>

fun verify_parts :: "fs \<Rightarrow> transfer_part list \<Rightarrow> string option" where
  "verify_parts fs [] = None"
| "verify_parts fs (part # parts) =
     (case Stat fs (pTempPath part) of
        Inl e \<Rightarrow> Some (''missing downloaded part '' @ pTempPath part)
      | Inr info \<Rightarrow>
          if 0 < pContentLength part \<and> node_size info < pContentLength part
          then Some (''part '' @ pTempPath part @ '' is incomplete'')
          else verify_parts fs parts)"

definition processFinalizeJob ::
  "orchestrator \<Rightarrow> time \<Rightarrow> store \<Rightarrow> fs \<Rightarrow> job \<Rightarrow> (err \<times> store) \<times> fs" where
  "processFinalizeJob orc now st fs job =
     (let parts = ListTransferParts st (jID job) in
      if parts = []
      then (returning (UpdateJobState st now
              (job\<lparr>jErrorMessage := Some ''no transfer parts available for verification'', jUpdatedAt := now\<rparr>)
              StateFailed ''no transfer parts available for verification''), fs)
      else case verify_parts fs parts of
        Some msg \<Rightarrow>
          (returning (UpdateJobState st now
             (job\<lparr>jErrorMessage := Some msg, jUpdatedAt := now,
                  jNextRunAt := Some (now + DownloadInterval (oWorkers orc))\<rparr>)
             StateLocalDownloading msg), fs)
      | None \<Rightarrow>
          let completedPath = CompletedPathForJob (oLayout orc) (jCategory job) (jDisplayName job) (jID job) in
          (case Promote fs (deref (jStagingPath job)) completedPath of
             (Some e, fs') \<Rightarrow>
               (returning (UpdateJobState st now (job\<lparr>jErrorMessage := Some (Error e), jUpdatedAt := now\<rparr>)
                  StateFailed (Error e)), fs')
           | (None, fs') \<Rightarrow>
               let job = syncJobBytesFromParts job parts in
               (returning (UpdateJobState st now
                  (job\<lparr>jCompletedPath := Some completedPath, jErrorMessage := None, jNextRunAt := None, jUpdatedAt := now\<rparr>)
                  StateCompleted ''moved to completed path''), fs')))"

definition finalize_step :: "orchestrator \<Rightarrow> time \<Rightarrow> store \<times> fs \<Rightarrow> job \<Rightarrow> store \<times> fs" where
  "finalize_step orc now s job =
     (case processFinalizeJob orc now (fst s) (snd s) job of ((e, st), fs) \<Rightarrow> (ReleaseJobClaim st (jID job), fs))"

definition runFinalizer :: "orchestrator \<Rightarrow> time \<Rightarrow> store \<times> fs \<Rightarrow> store \<times> fs" where
  "runFinalizer orc now s =
     (case ClaimJobsDue (fst s) ''finalizer'' [StateLocalVerify] now (BatchSize (oWorkers orc)) of
        (jobs, st') \<Rightarrow> for_each (finalize_step orc now) (st', snd s) jobs)"

section \<open>What the handler keeps\<close>

context write_contract begin

lemma processFinalizeJob_keeps:
  assumes "I st" and "P st job" and T: "T StateFailed" "T StateLocalDownloading" "T StateCompleted"
  shows "I (snd (fst (processFinalizeJob orc now st fs job)))"
proof -
  note u = update_state_returns [OF assms(1,2), unfolded snd_returning]
  show ?thesis
    by (simp add: processFinalizeJob_def Let_def u T frame_simps split: option.split prod.split)
qed

end

context fs_contract begin

lemma processFinalizeJob_tree:
  assumes "I fs" and "P fs (deref (jStagingPath job))" and "IsAbs (Completed (oLayout orc))"
    and "P fs (CompletedPathForJob (oLayout orc) (jCategory job) (jDisplayName job) (jID job))"
  shows "I (snd (processFinalizeJob orc now st fs job))"
proof -
  let ?q = "CompletedPathForJob (oLayout orc) (jCategory job) (jDisplayName job) (jID job)"
  have "prefix (at fs (Dir ?q)) (at fs ?q)" by (simp add: at_Dir_Completed [OF assms(3)] prefixeq_butlast)
  then have "I (snd (Promote fs (deref (jStagingPath job)) ?q))" by (rule Promote_keeps [OF assms(1,2,4)])
  with assms(1) show ?thesis
    by (auto simp: processFinalizeJob_def Let_def split: option.split prod.split)
qed

end

section \<open>The round\<close>

lemma finalize_frame: "jID j \<noteq> k \<Longrightarrow> GetJobByID (snd (fst (processFinalizeJob orc now st fs j))) k = GetJobByID st k"
  by (rule other_jobs.processFinalizeJob_keeps) simp_all

lemma finalize_state:
  "synced st j \<Longrightarrow> state_in (snd (fst (processFinalizeJob orc now st fs j))) (jID j)
    (insert (jState j) {StateFailed, StateLocalDownloading, StateCompleted})"
  by (intro edges.processFinalizeJob_keeps) (auto simp: in_hand_def state_in_def synced_def split: option.splits)

lemma finalize_step_store:
  "fst (finalize_step orc now s j) = ReleaseJobClaim (snd (fst (processFinalizeJob orc now (fst s) (snd s) j))) (jID j)"
  "snd (finalize_step orc now s j) = snd (processFinalizeJob orc now (fst s) (snd s) j)"
  by (simp_all add: finalize_step_def split: prod.split)

lemma runFinalizer_facts:
  assumes "audited st"
  shows "audited (fst (runFinalizer orc now (st, fs)))"
    and "moves {StateLocalVerify} {StateFailed, StateLocalDownloading, StateCompleted} st (fst (runFinalizer orc now (st, fs)))"
proof -
  obtain jobs st' where c: "ClaimJobsDue st ''finalizer'' [StateLocalVerify] now (BatchSize (oWorkers orc)) = (jobs, st')"
    by fastforce
  have run: "runFinalizer orc now (st, fs) = for_each (finalize_step orc now) (st', fs) jobs" by (simp add: runFinalizer_def c)
  note b = ClaimJobsDue_batch [OF assms c]
  show "audited (fst (runFinalizer orc now (st, fs)))" unfolding run
    by (rule audit_writes.for_each_keeps [where store_of = fst and states = "{StateLocalVerify}"])
       (use b in \<open>auto simp: finalize_step_store
          intro!: ReleaseJobClaim_audited audit_writes.processFinalizeJob_keeps release_frame finalize_frame\<close>)
  have c': "ClaimJobsDue st ''finalizer'' [StateLocalVerify] now (BatchSize (oWorkers orc)) = (jobs, fst (st', fs))"
    using c by simp
  show "moves {StateLocalVerify} {StateFailed, StateLocalDownloading, StateCompleted} st (fst (runFinalizer orc now (st, fs)))"
    unfolding run list.set(2) [of StateLocalVerify "[]", unfolded list.set(1), symmetric]
    by (rule round_moves [where store_of = fst, OF assms c'])
       (auto simp only: finalize_step_store intro!: release_frame finalize_frame release_state_in finalize_state)
qed

section \<open>Properties\<close>

lemma verify_parts_ok:
  "verify_parts fs parts = None \<longleftrightarrow>
   (\<forall>p\<in>set parts. \<exists>n. Stat fs (pTempPath p) = Inr n \<and> (0 < pContentLength p \<longrightarrow> pContentLength p \<le> node_size n))"
  by (induction fs parts rule: verify_parts.induct) (auto split: sum.split)

text \<open>
  C14. A job is completed only when its download is whole: the row is completed exactly when the
  job has parts, every part is on disk with at least its expected size, and the promotion of the
  staging directory succeeded; then the row names the completed path. A missing or short part
  sends the job back to the downloader without touching the file system, and a failed promotion
  or a job without parts ends it.
\<close>

theorem finalize_verifies:
  assumes "processFinalizeJob orc now st fs job = ((nil, st'), fs')"
    and "parts = ListTransferParts st (jID job)"
    and "q = CompletedPathForJob (oLayout orc) (jCategory job) (jDisplayName job) (jID job)"
    and "whole \<longleftrightarrow> (\<forall>p\<in>set parts. \<exists>n. Stat fs (pTempPath p) = Inr n \<and> (0 < pContentLength p \<longrightarrow> pContentLength p \<le> node_size n))"
  shows "\<exists>row. GetJobByID st' (jID job) = Some row \<and>
    (if parts = [] then jState row = StateFailed \<and> fs' = fs
     else if \<not> whole
     then jState row = StateLocalDownloading \<and> jNextRunAt row = Some (now + DownloadInterval (oWorkers orc)) \<and> fs' = fs
     else fs' = snd (Promote fs (deref (jStagingPath job)) q) \<and>
       (if fst (Promote fs (deref (jStagingPath job)) q) = nil
        then jState row = StateCompleted \<and> jCompletedPath row = Some q \<and> jBytesDone row = done_bytes parts \<and> jErrorMessage row = None
        else jState row = StateFailed))"
proof -
  have w: "whole \<longleftrightarrow> verify_parts fs parts = None" using verify_parts_ok assms(4) by blast
  obtain e fs1 where p: "Promote fs (deref (jStagingPath job)) q = (e, fs1)" by fastforce
  have row: "\<exists>row. GetJobByID st' (jID job) = Some row \<and> jState row = s \<and> jNextRunAt row = jNextRunAt j \<and>
      jCompletedPath row = jCompletedPath j \<and> jBytesDone row = jBytesDone j \<and> jErrorMessage row = jErrorMessage j"
    if w: "returning (UpdateJobState st now j s m) = (nil, st')" and i: "jID j = jID job" for j s m
  proof -
    obtain row where "GetJobByID st' (jID j) = Some (updated_row (j\<lparr>jState := s, jUpdatedAt := now\<rparr>) row)"
      by (rule returning_row [OF w])
    with i show ?thesis by simp
  qed
  consider "parts = []" | "parts \<noteq> []" "\<not> whole" | "parts \<noteq> []" "whole" "e = nil" | "parts \<noteq> []" "whole" "e \<noteq> nil" by blast
  then show ?thesis
  proof cases
    case 1
    with assms(1,2) row show ?thesis by (fastforce simp: processFinalizeJob_def Let_def)
  next
    case 2
    with w obtain msg where "verify_parts fs parts = Some msg" by auto
    with 2 assms(1,2) row show ?thesis by (fastforce simp: processFinalizeJob_def Let_def)
  next
    case 3
    with w p assms(1-3) have f: "fs' = fs1" and r: "returning (UpdateJobState st now
        (syncJobBytesFromParts job parts\<lparr>jCompletedPath := Some q, jErrorMessage := None, jNextRunAt := None, jUpdatedAt := now\<rparr>)
        StateCompleted ''moved to completed path'') = (nil, st')"
      by (simp_all add: processFinalizeJob_def Let_def)
    from row [OF r] 3 p f show ?thesis by (auto simp: frame_simps)
  next
    case 4
    then obtain x where "e = Some x" by auto
    with 4 w p assms(1-3) row show ?thesis by (fastforce simp: processFinalizeJob_def Let_def)
  qed
qed

theorem finalize_verifies_witness:
  "\<exists>st' fs' row. processFinalizeJob sample_orc 9
       (snd (UpsertTransferPart (sample_store StateLocalVerify)
          \<lparr>pID = 0, pJobID = ''0a1b'', pPartKey = ''1'', pFileID = None, pSourceURL = ''u'',
           pTempPath = ''/data/staging/0a1b/f.mkv'', pRelativePath = ''f.mkv'', pContentLength = 3, pBytesDone = 3,
           pETag = None, pCompleted = True, pCreatedAt = 0, pUpdatedAt = 0\<rparr>))
       sample_tree (sample_job StateLocalVerify) = ((nil, st'), fs') \<and>
     GetJobByID st' ''0a1b'' = Some row \<and> jState row = StateCompleted \<and>
     jCompletedPath row = Some ''/data/completed/tv/Show-0a1b''"
proof -
  let ?st = "snd (UpsertTransferPart (sample_store StateLocalVerify)
          \<lparr>pID = 0, pJobID = ''0a1b'', pPartKey = ''1'', pFileID = None, pSourceURL = ''u'',
           pTempPath = ''/data/staging/0a1b/f.mkv'', pRelativePath = ''f.mkv'', pContentLength = 3, pBytesDone = 3,
           pETag = None, pCompleted = True, pCreatedAt = 0, pUpdatedAt = 0\<rparr>)"
  let ?run = "processFinalizeJob sample_orc 9 ?st sample_tree (sample_job StateLocalVerify)"
  have "fst (fst ?run) = nil" by code_simp
  then have run: "?run = ((nil, snd (fst ?run)), snd ?run)" by (metis prod.collapse)
  have q: "CompletedPathForJob sample_layout ''tv'' ''Show'' ''0a1b'' = ''/data/completed/tv/Show-0a1b''" by code_simp
  have ps: "map pTempPath (ListTransferParts ?st ''0a1b'') = [''/data/staging/0a1b/f.mkv'']"
    "map pContentLength (ListTransferParts ?st ''0a1b'') = [3]" by code_simp+
  then have parts: "ListTransferParts ?st ''0a1b'' \<noteq> []" by auto
  have whole: "verify_parts sample_tree (ListTransferParts ?st ''0a1b'') = None" by code_simp
  have ok: "fst (Promote sample_tree ''/data/staging/0a1b'' ''/data/completed/tv/Show-0a1b'') = nil" by code_simp
  show ?thesis
    using finalize_verifies [OF run refl refl refl] run parts ok whole [unfolded verify_parts_ok] q by auto
qed

end
