(* ===== verification/Remover.thy ===== *)
theory Remover
  imports Worker_Samples
begin

text \<open>
  The remover and the pruner (\<open>internal/worker/remove.go\<close>): the local files of a job that a client
  deleted go, each only from the directory it belongs to, and old removed jobs and expired sessions
  leave the database.
\<close>

definition failUnsafeRemoval ::
  "time \<Rightarrow> store \<Rightarrow> job \<Rightarrow> string \<Rightarrow> string \<Rightarrow> err \<times> store" where
  "failUnsafeRemoval now st job label path =
     (let msg = ''refusing to remove '' @ label @ '' outside configured root: '' @ path in
      returning (UpdateJobState st now (job\<lparr>jErrorMessage := Some msg, jNextRunAt := None, jUpdatedAt := now\<rparr>)
        StateFailed msg))"

text \<open>
  One of the three removals: \<open>path\<close> is removed when it lies in \<open>dir\<close>. The left result is an early
  return of the handler.
\<close>

definition remove_one ::
  "orchestrator \<Rightarrow> time \<Rightarrow> store \<Rightarrow> fs \<Rightarrow> job \<Rightarrow> string \<Rightarrow> string \<Rightarrow> string \<Rightarrow> ((err \<times> store) + unit) \<times> fs" where
  "remove_one orc now st fs job dir label path =
     (case ensurePathWithinRoot (oQuote orc) (fsCwd fs) dir path of
        Some e \<Rightarrow> (Inl (failUnsafeRemoval now st job label path), fs)
      | None \<Rightarrow>
          (case RemovePath fs path of
             (Some e, fs') \<Rightarrow> (Inl (Some (ErrWrap (''remove '' @ label) e), st), fs')
           | (None, fs') \<Rightarrow> (Inr (), fs')))"

definition remove_completed :: "orchestrator \<Rightarrow> time \<Rightarrow> store \<Rightarrow> fs \<Rightarrow> job \<Rightarrow> ((err \<times> store) + job) \<times> fs" where
  "remove_completed orc now st fs job =
     (case jCompletedPath job of
        None \<Rightarrow> (Inr job, fs)
      | Some path \<Rightarrow>
          (case remove_one orc now st fs job (Completed (oLayout orc)) ''completed path'' path of
             (Inl out, fs') \<Rightarrow> (Inl out, fs')
           | (Inr _, fs') \<Rightarrow> (Inr (job\<lparr>jCompletedPath := None\<rparr>), fs')))"

definition remove_staging :: "orchestrator \<Rightarrow> time \<Rightarrow> store \<Rightarrow> fs \<Rightarrow> job \<Rightarrow> ((err \<times> store) + job) \<times> fs" where
  "remove_staging orc now st fs job =
     (case jStagingPath job of
        None \<Rightarrow> (Inr job, fs)
      | Some path \<Rightarrow>
          (case remove_one orc now st fs job (Staging (oLayout orc)) ''staging path'' path of
             (Inl out, fs') \<Rightarrow> (Inl out, fs')
           | (Inr _, fs') \<Rightarrow> (Inr (job\<lparr>jStagingPath := None\<rparr>), fs')))"

definition remove_payload :: "orchestrator \<Rightarrow> time \<Rightarrow> store \<Rightarrow> fs \<Rightarrow> job \<Rightarrow> ((err \<times> store) + job) \<times> fs" where
  "remove_payload orc now st fs job =
     (case jPayloadRef job of
        None \<Rightarrow> (Inr job, fs)
      | Some ref \<Rightarrow>
          (case remove_one orc now st fs job (Payloads (oLayout orc)) ''payload path'' (Dir ref) of
             (Inl out, fs') \<Rightarrow> (Inl out, fs')
           | (Inr _, fs') \<Rightarrow> (Inr (job\<lparr>jPayloadRef := None\<rparr>), fs')))"

definition processRemoveJob :: "orchestrator \<Rightarrow> time \<Rightarrow> store \<Rightarrow> fs \<Rightarrow> job \<Rightarrow> (err \<times> store) \<times> fs" where
  "processRemoveJob orc now st fs job =
     (case remove_completed orc now st fs job of
        (Inl out, fs1) \<Rightarrow> (out, fs1)
      | (Inr job1, fs1) \<Rightarrow>
          (case remove_staging orc now st fs1 job1 of
             (Inl out, fs2) \<Rightarrow> (out, fs2)
           | (Inr job2, fs2) \<Rightarrow>
               (case remove_payload orc now st fs2 job2 of
                  (Inl out, fs3) \<Rightarrow> (out, fs3)
                | (Inr job3, fs3) \<Rightarrow>
                    (returning (UpdateJobState st now
                       (job3\<lparr>jErrorMessage := None, jNextRunAt := None, jUpdatedAt := now\<rparr>)
                       StateRemoved ''local payload removed; torbox content retained''), fs3))))"

definition remove_step :: "orchestrator \<Rightarrow> time \<Rightarrow> store \<times> fs \<Rightarrow> job \<Rightarrow> store \<times> fs" where
  "remove_step orc now s job =
     (case processRemoveJob orc now (fst s) (snd s) job of ((e, st), fs) \<Rightarrow> (ReleaseJobClaim st (jID job), fs))"

definition runRemover :: "orchestrator \<Rightarrow> time \<Rightarrow> store \<times> fs \<Rightarrow> store \<times> fs" where
  "runRemover orc now s =
     (case ClaimJobsDue (fst s) ''remover'' [StateRemovePending] now (BatchSize (oWorkers orc)) of
        (jobs, st') \<Rightarrow> for_each (remove_step orc now) (st', snd s) jobs)"

definition runPruner :: "orchestrator \<Rightarrow> time \<Rightarrow> store \<Rightarrow> store" where
  "runPruner orc now st =
     (let cutoff = now - RemovedRetention (oWorkers orc) in
      case DeleteRemovedOlderThan st cutoff of
        (removedRows, st1) \<Rightarrow> (case PruneExpiredQBitSessions st1 now of (sessions, st2) \<Rightarrow> st2))"

section \<open>What the handler keeps\<close>

text \<open>The three removals go on with the job they were given, save for the path they removed.\<close>

lemma remove_steps_job:
  "fst (remove_completed orc now st fs job) = Inr job' \<Longrightarrow> jID job' = jID job \<and> jState job' = jState job"
  "fst (remove_staging orc now st fs job) = Inr job' \<Longrightarrow> jID job' = jID job \<and> jState job' = jState job"
  "fst (remove_payload orc now st fs job) = Inr job' \<Longrightarrow> jID job' = jID job \<and> jState job' = jState job"
  by (auto simp: remove_completed_def remove_staging_def remove_payload_def split: option.splits prod.splits sum.splits)

text \<open>Each of them is nothing or one removal.\<close>

lemma remove_steps_one:
  "remove_completed orc now st fs job = (Inr job, fs) \<or>
   (\<exists>path. jCompletedPath job = Some path \<and> (case remove_one orc now st fs job (Completed (oLayout orc)) ''completed path'' path of
      (Inl out, fs') \<Rightarrow> remove_completed orc now st fs job = (Inl out, fs')
    | (Inr _, fs') \<Rightarrow> remove_completed orc now st fs job = (Inr (job\<lparr>jCompletedPath := None\<rparr>), fs')))"
  "remove_staging orc now st fs job = (Inr job, fs) \<or>
   (\<exists>path. jStagingPath job = Some path \<and> (case remove_one orc now st fs job (Staging (oLayout orc)) ''staging path'' path of
      (Inl out, fs') \<Rightarrow> remove_staging orc now st fs job = (Inl out, fs')
    | (Inr _, fs') \<Rightarrow> remove_staging orc now st fs job = (Inr (job\<lparr>jStagingPath := None\<rparr>), fs')))"
  "remove_payload orc now st fs job = (Inr job, fs) \<or>
   (\<exists>ref. jPayloadRef job = Some ref \<and> (case remove_one orc now st fs job (Payloads (oLayout orc)) ''payload path'' (Dir ref) of
      (Inl out, fs') \<Rightarrow> remove_payload orc now st fs job = (Inl out, fs')
    | (Inr _, fs') \<Rightarrow> remove_payload orc now st fs job = (Inr (job\<lparr>jPayloadRef := None\<rparr>), fs')))"
  by (auto simp: remove_completed_def remove_staging_def remove_payload_def split: option.split prod.split sum.split)

lemma remove_steps_Inl:
  "remove_completed orc now st fs job = (Inl out, fs') \<Longrightarrow> \<exists>dir label path. remove_one orc now st fs job dir label path = (Inl out, fs')"
  "remove_staging orc now st fs job = (Inl out, fs') \<Longrightarrow> \<exists>dir label path. remove_one orc now st fs job dir label path = (Inl out, fs')"
  "remove_payload orc now st fs job = (Inl out, fs') \<Longrightarrow> \<exists>dir label path. remove_one orc now st fs job dir label path = (Inl out, fs')"
  using remove_steps_one [of orc now st fs job] by (fastforce split: prod.splits sum.splits)+

context write_contract begin

lemma remove_one_keeps:
  "I st \<Longrightarrow> P st job \<Longrightarrow> jID job' = jID job \<Longrightarrow> jState job' = jState job \<Longrightarrow> T StateFailed \<Longrightarrow>
   remove_one orc now st fs job' dir label path = (Inl out, fs') \<Longrightarrow> I (snd out)"
  by (cases "ensurePathWithinRoot (oQuote orc) (fsCwd fs) dir path"; cases "RemovePath fs path")
     (auto simp: remove_one_def failUnsafeRemoval_def Let_def update_state_returns [unfolded snd_returning] split: option.splits)

lemma remove_steps_keep:
  assumes "I st" and "P st job" and "jID job' = jID job" and "jState job' = jState job" and "T StateFailed"
  shows "remove_completed orc now st fs job' = (Inl out, fs') \<Longrightarrow> I (snd out)"
    and "remove_staging orc now st fs job' = (Inl out, fs') \<Longrightarrow> I (snd out)"
    and "remove_payload orc now st fs job' = (Inl out, fs') \<Longrightarrow> I (snd out)"
  by (blast dest: remove_steps_Inl intro: remove_one_keeps [OF assms])+

lemma processRemoveJob_keeps:
  assumes "I st" and "P st job" and T: "T StateFailed" "T StateRemoved"
  shows "I (snd (fst (processRemoveJob orc now st fs job)))"
proof -
  note k = remove_steps_keep [OF assms(1,2) _ _ T(1)]
  obtain r1 fs1 where c: "remove_completed orc now st fs job = (r1, fs1)" by fastforce
  show ?thesis
  proof (cases r1)
    case (Inl out)
    with c k(1) [of job orc now fs out fs1] show ?thesis by (simp add: processRemoveJob_def)
  next
    case (Inr job1)
    obtain r2 fs2 where s: "remove_staging orc now st fs1 job1 = (r2, fs2)" by fastforce
    have j1: "jID job1 = jID job" "jState job1 = jState job" using remove_steps_job(1) [of orc now st fs job job1] c Inr by simp_all
    show ?thesis
    proof (cases r2)
      case (Inl out)
      with c s \<open>r1 = Inr job1\<close> k(2) [OF j1, of orc now fs1 out fs2] show ?thesis by (simp add: processRemoveJob_def)
    next
      case r2: (Inr job2)
      obtain r3 fs3 where p: "remove_payload orc now st fs2 job2 = (r3, fs3)" by fastforce
      have j2: "jID job2 = jID job" "jState job2 = jState job" using remove_steps_job(2) [of orc now st fs1 job1 job2] s r2 j1 by simp_all
      show ?thesis
      proof (cases r3)
        case (Inl out)
        with c s p \<open>r1 = Inr job1\<close> r2 k(3) [OF j2, of orc now fs2 out fs3] show ?thesis by (simp add: processRemoveJob_def)
      next
        case r3: (Inr job3)
        have "jID job3 = jID job" "jState job3 = jState job" using remove_steps_job(3) [of orc now st fs2 job2 job3] p r3 j2 by simp_all
        then have "I (snd (returning (UpdateJobState st now (job3\<lparr>jErrorMessage := None, jNextRunAt := None, jUpdatedAt := now\<rparr>)
            StateRemoved ''local payload removed; torbox content retained'')))"
          by (intro update_state_returns [OF assms(1,2) _ _ T(2)]) simp_all
        with c s p \<open>r1 = Inr job1\<close> r2 r3 show ?thesis by (simp add: processRemoveJob_def)
      qed
    qed
  qed
qed

end

section \<open>What the handler does to the files\<close>

text \<open>One removal changes nothing but what is below a path inside its directory.\<close>

lemma remove_one_tree:
  assumes "fs_wf fs"
  shows "snd (remove_one orc now st fs job dir label path) = fs \<or>
    inside [at fs dir] (at fs path) \<and> snd (remove_one orc now st fs job dir label path) = snd (RemovePath fs path)"
proof (cases "ensurePathWithinRoot (oQuote orc) (fsCwd fs) dir path")
  case None
  have "IsAbs (fsCwd fs)" using assms by (simp add: fs_wf_def)
  with None have "prefix (at fs dir) (at fs path)" using ensure_iff by (simp add: at_def)
  with None show ?thesis by (auto simp: remove_one_def inside_def split: prod.split option.split)
next
  case (Some e)
  then show ?thesis by (simp add: remove_one_def)
qed

abbreviation places :: "orchestrator \<Rightarrow> fs \<Rightarrow> string list list" where
  "places orc fs \<equiv> [at fs (Completed (oLayout orc)), at fs (Staging (oLayout orc)), at fs (Payloads (oLayout orc))]"

lemma remove_one_confined:
  assumes "fs_wf fs" and "at fs dir \<in> set roots"
  shows "confined roots fs (snd (remove_one orc now st fs job dir label path))"
    and "fs_wf (snd (remove_one orc now st fs job dir label path))"
    and "fsCwd (snd (remove_one orc now st fs job dir label path)) = fsCwd fs"
proof -
  note t = remove_one_tree [OF assms(1), of orc now st job dir label path]
  show "confined roots fs (snd (remove_one orc now st fs job dir label path))"
  proof (cases "inside [at fs dir] (at fs path)")
    case True
    then have "inside roots (at fs path)" using assms(2) by (auto simp: inside_def)
    then have "confined roots fs (snd (RemovePath fs path))" by (intro confine.RemovePath_keeps) simp_all
    with t show ?thesis by auto
  qed (use t in auto)
  show "fs_wf (snd (remove_one orc now st fs job dir label path))"
    using t assms(1) tree.RemovePath_keeps by auto
  show "fsCwd (snd (remove_one orc now st fs job dir label path)) = fsCwd fs" using t by auto
qed

lemma remove_steps_snd:
  "snd (remove_completed orc now st fs job) = fs \<or> (\<exists>path. snd (remove_completed orc now st fs job) =
     snd (remove_one orc now st fs job (Completed (oLayout orc)) ''completed path'' path))"
  "snd (remove_staging orc now st fs job) = fs \<or> (\<exists>path. snd (remove_staging orc now st fs job) =
     snd (remove_one orc now st fs job (Staging (oLayout orc)) ''staging path'' path))"
  "snd (remove_payload orc now st fs job) = fs \<or> (\<exists>path. snd (remove_payload orc now st fs job) =
     snd (remove_one orc now st fs job (Payloads (oLayout orc)) ''payload path'' path))"
proof -
  show "snd (remove_completed orc now st fs job) = fs \<or> (\<exists>path. snd (remove_completed orc now st fs job) =
     snd (remove_one orc now st fs job (Completed (oLayout orc)) ''completed path'' path))"
  proof (cases "jCompletedPath job")
    case (Some path)
    then have "snd (remove_completed orc now st fs job) = snd (remove_one orc now st fs job (Completed (oLayout orc)) ''completed path'' path)"
      by (auto simp: remove_completed_def split: prod.split sum.split)
    then show ?thesis by blast
  qed (simp add: remove_completed_def)
  show "snd (remove_staging orc now st fs job) = fs \<or> (\<exists>path. snd (remove_staging orc now st fs job) =
     snd (remove_one orc now st fs job (Staging (oLayout orc)) ''staging path'' path))"
  proof (cases "jStagingPath job")
    case (Some path)
    then have "snd (remove_staging orc now st fs job) = snd (remove_one orc now st fs job (Staging (oLayout orc)) ''staging path'' path)"
      by (auto simp: remove_staging_def split: prod.split sum.split)
    then show ?thesis by blast
  qed (simp add: remove_staging_def)
  show "snd (remove_payload orc now st fs job) = fs \<or> (\<exists>path. snd (remove_payload orc now st fs job) =
     snd (remove_one orc now st fs job (Payloads (oLayout orc)) ''payload path'' path))"
  proof (cases "jPayloadRef job")
    case (Some path)
    then have "snd (remove_payload orc now st fs job) = snd (remove_one orc now st fs job (Payloads (oLayout orc)) ''payload path'' (Dir path))"
      by (auto simp: remove_payload_def split: prod.split sum.split)
    then show ?thesis by blast
  qed (simp add: remove_payload_def)
qed

lemma remove_steps_confined:
  assumes "fs_wf fs" and "set (places orc fs) \<subseteq> set roots"
  shows "confined roots fs (snd (remove_completed orc now st fs job)) \<and> fs_wf (snd (remove_completed orc now st fs job)) \<and>
      fsCwd (snd (remove_completed orc now st fs job)) = fsCwd fs"
    and "confined roots fs (snd (remove_staging orc now st fs job)) \<and> fs_wf (snd (remove_staging orc now st fs job)) \<and>
      fsCwd (snd (remove_staging orc now st fs job)) = fsCwd fs"
    and "confined roots fs (snd (remove_payload orc now st fs job)) \<and> fs_wf (snd (remove_payload orc now st fs job)) \<and>
      fsCwd (snd (remove_payload orc now st fs job)) = fsCwd fs"
proof -
  note o = remove_one_confined [OF assms(1), of _ roots orc now st job]
  show "confined roots fs (snd (remove_completed orc now st fs job)) \<and> fs_wf (snd (remove_completed orc now st fs job)) \<and>
      fsCwd (snd (remove_completed orc now st fs job)) = fsCwd fs"
    using remove_steps_snd(1) [of orc now st fs job] o [of "Completed (oLayout orc)"] assms by auto
  show "confined roots fs (snd (remove_staging orc now st fs job)) \<and> fs_wf (snd (remove_staging orc now st fs job)) \<and>
      fsCwd (snd (remove_staging orc now st fs job)) = fsCwd fs"
    using remove_steps_snd(2) [of orc now st fs job] o [of "Staging (oLayout orc)"] assms by auto
  show "confined roots fs (snd (remove_payload orc now st fs job)) \<and> fs_wf (snd (remove_payload orc now st fs job)) \<and>
      fsCwd (snd (remove_payload orc now st fs job)) = fsCwd fs"
    using remove_steps_snd(3) [of orc now st fs job] o [of "Payloads (oLayout orc)"] assms by auto
qed

lemma processRemoveJob_confined:
  assumes "fs_wf fs"
  shows "confined (places orc fs) fs (snd (processRemoveJob orc now st fs job)) \<and>
    fs_wf (snd (processRemoveJob orc now st fs job)) \<and> fsCwd (snd (processRemoveJob orc now st fs job)) = fsCwd fs"
proof -
  let ?R = "places orc fs"
  obtain r1 fs1 where c: "remove_completed orc now st fs job = (r1, fs1)" by fastforce
  have 1: "confined ?R fs fs1" "fs_wf fs1" "fsCwd fs1 = fsCwd fs"
    using remove_steps_confined(1) [OF assms, of orc ?R now st job] c by simp_all
  show ?thesis
  proof (cases r1)
    case (Inl out)
    with c 1 show ?thesis by (simp add: processRemoveJob_def)
  next
    case (Inr job1)
    obtain r2 fs2 where s: "remove_staging orc now st fs1 job1 = (r2, fs2)" by fastforce
    have 2: "confined ?R fs fs2" "fs_wf fs2" "fsCwd fs2 = fsCwd fs"
      using remove_steps_confined(2) [OF 1(2), of orc ?R now st job1] s 1 confined_trans
      by (simp_all add: at_cong [OF 1(3)])
    show ?thesis
    proof (cases r2)
      case out2: (Inl out)
      with c s Inr 2 show ?thesis by (simp add: processRemoveJob_def)
    next
      case r2: (Inr job2)
      have "confined ?R fs (snd (remove_payload orc now st fs2 job2)) \<and> fs_wf (snd (remove_payload orc now st fs2 job2)) \<and>
          fsCwd (snd (remove_payload orc now st fs2 job2)) = fsCwd fs"
        using remove_steps_confined(3) [OF 2(2), of orc ?R now st job2] 2 confined_trans
        by (simp add: at_cong [OF 2(3)])
      with c s Inr r2 show ?thesis by (auto simp: processRemoveJob_def split: prod.split sum.split)
    qed
  qed
qed

section \<open>The rounds\<close>

lemma remove_frame: "jID j \<noteq> k \<Longrightarrow> GetJobByID (snd (fst (processRemoveJob orc now st fs j))) k = GetJobByID st k"
  by (rule other_jobs.processRemoveJob_keeps) simp_all

lemma remove_state:
  "synced st j \<Longrightarrow> state_in (snd (fst (processRemoveJob orc now st fs j))) (jID j) (insert (jState j) {StateFailed, StateRemoved})"
  by (intro edges.processRemoveJob_keeps) (auto simp: in_hand_def state_in_def synced_def split: option.splits)

lemma remove_step_store:
  "fst (remove_step orc now s j) = ReleaseJobClaim (snd (fst (processRemoveJob orc now (fst s) (snd s) j))) (jID j)"
  "snd (remove_step orc now s j) = snd (processRemoveJob orc now (fst s) (snd s) j)"
  by (simp_all add: remove_step_def split: prod.split)

lemma runRemover_facts:
  assumes "audited st"
  shows "audited (fst (runRemover orc now (st, fs)))"
    and "moves {StateRemovePending} {StateFailed, StateRemoved} st (fst (runRemover orc now (st, fs)))"
proof -
  obtain jobs st' where c: "ClaimJobsDue st ''remover'' [StateRemovePending] now (BatchSize (oWorkers orc)) = (jobs, st')"
    by fastforce
  have run: "runRemover orc now (st, fs) = for_each (remove_step orc now) (st', fs) jobs" by (simp add: runRemover_def c)
  note b = ClaimJobsDue_batch [OF assms c]
  show "audited (fst (runRemover orc now (st, fs)))" unfolding run
    by (rule audit_writes.for_each_keeps [where store_of = fst and states = "{StateRemovePending}"])
       (use b in \<open>auto simp: remove_step_store
          intro!: ReleaseJobClaim_audited audit_writes.processRemoveJob_keeps release_frame remove_frame\<close>)
  have c': "ClaimJobsDue st ''remover'' [StateRemovePending] now (BatchSize (oWorkers orc)) = (jobs, fst (st', fs))"
    using c by simp
  show "moves {StateRemovePending} {StateFailed, StateRemoved} st (fst (runRemover orc now (st, fs)))"
    unfolding run list.set(2) [of StateRemovePending "[]", unfolded list.set(1), symmetric]
    by (rule round_moves [where store_of = fst, OF assms c'])
       (auto simp only: remove_step_store intro!: release_frame remove_frame release_state_in remove_state)
qed

lemma for_each_removes_confined:
  "fs_wf fs \<Longrightarrow> confined (places orc fs) fs (snd (for_each (remove_step orc now) (st, fs) jobs))"
proof (induction jobs arbitrary: st fs)
  case (Cons j jobs)
  let ?s = "remove_step orc now (st, fs) j"
  have 1: "confined (places orc fs) fs (snd ?s) \<and> fs_wf (snd ?s) \<and> fsCwd (snd ?s) = fsCwd fs"
    using processRemoveJob_confined [OF Cons.prems, of orc now st j] by (simp add: remove_step_store)
  then have "places orc (snd ?s) = places orc fs" by (simp add: at_def)
  with Cons.IH [of "snd ?s" "fst ?s"] 1 have "confined (places orc fs) (snd ?s) (snd (for_each (remove_step orc now) ?s jobs))"
    by simp
  with 1 show ?case by (auto intro: confined_trans)
qed simp

section \<open>Properties\<close>

text \<open>
  C15. The remover deletes nothing outside the completed, staging and payload directories: whatever
  paths the rows of the claimed jobs contain, a whole round of the remover changes no node of the
  file tree that is neither in nor above one of the three directories.
\<close>

theorem remover_confined:
  assumes "fs_wf fs"
  shows "confined (places orc fs) fs (snd (runRemover orc now (st, fs)))"
  using for_each_removes_confined [OF assms] by (simp add: runRemover_def split: prod.split)

text \<open>A job whose row points at the system's configuration.\<close>

definition hostile_store :: store where
  "hostile_store = snd (CreateJob empty_store 0
     (sample_job StateRemovePending\<lparr>jCompletedPath := Some ''/data/completed/../../etc'', jStagingPath := Some ''/etc''\<rparr>))"

theorem remover_confined_witness:
  "node_at (snd (runRemover sample_orc 9 (hostile_store, put_node [''etc''] DirNode sample_tree))) [''etc''] = Some DirNode"
proof -
  let ?fs = "put_node [''etc''] DirNode sample_tree"
  have "fs_wf ?fs"
    by (rule put_node_wf) (simp_all add: sample_tree_wf name_comp_def plain_comp_def)
  note c = remover_confined [OF this, of sample_orc 9 hostile_store]
  have "places sample_orc ?fs = [[''data'', ''completed''], [''data'', ''staging''], [''data'', ''payloads'']]" by code_simp
  then have "\<not> reach (places sample_orc ?fs) [''etc'']" by (simp only: reach_def) (simp add: prefix_Cons)
  then have "node_at (snd (runRemover sample_orc 9 (hostile_store, ?fs))) [''etc''] = node_at ?fs [''etc'']"
    using c unfolding confined_def by blast
  also have "\<dots> = Some DirNode" by (simp add: node_at_put)
  finally show ?thesis .
qed

text \<open>
  An unsafe path stops the removal at once: when the completed path of the job does not lie in
  the completed directory, no file is touched and the job fails with no further run.
\<close>

lemma unsafe_removal_refused:
  assumes "fs_wf fs" and "jCompletedPath job = Some path"
    and "\<not> prefix (at fs (Completed (oLayout orc))) (at fs path)"
    and "processRemoveJob orc now st fs job = ((nil, st'), fs')"
  shows "fs' = fs \<and> (\<exists>row. GetJobByID st' (jID job) = Some row \<and> jState row = StateFailed \<and> jNextRunAt row = None \<and>
    jCompletedPath row = Some path)"
proof -
  have "IsAbs (fsCwd fs)" using assms(1) by (simp add: fs_wf_def)
  with assms(3) obtain e where "ensurePathWithinRoot (oQuote orc) (fsCwd fs) (Completed (oLayout orc)) path = Some e"
    using ensure_iff by (fastforce simp: at_def)
  with assms(2,4) have f: "fs' = fs" and r: "failUnsafeRemoval now st job ''completed path'' path = (nil, st')"
    by (simp_all add: processRemoveJob_def remove_completed_def remove_one_def)
  let ?msg = "''refusing to remove '' @ ''completed path'' @ '' outside configured root: '' @ path"
  let ?job = "job\<lparr>jErrorMessage := Some ?msg, jNextRunAt := None, jUpdatedAt := now\<rparr>"
  obtain row where "GetJobByID st' (jID ?job) = Some (updated_row (?job\<lparr>jState := StateFailed, jUpdatedAt := now\<rparr>) row)"
    by (rule returning_row [OF r [unfolded failUnsafeRemoval_def Let_def]])
  with f assms(2) show ?thesis by simp
qed

lemma unsafe_removal_refused_sample:
  "\<exists>st' fs' row. processRemoveJob sample_orc 9 (sample_store StateRemovePending) sample_tree
       (sample_job StateRemovePending\<lparr>jCompletedPath := Some ''/etc''\<rparr>) = ((nil, st'), fs') \<and>
     fs' = sample_tree \<and> GetJobByID st' ''0a1b'' = Some row \<and> jState row = StateFailed"
proof -
  let ?job = "sample_job StateRemovePending\<lparr>jCompletedPath := Some ''/etc''\<rparr>"
  let ?run = "processRemoveJob sample_orc 9 (sample_store StateRemovePending) sample_tree ?job"
  have "fst (fst ?run) = nil" by code_simp
  then have run: "?run = ((nil, snd (fst ?run)), snd ?run)" by (metis prod.collapse)
  have "\<not> prefix (at sample_tree (Completed (oLayout sample_orc))) (at sample_tree ''/etc'')" by code_simp
  then show ?thesis using unsafe_removal_refused [OF sample_tree_wf _ _ run] run by auto
qed

text \<open>
  The pruner deletes only removed jobs: every job that is not in the state removed keeps its row,
  and a removed job goes only when its last update, as text, is before the cutoff.
\<close>

lemma pruner_keeps_live_jobs:
  "set (sJobs (runPruner orc now st)) =
     {j \<in> set (sJobs st). \<not> (jState j = StateRemoved \<and> text_less (jUpdatedAt j) (now - RemovedRetention (oWorkers orc)))}"
  by (auto simp: runPruner_def Let_def DeleteRemovedOlderThan_def PruneExpiredQBitSessions_def delete_jobs_def prunable_def)

end
