(* ===== verification/Orchestrator.thy ===== *)
theory Orchestrator
  imports Worker_Samples
begin

text \<open>
  The orchestrator (\<open>internal/worker/orchestrator.go\<close>): the reconciliation at startup, which brings
  the database and the file tree together after a crash, and the loop that runs a worker at every
  tick of its timer, never twice at a time.
\<close>

section \<open>Reconciliation\<close>

definition exists_at :: "fs \<Rightarrow> string option \<Rightarrow> bool" where
  "exists_at fs path = (case path of None \<Rightarrow> False | Some p \<Rightarrow> (case Stat fs p of Inr _ \<Rightarrow> True | Inl _ \<Rightarrow> False))"

definition reconcile_job :: "orchestrator \<Rightarrow> time \<Rightarrow> fs \<Rightarrow> store \<Rightarrow> job \<Rightarrow> store" where
  "reconcile_job orc now fs st job =
     (let job = (if jStagingPath job = None
                 then job\<lparr>jStagingPath := Some (StagingPathForJob (oLayout orc) (jID job))\<rparr> else job) in
      if (jState job = StateCompleted \<or> jState job = StateRemovePending) \<and> exists_at fs (jCompletedPath job)
      then st
      else if exists_at fs (jCompletedPath job) \<and> jState job \<noteq> StateCompleted \<and> jState job \<noteq> StateRemovePending
      then snd (snd (UpdateJobState st now (job\<lparr>jUpdatedAt := now\<rparr>) StateCompleted
             ''startup reconciliation promoted completed path''))
      else if exists_at fs (jStagingPath job) \<and>
        (jState job = StateLocalDownloadPending \<or> jState job = StateLocalDownloading \<or> jState job = StateLocalVerify) \<and>
        allPartsCompleted (ListTransferParts st (jID job)) \<and> 0 < length (ListTransferParts st (jID job))
      then snd (snd (UpdateJobState st now (job\<lparr>jNextRunAt := Some now, jUpdatedAt := now\<rparr>) StateLocalVerify
             ''startup reconciliation detected complete staging payload''))
      else if needsWakeup (jState job) \<and> jNextRunAt job = None
      then snd (UpdateJob st (job\<lparr>jNextRunAt := Some now, jUpdatedAt := now\<rparr>))
      else st)"

definition reconcileStartup :: "orchestrator \<Rightarrow> time \<Rightarrow> store \<times> fs \<Rightarrow> err \<times> store \<times> fs" where
  "reconcileStartup orc now s =
     (let st = ReleaseAllClaims (fst s);
          jobs = ListOpenJobs st;
          st' = for_each (reconcile_job orc now (snd s)) st jobs
      in case RemoveOrphanStagingDirs (oLayout orc) (snd s) (map jID jobs) of
           ((_, e), fs') \<Rightarrow> (e, st', fs'))"

section \<open>The loop of a worker\<close>

text \<open>
  \<open>execute\<close> runs the worker unless it is running; its error is only logged. The loop executes once
  at the start and once for every tick until the context is done; \<open>running\<close> is the flag.
\<close>

datatype loop_event = Tick | Done

definition execute :: "('s \<Rightarrow> 's) \<Rightarrow> bool \<times> 's \<Rightarrow> bool \<times> 's" where
  "execute fn s = (if fst s then s else (False, fn (snd s)))"

fun ticks :: "('s \<Rightarrow> 's) \<Rightarrow> bool \<times> 's \<Rightarrow> loop_event list \<Rightarrow> bool \<times> 's" where
  "ticks fn s [] = s"
| "ticks fn s (Done # events) = s"
| "ticks fn s (Tick # events) = ticks fn (execute fn s) events"

definition runLoop :: "('s \<Rightarrow> 's) \<Rightarrow> 's \<Rightarrow> loop_event list \<Rightarrow> 's" where
  "runLoop fn s events = snd (ticks fn (execute fn (False, s)) events)"

text \<open>No tick is skipped: the worker runs once for the start and once for every tick before the end.\<close>

lemma runLoop_runs: "runLoop fn s events = (fn ^^ Suc (length (takeWhile (\<lambda>e. e = Tick) events))) s"
proof -
  have "ticks fn (False, s) events = (False, (fn ^^ length (takeWhile (\<lambda>e. e = Tick) events)) s)" for s
    by (induction fn "(False, s)" events arbitrary: s rule: ticks.induct) (simp_all add: execute_def funpow_swap1)
  then show ?thesis by (simp add: runLoop_def execute_def funpow_swap1)
qed

lemma runLoop_keeps: "(\<And>s. I s \<Longrightarrow> I (fn s)) \<Longrightarrow> I s \<Longrightarrow> I (runLoop fn s events)"
proof -
  assume step: "\<And>s. I s \<Longrightarrow> I (fn s)" and "I s"
  then have "I ((fn ^^ n) s)" for n by (induction n) simp_all
  then show ?thesis by (simp only: runLoop_runs)
qed

section \<open>What the reconciliation keeps\<close>

context write_contract begin

lemma reconcile_job_keeps:
  assumes "I st" and "P st job" and T: "T StateCompleted" "T StateLocalVerify"
  shows "I (reconcile_job orc now fs st job)"
  using assms update_state_returns [OF assms(1,2)] update_returns [OF assms(1,2)]
  unfolding reconcile_job_def Let_def by simp

end

lemma ListOpenJobs_batch:
  assumes "store_wf st"
  shows "distinct (map jID (ListOpenJobs st))" and "\<forall>j\<in>set (ListOpenJobs st). synced st j"
    and "set (ListOpenJobs st) = {j \<in> set (sJobs st). jState j \<notin> {StateRemoteFailed, StateRemoved, StateFailed}}"
proof -
  have d: "distinct (map jID (sJobs st))" by (rule store_wfD(1) [OF assms])
  then have "distinct (map jID (filter P (sJobs st)))" for P by (rule distinct_map_filter)
  then show "distinct (map jID (ListOpenJobs st))"
    unfolding ListOpenJobs_def by_created_def by (simp add: distinct_map)
  show set_eq: "set (ListOpenJobs st) = {j \<in> set (sJobs st). jState j \<notin> {StateRemoteFailed, StateRemoved, StateFailed}}"
    by (auto simp: ListOpenJobs_def by_created_def)
  show "\<forall>j\<in>set (ListOpenJobs st). synced st j"
    using GetJobByID_unique [OF d] unfolding set_eq synced_def by force
qed

lemma reconcile_frame: "jID j \<noteq> k \<Longrightarrow> GetJobByID (reconcile_job orc now fs st j) k = GetJobByID st k"
  by (rule other_jobs.reconcile_job_keeps) simp_all

lemma reconcile_audited: "audited st \<Longrightarrow> audited (fst (snd (reconcileStartup orc now (st, fs))))"
proof -
  assume "audited st"
  then have a: "audited (ReleaseAllClaims st)" by (rule ReleaseAllClaims_audited)
  then have "store_wf (ReleaseAllClaims st)" by (simp add: audited_def)
  note b = ListOpenJobs_batch [OF this]
  have "audited (for_each (reconcile_job orc now fs) (ReleaseAllClaims st) (ListOpenJobs (ReleaseAllClaims st)))"
    by (rule audit_writes.for_each_keeps [where store_of = "\<lambda>s. s" and states = UNIV])
       (use a b in \<open>auto intro!: audit_writes.reconcile_job_keeps reconcile_frame\<close>)
  then show ?thesis by (simp add: reconcileStartup_def Let_def split: prod.split)
qed

section \<open>What the reconciliation leaves of a job\<close>

lemma reconcile_others:
  "\<forall>x\<in>set jobs. jID x \<noteq> k \<Longrightarrow> GetJobByID (for_each (reconcile_job orc now fs) st jobs) k = GetJobByID st k"
  by (induction jobs arbitrary: st) (simp_all add: reconcile_frame)

text \<open>The turn of one job among the others: its row is still the one it had, and so are all parts.\<close>

lemma reconcile_turn:
  assumes "distinct (map jID jobs)" and "j \<in> set jobs"
  shows "\<exists>st1. GetJobByID st1 (jID j) = GetJobByID st (jID j) \<and> sParts st1 = sParts st \<and>
    GetJobByID (for_each (reconcile_job orc now fs) st jobs) (jID j) = GetJobByID (reconcile_job orc now fs st1 j) (jID j)"
  using assms
proof (induction jobs arbitrary: st)
  case (Cons i jobs)
  have parts: "sParts (reconcile_job orc now fs st i) = sParts st"
    by (simp add: reconcile_job_def Let_def store_simps)
  show ?case
  proof (cases "j = i")
    case True
    then have "\<forall>x\<in>set jobs. jID x \<noteq> jID j" using Cons.prems(1) by (auto simp: image_iff)
    then have "GetJobByID (for_each (reconcile_job orc now fs) st' jobs) (jID j) = GetJobByID st' (jID j)" for st'
      by (rule reconcile_others)
    with True show ?thesis by auto
  next
    case False
    then have "jID i \<noteq> jID j" using Cons.prems by force
    then have "GetJobByID (reconcile_job orc now fs st i) (jID j) = GetJobByID st (jID j)" by (rule reconcile_frame)
    with Cons.IH [of "reconcile_job orc now fs st i"] Cons.prems False parts show ?thesis by auto
  qed
qed simp

definition reconciled :: "fs \<Rightarrow> transfer_part list \<Rightarrow> job \<Rightarrow> job \<Rightarrow> bool" where
  "reconciled fs parts job row \<longleftrightarrow> jClaimedBy row = None \<and>
     (jState row = jState job \<or>
      jState row = StateCompleted \<and> exists_at fs (jCompletedPath job) \<or>
      jState row = StateLocalVerify \<and> allPartsCompleted parts \<and>
        jState job \<in> {StateLocalDownloadPending, StateLocalDownloading})"

lemma reconcile_row:
  assumes "GetJobByID st (jID job) = Some job" and "jClaimedBy job = None"
  shows "\<exists>row. GetJobByID (reconcile_job orc now fs st job) (jID job) = Some row \<and>
    reconciled fs (ListTransferParts st (jID job)) job row"
proof -
  have state: "\<exists>row. GetJobByID (snd (snd (UpdateJobState st now job' s m))) (jID job) = Some row \<and>
      jClaimedBy row = None \<and> (jState row = jState job \<or> jState row = s)" if "jID job' = jID job" for job' s m
    using assms that by (simp add: store_simps)
  have plain: "\<exists>row. GetJobByID (snd (UpdateJob st job')) (jID job) = Some row \<and> jClaimedBy row = None \<and> jState row = jState job"
    if "jID job' = jID job" "jState job' = jState job" for job'
    using assms that by (cases "fst (UpdateJob st job') = nil") (simp_all add: store_simps UpdateJob_error)
  let ?job = "if jStagingPath job = None then job\<lparr>jStagingPath := Some (StagingPathForJob (oLayout orc) (jID job))\<rparr> else job"
  have ids: "jID ?job = jID job" "jState ?job = jState job" "jCompletedPath ?job = jCompletedPath job"
    "jNextRunAt ?job = jNextRunAt job" by simp_all
  note def = reconcile_job_def [of orc now fs st job, unfolded Let_def, unfolded ids]
  let ?A = "(jState job = StateCompleted \<or> jState job = StateRemovePending) \<and> exists_at fs (jCompletedPath job)"
  let ?B = "exists_at fs (jCompletedPath job) \<and> jState job \<noteq> StateCompleted \<and> jState job \<noteq> StateRemovePending"
  let ?C = "exists_at fs (jStagingPath ?job) \<and>
    (jState job = StateLocalDownloadPending \<or> jState job = StateLocalDownloading \<or> jState job = StateLocalVerify) \<and>
    allPartsCompleted (ListTransferParts st (jID job)) \<and> 0 < length (ListTransferParts st (jID job))"
  let ?D = "needsWakeup (jState job) \<and> jNextRunAt job = None"
  show ?thesis
  proof (cases ?A)
    case True
    then show ?thesis using assms by (simp only: def if_True) (simp add: reconciled_def)
  next
    case A: False
    show ?thesis
    proof (cases ?B)
      case True
      then show ?thesis using state [of "?job\<lparr>jUpdatedAt := now\<rparr>" StateCompleted
            "''startup reconciliation promoted completed path''"] ids(1)
        by (simp only: def A if_False if_True) (auto simp: reconciled_def)
    next
      case B: False
      show ?thesis
      proof (cases ?C)
        case True
        then show ?thesis using state [of "?job\<lparr>jNextRunAt := Some now, jUpdatedAt := now\<rparr>" StateLocalVerify
              "''startup reconciliation detected complete staging payload''"] ids(1)
          by (simp only: def A B if_False if_True) (auto simp: reconciled_def)
      next
        case C: False
        show ?thesis
        proof (cases ?D)
          case True
          then show ?thesis using plain [of "?job\<lparr>jNextRunAt := Some now, jUpdatedAt := now\<rparr>"] ids(1,2)
            by (simp only: def A B C if_False if_True) (auto simp: reconciled_def)
        next
          case False
          then show ?thesis using assms by (simp only: def A B C if_False) (simp add: reconciled_def)
        qed
      qed
    qed
  qed
qed

text \<open>The sweep leaves what lies in the directories of valid jobs alone, whatever fails.\<close>

lemma sweep_spares_valid:
  assumes "fs_wf fs" and "IsAbs (Staging l)" and "i \<in> set valid" and "prefix (clean_comps (Staging l) @ [i]) k"
  shows "node_at (snd (RemoveOrphanStagingDirs l fs valid)) k = node_at fs k"
proof -
  let ?b = "clean_comps (Staging l)"
  have a: "at fs (Staging l) = ?b" using assms(2) by (simp add: at_abs)
  show ?thesis
  proof (cases "ReadDir fs (Staging l)")
    case (Inl e)
    then show ?thesis by (simp add: RemoveOrphanStagingDirs_def)
  next
    case (Inr es)
    have names: "\<forall>x\<in>set es. name_comp (fst x)"
    proof
      fix x assume "x \<in> set es"
      with Inr have "fst x \<in> set (child_names fs ?b)" by (auto simp: ReadDir_def a split: sum.splits node.splits)
      then have "node_at fs (?b @ [fst x]) \<noteq> None" by (simp add: child_names_iff)
      then have "named (?b @ [fst x])" by (rule node_named [OF assms(1)])
      then show "name_comp (fst x)" by simp
    qed
    let ?es = "filter (\<lambda>x. fst x \<notin> set valid) es"
    define roots where "roots = map (\<lambda>x. ?b @ [fst x]) ?es"
    have same: "remove_orphans l valid fs' es' removed = remove_orphans l valid fs' (filter (\<lambda>x. fst x \<notin> set valid) es') removed"
      for fs' es' removed
      by (induction l valid fs' es' removed rule: remove_orphans.induct) (auto simp: Let_def split: prod.split option.split)
    have "confined roots fs (snd (remove_orphans l valid fs ?es []))"
    proof (rule confine.remove_orphans_keeps)
      show "confined roots fs fs" by simp
      show "\<forall>x\<in>set ?es. inside roots (at fs (Join [Staging l, fst x]))"
      proof
        fix x assume x: "x \<in> set ?es"
        then have "at fs (Join [Staging l, fst x]) = ?b @ [fst x]"
          using names Join_component [OF assms(2)] by (simp add: at_abs IsAbs_Join assms(2) name_comp_def)
        moreover have "?b @ [fst x] \<in> set roots"
          using imageI [OF x, of "\<lambda>x. ?b @ [fst x]"] by (simp only: roots_def set_map)
        ultimately show "inside roots (at fs (Join [Staging l, fst x]))" unfolding inside_def by auto
      qed
    qed
    moreover have "\<not> reach roots k"
    proof
      assume "reach roots k"
      then obtain x where x: "x \<in> set ?es" "prefix (?b @ [fst x]) k \<or> prefix k (?b @ [fst x])"
        by (auto simp: reach_def roots_def)
      obtain r where k: "k = ?b @ i # r" using assms(4) by (auto simp: prefix_def)
      from x(2) have "fst x = i" unfolding k by (auto simp: prefix_def)
      with x(1) assms(3) show False by simp
    qed
    ultimately show ?thesis using Inr same by (simp add: RemoveOrphanStagingDirs_def confined_def)
  qed
qed

text \<open>The rows after the reconciliation.\<close>

lemma startup_row:
  assumes "audited st" and "reconcileStartup orc now (st, fs) = (e, st', fs')" and "GetJobByID st k = Some job"
  shows "\<exists>row. GetJobByID st' k = Some row \<and> reconciled fs (ListTransferParts st k) job row"
    and "jState job \<notin> {StateRemoteFailed, StateRemoved, StateFailed} \<Longrightarrow> k \<in> set (map jID (ListOpenJobs (ReleaseAllClaims st)))"
    and "jState job \<in> {StateRemoteFailed, StateRemoved, StateFailed} \<Longrightarrow> state_in st' k {jState job}"
proof -
  let ?st = "ReleaseAllClaims st"
  let ?jobs = "ListOpenJobs ?st"
  have wf: "store_wf ?st" using ReleaseAllClaims_audited [OF assms(1)] by (simp add: audited_def)
  note b = ListOpenJobs_batch [OF wf]
  have st': "st' = for_each (reconcile_job orc now fs) ?st ?jobs"
    using assms(2) by (auto simp: reconcileStartup_def Let_def split: prod.splits)
  let ?job = "if jClaimedBy job \<noteq> None then unclaimed job else job"
  have row: "GetJobByID ?st k = Some ?job"
    using assms(3) by (simp add: ReleaseAllClaims_def GetJobByID_map)
  have job: "jID job = k" "jID ?job = k" "jState ?job = jState job" "jCompletedPath ?job = jCompletedPath job" "jClaimedBy ?job = None"
    using GetJobByID_SomeD [OF assms(3)] by (simp_all add: unclaimed_def)
  have parts: "ListTransferParts ?st k = ListTransferParts st k" by (simp add: ListTransferParts_def ReleaseAllClaims_def)
  have carry: "reconciled fs ps ?job r \<Longrightarrow> reconciled fs ps job r" for ps r
    by (cases "jClaimedBy job") (simp_all add: reconciled_def unclaimed_def)
  have there: "?job \<in> set ?jobs \<longleftrightarrow> jState job \<notin> {StateRemoteFailed, StateRemoved, StateFailed}"
    using GetJobByID_SomeD [OF row] job(3) unfolding b(3) by simp
  have open_row: "\<exists>row. GetJobByID st' k = Some row \<and> reconciled fs (ListTransferParts st k) job row" if t: "?job \<in> set ?jobs"
  proof -
    obtain st1 where st1: "GetJobByID st1 k = GetJobByID ?st k" "sParts st1 = sParts ?st"
      "GetJobByID st' k = GetJobByID (reconcile_job orc now fs st1 ?job) k"
      using reconcile_turn [OF b(1), of ?job ?st orc now fs] t job(2) st' by auto
    have "GetJobByID st1 (jID ?job) = Some ?job" using st1(1) row job(2) by simp
    from reconcile_row [OF this job(5), of orc now fs] obtain r where
      r: "GetJobByID st' k = Some r" "reconciled fs (ListTransferParts st1 k) ?job r"
      using st1(3) job(2) by auto
    have "ListTransferParts st1 k = ListTransferParts st k" using st1(2) parts by (simp add: ListTransferParts_def)
    then show ?thesis using r carry by auto
  qed
  have closed_row: "GetJobByID st' k = Some ?job" if f: "?job \<notin> set ?jobs"
  proof -
    have "\<forall>x\<in>set ?jobs. jID x \<noteq> k"
    proof
      fix x assume x: "x \<in> set ?jobs"
      then have "x \<in> set (sJobs ?st)" unfolding b(3) by simp
      then have "GetJobByID ?st (jID x) = Some x" by (rule GetJobByID_unique [OF store_wfD(1) [OF wf]])
      with row f x show "jID x \<noteq> k" by auto
    qed
    then have "GetJobByID (for_each (reconcile_job orc now fs) s ?jobs) k = GetJobByID s k" for s
      by (rule reconcile_others)
    then show ?thesis using row by (simp add: st')
  qed
  have "reconciled fs (ListTransferParts st k) job ?job" using job(3,5) unfolding reconciled_def by blast
  with open_row closed_row show "\<exists>row. GetJobByID st' k = Some row \<and> reconciled fs (ListTransferParts st k) job row" by blast
  show "k \<in> set (map jID ?jobs)" if "jState job \<notin> {StateRemoteFailed, StateRemoved, StateFailed}"
    using that there job(2) by force
  show "state_in st' k {jState job}" if "jState job \<in> {StateRemoteFailed, StateRemoved, StateFailed}"
    using closed_row there that job(3) by (simp add: state_in_def)
qed



end
