(* ===== verification/Codec.thy ===== *)
theory Codec
  imports Go_Prelude
begin

text \<open>
  The encodings of \<open>internal/util/crypto.go\<close> and of the info hashes: hexadecimal and base32
  without padding, as \<open>encoding/hex\<close> and \<open>encoding/base32\<close> compute them, and random
  identifiers. The random source and the hash function are arguments.
\<close>

section \<open>Hexadecimal\<close>

abbreviation byte :: "char \<Rightarrow> nat" where
  "byte c \<equiv> of_char c"

definition hex_digit :: "nat \<Rightarrow> char" where
  "hex_digit n = ''0123456789abcdef'' ! n"

definition hex_value :: "char \<Rightarrow> nat option" where
  "hex_value c = (let n = byte c in
     if 48 \<le> n \<and> n \<le> 57 then Some (n - 48)
     else if 97 \<le> n \<and> n \<le> 102 then Some (n - 87)
     else if 65 \<le> n \<and> n \<le> 70 then Some (n - 55) else None)"

text \<open>\<open>hex.EncodeToString\<close> and \<open>hex.DecodeString\<close>, whose errors are \<open>None\<close>.\<close>

fun hex_encode :: "string \<Rightarrow> string" where
  "hex_encode [] = []"
| "hex_encode (c # cs) = hex_digit (byte c div 16) # hex_digit (byte c mod 16) # hex_encode cs"

fun hex_decode :: "string \<Rightarrow> string option" where
  "hex_decode [] = Some []"
| "hex_decode [c] = None"
| "hex_decode (c # d # cs) =
     (case (hex_value c, hex_value d, hex_decode cs) of
        (Some h, Some l, Some r) \<Rightarrow> Some (char_of (16 * h + l) # r)
      | _ \<Rightarrow> None)"

text \<open>Finitely many digits: what holds of every one of them holds of the list of all.\<close>

lemma digits_all: "list_all P [0..<m] \<Longrightarrow> n < m \<Longrightarrow> P n"
  by (simp add: list_all_iff)

lemma hex_digit_value [simp]: "n < 16 \<Longrightarrow> hex_value (hex_digit n) = Some n"
  by (rule digits_all [where m = 16 and P = "\<lambda>n. hex_value (hex_digit n) = Some n"]) code_simp

lemma hex_digit_lower [simp]: "n < 16 \<Longrightarrow> ascii_lower (hex_digit n) = hex_digit n"
  by (rule digits_all [where m = 16 and P = "\<lambda>n. ascii_lower (hex_digit n) = hex_digit n"]) code_simp

lemma byte_less [simp]: "byte c < 256"
  by (metis mod_less_divisor of_char_mod_256 zero_less_numeral)

lemma hex_round_trip [simp]: "hex_decode (hex_encode s) = Some s"
proof (induction s)
  case (Cons c s)
  have "byte c div 16 < 16" using byte_less [of c] by linarith
  moreover have "char_of (16 * (byte c div 16) + byte c mod 16) = c" by simp
  ultimately show ?case using Cons by simp
qed simp

lemma length_hex_encode [simp]: "length (hex_encode s) = 2 * length s"
  by (induction s) simp_all

lemma hex_encode_lower [simp]: "ToLower (hex_encode s) = hex_encode s"
proof (induction s)
  case (Cons c s)
  have "byte c div 16 < 16" using byte_less [of c] by linarith
  with Cons show ?case by (simp add: ToLower_def)
qed (simp add: ToLower_def)

section \<open>Base32\<close>

definition ascii_upper :: "char \<Rightarrow> char" where
  "ascii_upper c = (let n = byte c in if 97 \<le> n \<and> n \<le> 122 then char_of (n - 32) else c)"

definition ToUpper :: "string \<Rightarrow> string" where
  "ToUpper s = map ascii_upper s"

text \<open>The alphabet of \<open>base32.StdEncoding\<close>.\<close>

definition base32_digit :: "nat \<Rightarrow> char" where
  "base32_digit n = ''ABCDEFGHIJKLMNOPQRSTUVWXYZ234567'' ! n"

definition base32_value :: "char \<Rightarrow> nat option" where
  "base32_value c = (let n = byte c in
     if 65 \<le> n \<and> n \<le> 90 then Some (n - 65)
     else if 50 \<le> n \<and> n \<le> 55 then Some (n - 24) else None)"

text \<open>
  The bytes of one quantum of up to eight digits: as many as the digits fill when they are 8, 7,
  5, 4 or 2, none otherwise.
\<close>

fun unpack_quantum :: "nat list \<Rightarrow> nat list" where
  "unpack_quantum [a, b, c, d, e, f, g, h] =
     [a * 8 + b div 4, (b * 64 + c * 2 + d div 16) mod 256, (d * 16 + e div 2) mod 256,
      (e * 128 + f * 4 + g div 8) mod 256, (g * 32 + h) mod 256]"
| "unpack_quantum [a, b, c, d, e, f, g] =
     [a * 8 + b div 4, (b * 64 + c * 2 + d div 16) mod 256, (d * 16 + e div 2) mod 256,
      (e * 128 + f * 4 + g div 8) mod 256]"
| "unpack_quantum [a, b, c, d, e] =
     [a * 8 + b div 4, (b * 64 + c * 2 + d div 16) mod 256, (d * 16 + e div 2) mod 256]"
| "unpack_quantum [a, b, c, d] = [a * 8 + b div 4, (b * 64 + c * 2 + d div 16) mod 256]"
| "unpack_quantum [a, b] = [a * 8 + b div 4]"
| "unpack_quantum _ = []"

fun map_values :: "string \<Rightarrow> nat list option" where
  "map_values [] = Some []"
| "map_values (c # cs) =
     (case base32_value c of None \<Rightarrow> None | Some v \<Rightarrow> map_option (Cons v) (map_values cs))"

function base32_quanta :: "nat list \<Rightarrow> nat list" where
  "base32_quanta vs = (if vs = [] then [] else unpack_quantum (take 8 vs) @ base32_quanta (drop 8 vs))"
  by pat_completeness auto
termination
  by (relation "measure length") auto

declare base32_quanta.simps [simp del]

lemma base32_quanta_Nil: "base32_quanta [] = []"
  by (subst base32_quanta.simps) simp

text \<open>\<open>DecodeString\<close> of the encoding without padding: line ends are dropped first.\<close>

definition base32_decode :: "string \<Rightarrow> string option" where
  "base32_decode s =
     map_option (\<lambda>vs. map char_of (base32_quanta vs)) (map_values (filter (\<lambda>c. byte c \<noteq> 10 \<and> byte c \<noteq> 13) s))"

text \<open>The encoder, for inputs of whole quanta: the specification of the decoder.\<close>

fun base32_encode :: "string \<Rightarrow> string" where
  "base32_encode (a # b # c # d # e # s) =
     map base32_digit [byte a div 8, byte a mod 8 * 4 + byte b div 64, byte b div 2 mod 32,
       byte b mod 2 * 16 + byte c div 16, byte c mod 16 * 2 + byte d div 128, byte d div 4 mod 32,
       byte d mod 4 * 8 + byte e div 32, byte e mod 32] @ base32_encode s"
| "base32_encode _ = []"

lemma base32_digit_value [simp]: "n < 32 \<Longrightarrow> base32_value (base32_digit n) = Some n"
  by (rule digits_all [where m = 32 and P = "\<lambda>n. base32_value (base32_digit n) = Some n"]) code_simp

lemma base32_digit_upper [simp]: "n < 32 \<Longrightarrow> ascii_upper (base32_digit n) = base32_digit n"
  by (rule digits_all [where m = 32 and P = "\<lambda>n. ascii_upper (base32_digit n) = base32_digit n"]) code_simp

lemma base32_digit_printable: "n < 32 \<Longrightarrow> 50 \<le> byte (base32_digit n) \<and> byte (base32_digit n) \<le> 90"
  by (rule digits_all [where m = 32 and P = "\<lambda>n. 50 \<le> byte (base32_digit n) \<and> byte (base32_digit n) \<le> 90"]) code_simp

lemma digit_div: "r < k \<Longrightarrow> (q * k + r) div k = (q::nat)" and digit_mod: "r < k \<Longrightarrow> (q * k + r) mod k = (r::nat)"
  by simp_all

lemma unpack_pack:
  assumes "a < 256" "b < 256" "c < 256" "d < 256" "e < 256"
  shows "unpack_quantum [a div 8, a mod 8 * 4 + b div 64, b div 2 mod 32, b mod 2 * 16 + c div 16,
    c mod 16 * 2 + d div 128, d div 4 mod 32, d mod 4 * 8 + e div 32, e mod 32] = [a, b, c, d, e]"
proof -
  have join: "x div (k * l) * (k * l) + x div k mod l * k + x mod k = x" for x k l :: nat
  proof -
    have "x = x div k * k + x mod k" by simp
    also have "x div k = x div (k * l) * l + x div k mod l" by (simp add: div_mult2_eq)
    finally show ?thesis by (simp add: algebra_simps)
  qed
  have b: "b div 64 < 4" "b div 64 * 64 + b div 2 mod 32 * 2 + b mod 2 = b"
    and d: "d div 128 < 2" "d div 128 * 128 + d div 4 mod 32 * 4 + d mod 4 = d"
    and c: "c div 16 < 16" and e: "e div 32 < 8"
    using assms join [of b 2 32] join [of d 4 32] by (simp_all add: less_mult_imp_div_less)
  have "a div 8 * 8 + (a mod 8 * 4 + b div 64) div 4 = a"
    by (simp only: digit_div [OF b(1)] div_mult_mod_eq)
  moreover have "((a mod 8 * 4 + b div 64) * 64 + b div 2 mod 32 * 2 + (b mod 2 * 16 + c div 16) div 16) mod 256 = b"
  proof -
    have "(a mod 8 * 4 + b div 64) * 64 + b div 2 mod 32 * 2 + b mod 2 = a mod 8 * 256 + b"
      using b(2) by (simp add: algebra_simps)
    then show ?thesis by (simp only: digit_div [OF c] digit_mod [OF assms(2)])
  qed
  moreover have "((b mod 2 * 16 + c div 16) * 16 + (c mod 16 * 2 + d div 128) div 2) mod 256 = c"
  proof -
    have "(b mod 2 * 16 + c div 16) * 16 + c mod 16 = b mod 2 * 256 + c" by (simp add: algebra_simps)
    then show ?thesis by (simp only: digit_div [OF d(1)] digit_mod [OF assms(3)])
  qed
  moreover have "((c mod 16 * 2 + d div 128) * 128 + d div 4 mod 32 * 4 + (d mod 4 * 8 + e div 32) div 8) mod 256 = d"
  proof -
    have "(c mod 16 * 2 + d div 128) * 128 + d div 4 mod 32 * 4 + d mod 4 = c mod 16 * 256 + d"
      using d(2) by (simp add: algebra_simps)
    then show ?thesis by (simp only: digit_div [OF e] digit_mod [OF assms(4)])
  qed
  moreover have "((d mod 4 * 8 + e div 32) * 32 + e mod 32) mod 256 = e"
  proof -
    have "(d mod 4 * 8 + e div 32) * 32 + e mod 32 = d mod 4 * 256 + e" by (simp add: algebra_simps)
    then show ?thesis by (simp only: digit_mod [OF assms(5)])
  qed
  ultimately show ?thesis by (simp only: unpack_quantum.simps list.inject simp_thms)
qed

text \<open>The digits of the encoder are proper digits, and their values are what was packed.\<close>

lemma map_values_digits: "\<forall>n\<in>set ns. n < 32 \<Longrightarrow> map_values (map base32_digit ns) = Some ns"
  by (induction ns) simp_all

lemma map_values_append:
  "map_values xs = Some us \<Longrightarrow> map_values (xs @ ys) = map_option (\<lambda>vs. us @ vs) (map_values ys)"
proof (induction xs arbitrary: us)
  case Nil
  then show ?case by (cases "map_values ys") simp_all
next
  case (Cons x xs)
  then show ?case by (cases "map_values ys") (auto split: option.splits)
qed

definition packed :: "string \<Rightarrow> nat list" where
  "packed s = (case s of [a, b, c, d, e] \<Rightarrow>
     [byte a div 8, byte a mod 8 * 4 + byte b div 64, byte b div 2 mod 32,
       byte b mod 2 * 16 + byte c div 16, byte c mod 16 * 2 + byte d div 128, byte d div 4 mod 32,
       byte d mod 4 * 8 + byte e div 32, byte e mod 32] | _ \<Rightarrow> [])"

lemma packed_digits: "\<forall>n\<in>set (packed [a, b, c, d, e]). n < 32"
proof -
  have join: "x mod k * l + y div m < 32" if "y < 256" "k * l = 32" "l * m = 256" "0 < k" "0 < m" for x y k l m :: nat
  proof -
    have "y div m < l" using that(1,3,5) by (simp add: less_mult_imp_div_less)
    moreover have "x mod k + 1 \<le> k" using that(4) by (simp add: Suc_leI)
    then have "(x mod k + 1) * l \<le> k * l" by (rule mult_le_mono1)
    ultimately show ?thesis using that(2) by (simp add: algebra_simps)
  qed
  have "byte x div 8 < 32" for x using byte_less [of x] by (simp add: less_mult_imp_div_less)
  then show ?thesis by (simp add: packed_def join)
qed

lemma base32_step:
  "map_values (base32_encode (a # b # c # d # e # s)) =
     map_option (\<lambda>vs. packed [a, b, c, d, e] @ vs) (map_values (base32_encode s))"
  using map_values_append [OF map_values_digits [OF packed_digits [of a b c d e]], of "base32_encode s"]
  by (simp add: packed_def)

lemma base32_quanta_packed: "base32_quanta (packed [a, b, c, d, e] @ vs) = map byte [a, b, c, d, e] @ base32_quanta vs"
proof -
  have "unpack_quantum (packed [a, b, c, d, e]) = map byte [a, b, c, d, e]"
    using unpack_pack [OF byte_less [of a] byte_less [of b] byte_less [of c] byte_less [of d] byte_less [of e]]
    by (simp add: packed_def)
  moreover have "length (packed [a, b, c, d, e]) = 8" by (simp add: packed_def)
  ultimately show ?thesis
    by (subst base32_quanta.simps) (auto simp del: length_0_conv)
qed

lemma base32_encode_printable: "\<forall>c\<in>set (base32_encode s). byte c \<noteq> 10 \<and> byte c \<noteq> 13 \<and> ascii_upper c = c"
proof (induction s rule: base32_encode.induct)
  case (1 a b c d e s)
  have "\<forall>x\<in>set (map base32_digit (packed [a, b, c, d, e])). byte x \<noteq> 10 \<and> byte x \<noteq> 13 \<and> ascii_upper x = x"
    using packed_digits [of a b c d e] base32_digit_printable by fastforce
  with 1 show ?case by (simp add: packed_def)
qed simp_all

lemma base32_encode_upper [simp]: "ToUpper (base32_encode s) = base32_encode s"
  using base32_encode_printable [of s] by (simp add: ToUpper_def map_idI)

lemma base32_values: "length s mod 5 = 0 \<Longrightarrow>
   \<exists>vs. map_values (base32_encode s) = Some vs \<and> base32_quanta vs = map byte s \<and> 5 * length (base32_encode s) = 8 * length s"
proof (induction s rule: base32_encode.induct)
  case (1 a b c d e s)
  then have "length s mod 5 = 0" by (simp add: mod_Suc split: if_splits)
  from "1.IH" [OF this] obtain vs where vs: "map_values (base32_encode s) = Some vs"
    "base32_quanta vs = map byte s" "5 * length (base32_encode s) = 8 * length s" by blast
  have "5 * length (base32_encode (a # b # c # d # e # s)) = 8 * length (a # b # c # d # e # s)"
    using vs(3) by simp
  then show ?case
    using base32_quanta_packed [of a b c d e vs] by (simp only: base32_step vs(1,2) option.map) simp
qed (simp_all add: base32_quanta_Nil)

lemma base32_round_trip: "length s mod 5 = 0 \<Longrightarrow> base32_decode (base32_encode s) = Some s"
proof -
  assume "length s mod 5 = 0"
  from base32_values [OF this] obtain vs where "map_values (base32_encode s) = Some vs" "base32_quanta vs = map byte s"
    by auto
  moreover have "filter (\<lambda>c. byte c \<noteq> 10 \<and> byte c \<noteq> 13) (base32_encode s) = base32_encode s"
    using base32_encode_printable [of s] by (auto simp: filter_id_conv)
  ultimately show ?thesis by (simp add: base32_decode_def o_def)
qed

section \<open>Random identifiers\<close>

text \<open>\<open>rand.Read\<close> is the argument: the bytes it fills the buffer with, or its error.\<close>

definition RandomHex :: "(nat \<Rightarrow> go_error + string) \<Rightarrow> nat \<Rightarrow> go_error + string" where
  "RandomHex read n =
     (case read n of Inl e \<Rightarrow> Inl (ErrWrap ''generate random bytes'' e) | Inr buf \<Rightarrow> Inr (hex_encode buf))"

text \<open>\<open>SHA1Hex\<close>: the digest function is the argument.\<close>

definition SHA1Hex :: "(string \<Rightarrow> string) \<Rightarrow> string \<Rightarrow> string" where
  "SHA1Hex sha1 v = hex_encode (sha1 v)"

end
