(* ===== verification/Auth.thy ===== *)
theory Auth
  imports Codec Store_Facts
begin

text \<open>
  Who may call the API: the sessions of the qBittorrent side (\<open>internal/auth/qbit.go\<close>) and the
  keys of the SABnzbd side (\<open>internal/auth/sab.go\<close>). A constant-time comparison is equality of
  byte strings.
\<close>

section \<open>Sessions\<close>

record session_manager =
  smUsername :: string
  smPassword :: string
  smTTL :: int

definition Login :: "session_manager \<Rightarrow> (nat \<Rightarrow> go_error + string) \<Rightarrow> time \<Rightarrow> store \<Rightarrow> string \<Rightarrow> string \<Rightarrow>
    (go_error + string) \<times> store" where
  "Login m read now st username password =
     (if username \<noteq> smUsername m \<or> password \<noteq> smPassword m then (Inl (ErrText ''invalid credentials''), st)
      else case RandomHex read 16 of
        Inl e \<Rightarrow> (Inl e, st)
      | Inr sid \<Rightarrow> (case CreateQBitSession st now sid username (now + smTTL m) of
          (Some e, st') \<Rightarrow> (Inl e, st')
        | (None, st') \<Rightarrow> (Inr sid, st')))"

definition Logout :: "store \<Rightarrow> string \<Rightarrow> store" where
  "Logout st sid = DeleteQBitSession st sid"

definition Valid :: "store \<Rightarrow> time \<Rightarrow> string \<Rightarrow> bool" where
  "Valid st now sid = ValidateQBitSession st now sid"

text \<open>
  The middleware in front of a handler: the value of the cookie \<open>SID\<close>, absent when the request
  has none, decides between 403 and the handler.
\<close>

definition Middleware :: "(store \<Rightarrow> 'r) \<Rightarrow> 'r \<Rightarrow> store \<Rightarrow> time \<Rightarrow> string option \<Rightarrow> 'r" where
  "Middleware serve forbidden st now cookie =
     (case cookie of
        None \<Rightarrow> forbidden
      | Some sid \<Rightarrow> if sid = [] then forbidden else if \<not> Valid st now sid then forbidden else serve st)"

text \<open>The cookies a login and a logout send; \<open>None\<close> and 0 are the zero values of \<open>Expires\<close> and \<open>MaxAge\<close>.\<close>

record cookie =
  cName :: string
  cValue :: string
  cPath :: string
  cHttpOnly :: bool
  cSameSiteLax :: bool
  cSecure :: bool
  cExpires :: "time option"
  cMaxAge :: int

definition QBitSessionCookie :: string where
  "QBitSessionCookie = ''SID''"

definition SetQBitCookie :: "string \<Rightarrow> bool \<Rightarrow> cookie" where
  "SetQBitCookie sid secure =
     \<lparr>cName = QBitSessionCookie, cValue = sid, cPath = ''/'', cHttpOnly = True, cSameSiteLax = True,
      cSecure = secure, cExpires = None, cMaxAge = 0\<rparr>"

definition ClearQBitCookie :: "bool \<Rightarrow> cookie" where
  "ClearQBitCookie secure =
     \<lparr>cName = QBitSessionCookie, cValue = [], cPath = ''/'', cHttpOnly = True, cSameSiteLax = True,
      cSecure = secure, cExpires = Some 0, cMaxAge = - 1\<rparr>"

section \<open>Keys\<close>

record sab_auth =
  saApiKey :: string
  saNzbKey :: string

definition Allow :: "sab_auth \<Rightarrow> string \<Rightarrow> string \<Rightarrow> bool" where
  "Allow a mode key =
     (let mode = ToLower (TrimSpace mode); key = TrimSpace key;
          validKey = key \<noteq> [] \<and> (key = saApiKey a \<or> key = saNzbKey a)
      in if mode = ''version'' \<or> mode = ''auth'' then True else validKey)"

text \<open>
  Only the modes \<open>version\<close> and \<open>auth\<close> are public; every other mode, known or not, needs a key that
  is not blank and equals one of the configured keys up to surrounding white space.
\<close>

lemma Allow_iff:
  "Allow a mode key \<longleftrightarrow> ToLower (TrimSpace mode) \<in> {''version'', ''auth''} \<or>
     TrimSpace key \<noteq> [] \<and> TrimSpace key \<in> {saApiKey a, saNzbKey a}"
  by (auto simp: Allow_def Let_def)

section \<open>The life of a session\<close>

lemma valid_iff:
  assumes "distinct (map qSID (sSessions st))"
  shows "Valid st now sid \<longleftrightarrow> (\<exists>q\<in>set (sSessions st). qSID q = sid \<and> now < qExpiresAt q)"
proof (cases "find (\<lambda>q. qSID q = sid) (sSessions st)")
  case None
  moreover from this have "\<forall>q\<in>set (sSessions st). qSID q \<noteq> sid" unfolding find_eq_None_iff .
  ultimately show ?thesis by (simp add: Valid_def ValidateQBitSession_def)
next
  case (Some q)
  then have q: "q \<in> set (sSessions st)" "qSID q = sid" by (auto dest: find_SomeD)
  then have "x = q" if "x \<in> set (sSessions st)" "qSID x = sid" for x
    using distinct_map_inj_eq [OF assms that(1) q(1)] that(2) by simp
  moreover have "Valid st now sid \<longleftrightarrow> now < qExpiresAt q" by (simp add: Valid_def ValidateQBitSession_def Some)
  ultimately show ?thesis using q by metis
qed

lemma Login_cases:
  obtains (refused) e where "Login m read now st u p = (Inl e, st)"
  | (granted) sid where "Login m read now st u p = (Inr sid, st\<lparr>sSessions := sSessions st @
        [\<lparr>qSID = sid, qUsername = u, qExpiresAt = now + smTTL m, qCreatedAt = now\<rparr>]\<rparr>)"
      and "u = smUsername m" and "p = smPassword m" and "sid \<notin> qSID ` set (sSessions st)"
proof (cases "fst (Login m read now st u p)")
  case (Inl e)
  then have "Login m read now st u p = (Inl e, st)"
    by (auto simp: Login_def CreateQBitSession_def split: if_splits sum.splits)
  then show thesis by (rule that(1))
next
  case (Inr sid)
  then have "Login m read now st u p = (Inr sid, st\<lparr>sSessions := sSessions st @
        [\<lparr>qSID = sid, qUsername = u, qExpiresAt = now + smTTL m, qCreatedAt = now\<rparr>]\<rparr>)"
      "u = smUsername m" "p = smPassword m" "sid \<notin> qSID ` set (sSessions st)"
    by (auto simp: Login_def CreateQBitSession_def list_ex_iff image_iff split: if_splits sum.splits)
  then show thesis by (rule that(2))
qed

text \<open>
  What happens to the sessions of a store, as the server and the pruner run: logins with any
  credentials, logouts, prunes.
\<close>

datatype session_event = LoggedIn time string string string | LoggedOut string | Pruned time

fun session_step :: "session_manager \<Rightarrow> session_event \<Rightarrow> store \<Rightarrow> store" where
  "session_step m (LoggedIn now sid u p) st = snd (Login m (\<lambda>_. Inr sid) now st u p)"
| "session_step m (LoggedOut sid) st = Logout st sid"
| "session_step m (Pruned now) st = snd (PruneExpiredQBitSessions st now)"

definition sessions_sound :: "session_manager \<Rightarrow> (time \<times> string) list \<Rightarrow> store \<Rightarrow> bool" where
  "sessions_sound m granted st \<longleftrightarrow> distinct (map qSID (sSessions st)) \<and>
     (\<forall>q\<in>set (sSessions st). \<exists>t. (t, qSID q) \<in> set granted \<and> qExpiresAt q = t + smTTL m)"

text \<open>The logins with the configured credentials: when, and with which identifier.\<close>

fun grants :: "session_manager \<Rightarrow> session_event list \<Rightarrow> (time \<times> string) list" where
  "grants m [] = []"
| "grants m (LoggedIn now bytes u p # es) =
     (if u = smUsername m \<and> p = smPassword m then (now, hex_encode bytes) # grants m es else grants m es)"
| "grants m (LoggedOut sid # es) = grants m es"
| "grants m (Pruned now # es) = grants m es"

lemma sessions_sound_mono: "sessions_sound m g st \<Longrightarrow> set g \<subseteq> set g' \<Longrightarrow> sessions_sound m g' st"
  unfolding sessions_sound_def by blast

lemma sessions_sound_filter:
  "sessions_sound m g st \<Longrightarrow> sessions_sound m g (st\<lparr>sSessions := filter P (sSessions st)\<rparr>)"
  by (auto simp: sessions_sound_def distinct_map_filterI)

lemma session_step_sound:
  assumes "sessions_sound m g st"
  shows "sessions_sound m (grants m [e] @ g) (session_step m e st)"
proof (cases e)
  case (LoggedIn now bytes u p)
  show ?thesis
  proof (rule Login_cases [of m "\<lambda>_. Inr bytes" now st u p])
    fix err assume "Login m (\<lambda>_. Inr bytes) now st u p = (Inl err, st)"
    with assms LoggedIn show ?thesis by (auto intro: sessions_sound_mono)
  next
    fix sid assume l: "Login m (\<lambda>_. Inr bytes) now st u p = (Inr sid, st\<lparr>sSessions := sSessions st @
        [\<lparr>qSID = sid, qUsername = u, qExpiresAt = now + smTTL m, qCreatedAt = now\<rparr>]\<rparr>)"
      "u = smUsername m" "p = smPassword m" "sid \<notin> qSID ` set (sSessions st)"
    have "sid = hex_encode bytes" using l(1) by (auto simp: Login_def RandomHex_def split: if_splits prod.splits option.splits)
    with l assms LoggedIn show ?thesis by (auto simp: sessions_sound_def)
  qed
qed (use assms in \<open>auto simp: Logout_def DeleteQBitSession_def PruneExpiredQBitSessions_def intro: sessions_sound_filter\<close>)

lemma sessions_always_sound:
  "sessions_sound m g st \<Longrightarrow> sessions_sound m (rev (grants m es) @ g) (fold (session_step m) es st)"
proof (induction es arbitrary: st g)
  case (Cons e es)
  from Cons.IH [OF session_step_sound [OF Cons.prems, of e]]
  have "sessions_sound m (rev (grants m es) @ grants m [e] @ g) (fold (session_step m) (e # es) st)" by simp
  then show ?case by (rule sessions_sound_mono) (cases e; auto)
qed simp

text \<open>
  C31. A handler behind the middleware runs only for a client that logged in: whatever logins,
  logouts and prunes happened since the database was empty, a request is passed on only when its
  cookie is an identifier that a login with the configured user and password handed out, less
  than the time to live ago; every other request is answered with the refusal.
\<close>

theorem middleware_needs_login:
  assumes "st = fold (session_step m) es empty_store" and "serve st \<noteq> forbidden"
    and "Middleware serve forbidden st now cookie \<noteq> forbidden"
  shows "\<exists>sid t. cookie = Some sid \<and> sid \<noteq> [] \<and> (t, sid) \<in> set (grants m es) \<and> now < t + smTTL m \<and>
    Middleware serve forbidden st now cookie = serve st"
proof -
  have "sessions_sound m [] empty_store" by (simp add: sessions_sound_def empty_store_def)
  then have sound: "sessions_sound m (rev (grants m es) @ []) st" unfolding assms(1) by (rule sessions_always_sound)
  from assms(3) obtain sid where sid: "cookie = Some sid" "sid \<noteq> []" "Valid st now sid"
    by (auto simp: Middleware_def split: option.splits if_splits)
  from sid(3) valid_iff [of st now sid] sound obtain q where
    "q \<in> set (sSessions st)" "qSID q = sid" "now < qExpiresAt q" by (auto simp: sessions_sound_def)
  with sound sid show ?thesis by (fastforce simp: sessions_sound_def Middleware_def)
qed

definition sample_manager :: session_manager where
  "sample_manager = \<lparr>smUsername = ''admin'', smPassword = ''pw'', smTTL = 86400000000000\<rparr>"

theorem middleware_needs_login_witness:
  "\<exists>t. (t, ''6162'') \<in> set (grants sample_manager [LoggedIn 5 ''ab'' ''admin'' ''pw'', LoggedIn 6 ''cd'' ''admin'' ''no'']) \<and>
     10 < t + smTTL sample_manager"
proof -
  let ?es = "[LoggedIn 5 ''ab'' ''admin'' ''pw'', LoggedIn 6 ''cd'' ''admin'' ''no'']"
  have "Middleware (\<lambda>_. True) False (fold (session_step sample_manager) ?es empty_store) 10 (Some ''6162'')" by code_simp
  with middleware_needs_login [OF refl, of "\<lambda>_. True" sample_manager ?es False 10 "Some ''6162''"] show ?thesis by auto
qed

text \<open>
  C32. A login works and a logout ends it: with the right credentials and a fresh identifier the
  session is valid from then on for its time to live, and after the logout it is not valid any more
  at any time, while other sessions are as they were.
\<close>

theorem session_lifecycle:
  assumes "distinct (map qSID (sSessions st))" and "Login m read t st u p = (Inr sid, st')"
  shows "Valid st' now sid = (now < t + smTTL m) \<and> \<not> Valid (Logout st' sid) now sid \<and>
    (other \<noteq> sid \<longrightarrow> Valid st' now other = Valid st now other \<and> Valid (Logout st' sid) now other = Valid st now other)"
proof (rule Login_cases [of m read t st u p])
  fix e assume "Login m read t st u p = (Inl e, st)"
  with assms(2) show ?thesis by simp
next
  fix sid' assume l: "Login m read t st u p = (Inr sid', st\<lparr>sSessions := sSessions st @
        [\<lparr>qSID = sid', qUsername = u, qExpiresAt = t + smTTL m, qCreatedAt = t\<rparr>]\<rparr>)"
      "sid' \<notin> qSID ` set (sSessions st)"
  then have s: "sid' = sid" "sSessions st' = sSessions st @
        [\<lparr>qSID = sid, qUsername = u, qExpiresAt = t + smTTL m, qCreatedAt = t\<rparr>]" using assms(2) by auto
  have d: "distinct (map qSID (sSessions st'))" using assms(1) l(2) s by auto
  have d': "distinct (map qSID (sSessions (Logout st' sid)))"
    using distinct_map_filterI [OF d] by (simp add: Logout_def DeleteQBitSession_def)
  have "set (sSessions (Logout st' sid)) = {q \<in> set (sSessions st'). qSID q \<noteq> sid}"
    by (simp add: Logout_def DeleteQBitSession_def)
  with l(2) s show ?thesis
    unfolding valid_iff [OF d] valid_iff [OF d'] valid_iff [OF assms(1)] by auto
qed

theorem session_lifecycle_witness:
  "\<exists>st'. Login sample_manager (\<lambda>_. Inr ''ab'') 5 empty_store ''admin'' ''pw'' = (Inr ''6162'', st') \<and>
     Valid st' 10 ''6162'' \<and> \<not> Valid (Logout st' ''6162'') 10 ''6162''"
proof -
  let ?l = "Login sample_manager (\<lambda>_. Inr ''ab'') 5 empty_store ''admin'' ''pw''"
  have "fst ?l = Inr ''6162''" by code_simp
  then have l: "?l = (Inr ''6162'', snd ?l)" by (metis prod.collapse)
  have "distinct (map qSID (sSessions empty_store))" by (simp add: empty_store_def)
  from session_lifecycle [OF this l, of 10] l show ?thesis by (auto simp: sample_manager_def)
qed

end
