(* ===== verification/Limiter.thy ===== *)
theory Limiter
  imports Go_Prelude
begin

text \<open>
  The rate limiters of the TorBox client (\<open>internal/torbox/limiter.go\<close>). A token bucket is a
  channel of \<open>capacity\<close> slots that starts full; its goroutine offers one token at every tick of
  \<open>refillEvery / capacity\<close>, which a full channel drops; \<open>Wait\<close> takes a token or gives up when
  its context is done. A bucket without a channel lets everyone pass. A \<open>MultiLimiter\<close> waits for
  its buckets one after the other. What happens is a sequence of events of the goroutines and
  callers; which event comes next is up to the scheduler.
\<close>

record bucket =
  bkCapacity :: nat
  bkTokens :: nat
  bkPeriod :: int
  bkStopped :: bool

type_synonym token_bucket = "bucket option"

definition NewTokenBucket :: "int \<Rightarrow> int \<Rightarrow> token_bucket" where
  "NewTokenBucket capacity refillEvery =
     (if capacity \<le> 0 \<or> refillEvery \<le> 0 then None
      else Some \<lparr>bkCapacity = nat capacity, bkTokens = nat capacity, bkPeriod = refillEvery div capacity, bkStopped = False\<rparr>)"

text \<open>The send of the refill goroutine: dropped when the channel is full.\<close>

definition refill :: "bucket \<Rightarrow> bucket" where
  "refill b = (if bkTokens b < bkCapacity b then b\<lparr>bkTokens := bkTokens b + 1\<rparr> else b)"

definition Stop :: "token_bucket \<Rightarrow> token_bucket" where
  "Stop b = map_option (\<lambda>b. b\<lparr>bkStopped := True\<rparr>) b"

text \<open>\<open>TokenBucket.Wait\<close>, when it can go on: \<open>None\<close> is a caller that stays blocked.\<close>

definition take_token :: "token_bucket \<Rightarrow> token_bucket option" where
  "take_token b =
     (case b of
        None \<Rightarrow> Some None
      | Some b \<Rightarrow> if bkTokens b = 0 then None else Some (Some (b\<lparr>bkTokens := bkTokens b - 1\<rparr>)))"

section \<open>Callers of a limiter\<close>

text \<open>
  The state: the buckets of the limiter and, for every call of \<open>Wait\<close> that has not returned, the
  number of buckets it has got past.
\<close>

record limiter =
  lBuckets :: "token_bucket list"
  lWaiting :: "nat \<Rightarrow> nat option"

datatype limiter_event =
    Ticked nat
  | Stopped nat
  | Arrived nat
  | Passed nat
  | Cancelled nat
  | Granted nat

fun limiter_step :: "limiter_event \<Rightarrow> limiter \<Rightarrow> limiter option" where
  "limiter_step (Ticked i) s =
     (if i < length (lBuckets s) then
        (case lBuckets s ! i of
           Some b \<Rightarrow> if bkStopped b then None else Some (s\<lparr>lBuckets := (lBuckets s)[i := Some (refill b)]\<rparr>)
         | None \<Rightarrow> None)
      else None)"
| "limiter_step (Stopped i) s =
     (if i < length (lBuckets s) then Some (s\<lparr>lBuckets := (lBuckets s)[i := Stop (lBuckets s ! i)]\<rparr>) else None)"
| "limiter_step (Arrived c) s =
     (if lWaiting s c = None then Some (s\<lparr>lWaiting := (lWaiting s)(c \<mapsto> 0)\<rparr>) else None)"
| "limiter_step (Passed c) s =
     (case lWaiting s c of
        Some i \<Rightarrow>
          if i < length (lBuckets s) then
            (case take_token (lBuckets s ! i) of
               Some b \<Rightarrow> Some (s\<lparr>lBuckets := (lBuckets s)[i := b], lWaiting := (lWaiting s)(c \<mapsto> i + 1)\<rparr>)
             | None \<Rightarrow> None)
          else None
      | None \<Rightarrow> None)"
| "limiter_step (Cancelled c) s =
     (case lWaiting s c of
        Some i \<Rightarrow> if i < length (lBuckets s) \<and> lBuckets s ! i \<noteq> None
                  then Some (s\<lparr>lWaiting := (lWaiting s)(c := None)\<rparr>) else None
      | None \<Rightarrow> None)"
| "limiter_step (Granted c) s =
     (case lWaiting s c of
        Some i \<Rightarrow> if i = length (lBuckets s) then Some (s\<lparr>lWaiting := (lWaiting s)(c := None)\<rparr>) else None
      | None \<Rightarrow> None)"

inductive limiter_run :: "limiter \<Rightarrow> limiter_event list \<Rightarrow> limiter \<Rightarrow> bool" where
  limiter_refl: "limiter_run s [] s"
| limiter_trans: "limiter_run s es t \<Longrightarrow> limiter_step e t = Some u \<Longrightarrow> limiter_run s (es @ [e]) u"

definition NewMultiLimiter :: "token_bucket list \<Rightarrow> limiter" where
  "NewMultiLimiter bs = \<lparr>lBuckets = bs, lWaiting = \<lambda>c. None\<rparr>"

text \<open>The same as a function of the events, to run concrete ones.\<close>

fun limiter_exec :: "limiter_event list \<Rightarrow> limiter \<Rightarrow> limiter option" where
  "limiter_exec [] s = Some s"
| "limiter_exec (e # es) s = (case limiter_step e s of None \<Rightarrow> None | Some t \<Rightarrow> limiter_exec es t)"

lemma limiter_append: "limiter_run t fs u \<Longrightarrow> limiter_run s es t \<Longrightarrow> limiter_run s (es @ fs) u"
  by (induction rule: limiter_run.induct) (simp_all, metis append_assoc limiter_trans)

lemma limiter_single: "limiter_step e s = Some t \<Longrightarrow> limiter_run s [e] t"
  using limiter_trans [OF limiter_refl, of e s t] by simp

lemma limiter_exec_run: "limiter_exec es s = Some t \<Longrightarrow> limiter_run s es t"
proof (induction es arbitrary: s)
  case Nil
  then show ?case by (simp add: limiter_refl)
next
  case (Cons e es)
  then obtain u where "limiter_step e s = Some u" "limiter_run u es t" by (auto split: option.splits)
  then show ?case using limiter_append [OF _ limiter_single, of u es t e s] by simp
qed

section \<open>Rate\<close>

text \<open>
  Every grant has taken a token of each enabled bucket, so grants so far, plus calls that are past
  the bucket, plus tokens left are bounded by what the bucket was given.
\<close>

definition past :: "nat \<Rightarrow> limiter \<Rightarrow> nat set" where
  "past i s = {c. \<exists>k. lWaiting s c = Some k \<and> i < k}"

definition count_ev :: "(limiter_event \<Rightarrow> bool) \<Rightarrow> limiter_event list \<Rightarrow> nat" where
  "count_ev P es = length (filter P es)"

definition is_grant :: "limiter_event \<Rightarrow> bool" where
  "is_grant e = (case e of Granted c \<Rightarrow> True | _ \<Rightarrow> False)"

definition within_budget :: "nat \<Rightarrow> nat \<Rightarrow> limiter_event list \<Rightarrow> limiter \<Rightarrow> bool" where
  "within_budget i given es s \<longleftrightarrow> i < length (lBuckets s) \<and> finite (past i s) \<and>
     (\<forall>c k. lWaiting s c = Some k \<longrightarrow> k \<le> length (lBuckets s)) \<and>
     (\<exists>b. lBuckets s ! i = Some b \<and> bkTokens b \<le> bkCapacity b \<and>
       count_ev is_grant es + card (past i s) + bkTokens b \<le> given + count_ev (\<lambda>e. e = Ticked i) es)"

lemma count_ev_snoc [simp]: "count_ev P (es @ [e]) = count_ev P es + (if P e then 1 else 0)"
  by (simp add: count_ev_def)

lemma past_upd:
  "past i (s\<lparr>lBuckets := bs\<rparr>) = past i s"
  "lWaiting s c = None \<Longrightarrow> past i (s\<lparr>lWaiting := (lWaiting s)(c \<mapsto> 0)\<rparr>) = past i s"
  "past i (s\<lparr>lWaiting := (lWaiting s)(c := None)\<rparr>) = past i s - {c}"
  "lWaiting s c = Some k \<Longrightarrow> past i (s\<lparr>lBuckets := bs, lWaiting := (lWaiting s)(c \<mapsto> k + 1)\<rparr>) =
     (if i = k then insert c (past i s) else past i s)"
  by (auto simp: past_def split: if_splits)

text \<open>A step changes at most one bucket, and that one not its capacity.\<close>

lemma limiter_step_buckets:
  assumes "limiter_step e s = Some t"
  obtains (same) "lBuckets t = lBuckets s"
  | (one) i b b' where "i < length (lBuckets s)" "lBuckets s ! i = Some b" "lBuckets t = (lBuckets s)[i := Some b']"
      "bkCapacity b' = bkCapacity b" "bkTokens b \<le> bkCapacity b \<longrightarrow> bkTokens b' \<le> bkCapacity b"
      "bkStopped b' \<longrightarrow> bkStopped b \<or> e = Stopped i"
proof (cases e)
  case (Ticked i)
  with assms obtain b where "i < length (lBuckets s)" "lBuckets s ! i = Some b" "\<not> bkStopped b"
    "lBuckets t = (lBuckets s)[i := Some (refill b)]" by (auto split: if_splits option.splits)
  then show thesis by (intro one [of i b "refill b"]) (simp_all add: refill_def)
next
  case (Stopped i)
  with assms have i: "i < length (lBuckets s)" "lBuckets t = (lBuckets s)[i := Stop (lBuckets s ! i)]"
    by (auto split: if_splits)
  show thesis
  proof (cases "lBuckets s ! i")
    case None
    then have "Stop (lBuckets s ! i) = lBuckets s ! i" by (simp add: Stop_def)
    then have "lBuckets t = lBuckets s" by (simp only: i(2) list_update_id)
    then show thesis by (rule same)
  next
    case (Some b)
    with i Stopped show thesis by (intro one [of i b "b\<lparr>bkStopped := True\<rparr>"]) (simp_all add: Stop_def)
  qed
next
  case (Passed c)
  with assms obtain i b' where i: "i < length (lBuckets s)" "take_token (lBuckets s ! i) = Some b'"
    "lBuckets t = (lBuckets s)[i := b']" by (auto split: if_splits option.splits)
  show thesis
  proof (cases "lBuckets s ! i")
    case None
    with i(2) have "b' = lBuckets s ! i" by (simp add: take_token_def)
    then have "lBuckets t = lBuckets s" by (simp only: i(3) list_update_id)
    then show thesis by (rule same)
  next
    case (Some b)
    with i show thesis
      by (intro one [of i b "b\<lparr>bkTokens := bkTokens b - 1\<rparr>"]) (auto simp: take_token_def split: if_splits)
  qed
qed (use assms same in \<open>auto split: if_splits option.splits\<close>)

lemma within_budget_step:
  assumes "within_budget i given es s" and "limiter_step e s = Some t"
  shows "within_budget i given (es @ [e]) t"
proof -
  obtain b where b: "i < length (lBuckets s)" "finite (past i s)"
    "\<And>c k. lWaiting s c = Some k \<Longrightarrow> k \<le> length (lBuckets s)" "lBuckets s ! i = Some b" "bkTokens b \<le> bkCapacity b"
    "count_ev is_grant es + card (past i s) + bkTokens b \<le> given + count_ev (\<lambda>e. e = Ticked i) es"
    using assms(1) by (auto simp: within_budget_def)
  show ?thesis
  proof (cases e)
    case (Ticked j)
    then obtain b' where t: "j < length (lBuckets s)" "lBuckets s ! j = Some b'"
      "t = s\<lparr>lBuckets := (lBuckets s)[j := Some (refill b')]\<rparr>"
      using assms(2) by (auto split: if_splits option.splits)
    show ?thesis
    proof (cases "j = i")
      case True
      with t b show ?thesis by (auto simp: within_budget_def past_upd is_grant_def Ticked refill_def)
    next
      case False
      with t b show ?thesis by (auto simp: within_budget_def past_upd is_grant_def Ticked)
    qed
  next
    case (Stopped j)
    then have t: "j < length (lBuckets s)" "t = s\<lparr>lBuckets := (lBuckets s)[j := Stop (lBuckets s ! j)]\<rparr>"
      using assms(2) by (auto split: if_splits)
    with b show ?thesis
      by (cases "j = i") (auto simp: within_budget_def past_upd is_grant_def Stopped Stop_def)
  next
    case (Arrived c)
    then have "lWaiting s c = None" "t = s\<lparr>lWaiting := (lWaiting s)(c \<mapsto> 0)\<rparr>" using assms(2) by (auto split: if_splits)
    with b show ?thesis by (auto simp: within_budget_def past_upd is_grant_def Arrived)
  next
    case (Passed c)
    then obtain k b' where t: "lWaiting s c = Some k" "k < length (lBuckets s)" "take_token (lBuckets s ! k) = Some b'"
      "t = s\<lparr>lBuckets := (lBuckets s)[k := b'], lWaiting := (lWaiting s)(c \<mapsto> k + 1)\<rparr>"
      using assms(2) by (auto split: if_splits option.splits)
    have le: "lWaiting t c' = Some k' \<Longrightarrow> k' \<le> length (lBuckets t)" for c' k'
      using b(3) t by (auto split: if_splits)
    show ?thesis
    proof (cases "k = i")
      case True
      then have "bkTokens b \<noteq> 0" "b' = Some (b\<lparr>bkTokens := bkTokens b - 1\<rparr>)"
        using t b by (auto simp: take_token_def split: if_splits)
      moreover have "card (insert c (past i s)) \<le> Suc (card (past i s))" by (rule card_insert_le_m1) simp_all
      ultimately show ?thesis
        using b le t True unfolding within_budget_def t(4) past_upd(4) [OF t(1)] by (auto simp: is_grant_def Passed)
    next
      case False
      then show ?thesis
        using b le t unfolding within_budget_def t(4) past_upd(4) [OF t(1)] by (auto simp: is_grant_def Passed)
    qed
  next
    case (Cancelled c)
    then have t: "t = s\<lparr>lWaiting := (lWaiting s)(c := None)\<rparr>" using assms(2) by (auto split: if_splits option.splits)
    have "card (past i s - {c}) \<le> card (past i s)" by (rule card_mono [OF b(2)]) auto
    with b t show ?thesis by (auto simp: within_budget_def past_upd is_grant_def Cancelled split: if_splits)
  next
    case (Granted c)
    then have t: "t = s\<lparr>lWaiting := (lWaiting s)(c := None)\<rparr>" "lWaiting s c = Some (length (lBuckets s))"
      using assms(2) by (auto split: if_splits option.splits)
    then have "c \<in> past i s" using b(1) by (simp add: past_def)
    then have "Suc (card (past i s - {c})) = card (past i s)" using b(2) by (rule card_Suc_Diff1 [rotated])
    with b t show ?thesis by (auto simp: within_budget_def past_upd is_grant_def Granted split: if_splits)
  qed
qed

lemma within_budget_run:
  "limiter_run s es t \<Longrightarrow> within_budget i given [] s \<Longrightarrow> within_budget i given es t"
  by (induction rule: limiter_run.induct) (auto intro: within_budget_step)

lemma limiter_length: "limiter_run s es t \<Longrightarrow> length (lBuckets t) = length (lBuckets s)"
proof (induction rule: limiter_run.induct)
  case (limiter_trans s es t e u)
  then show ?case by (cases e) (auto split: if_splits option.splits)
qed simp

lemma fresh_buckets:
  "NewTokenBucket capacity refillEvery = Some b \<Longrightarrow> bkTokens b = nat capacity \<and> bkCapacity b = nat capacity \<and> \<not> bkStopped b \<and> 0 < bkCapacity b"
  by (auto simp: NewTokenBucket_def split: if_splits)

definition bounded_bucket :: "nat \<Rightarrow> nat \<Rightarrow> limiter \<Rightarrow> bool" where
  "bounded_bucket i capacity s \<longleftrightarrow> (\<exists>b. lBuckets s ! i = Some b \<and> bkTokens b \<le> bkCapacity b \<and> bkCapacity b = capacity)"

lemma bounded_bucket_run:
  assumes "limiter_run s es t" and "i < length (lBuckets s)" and "bounded_bucket i capacity s"
  shows "bounded_bucket i capacity t"
  using assms
proof (induction rule: limiter_run.induct)
  case (limiter_trans s es t e u)
  then have t: "bounded_bucket i capacity t" "i < length (lBuckets t)" by (simp_all add: limiter_length)
  from limiter_trans.hyps(2) show ?case
  proof (cases rule: limiter_step_buckets)
    case same
    with t(1) show ?thesis by (simp add: bounded_bucket_def)
  next
    case (one j b b')
    with t show ?thesis by (cases "j = i") (auto simp: bounded_bucket_def)
  qed
qed simp

text \<open>
  C33. The limiter limits: in any stretch of a run, however the scheduler interleaves callers and
  tickers, the calls granted are at most those that had already passed the bucket, plus its
  capacity, plus one for every tick of its ticker in the stretch; from the start of the program
  that is the capacity plus the ticks.
\<close>

theorem limiter_rate_bound:
  assumes "limiter_run (NewMultiLimiter bs) es s" and "limiter_run s es' t"
    and "i < length bs" and "bs ! i = NewTokenBucket capacity refillEvery" and "0 < capacity" and "0 < refillEvery"
  shows "count_ev is_grant es' \<le> card (past i s) + nat capacity + count_ev (\<lambda>e. e = Ticked i) es' \<and>
    (es = [] \<longrightarrow> count_ev is_grant es' \<le> nat capacity + count_ev (\<lambda>e. e = Ticked i) es')"
proof -
  obtain b where b: "NewTokenBucket capacity refillEvery = Some b" using assms(5,6) by (auto simp: NewTokenBucket_def)
  note f = fresh_buckets [OF this]
  have start: "within_budget i (nat capacity) [] (NewMultiLimiter bs)"
    using assms(3,4) b f by (simp add: within_budget_def NewMultiLimiter_def past_def count_ev_def)
  have "bounded_bucket i (nat capacity) (NewMultiLimiter bs)"
    using assms(3,4) b f by (simp add: bounded_bucket_def NewMultiLimiter_def)
  with assms(1,3) have bb: "bounded_bucket i (nat capacity) s"
    by (auto intro: bounded_bucket_run simp: NewMultiLimiter_def)
  have "within_budget i (nat capacity) es s" by (rule within_budget_run [OF assms(1) start])
  then have "within_budget i (card (past i s) + nat capacity) [] s"
    using bb by (auto simp: within_budget_def bounded_bucket_def count_ev_def)
  from within_budget_run [OF assms(2) this]
  have "count_ev is_grant es' \<le> card (past i s) + nat capacity + count_ev (\<lambda>e. e = Ticked i) es'"
    by (auto simp: within_budget_def)
  moreover have "past i s = {}" if "es = []"
    using assms(1) that by (cases rule: limiter_run.cases) (simp_all add: NewMultiLimiter_def past_def)
  ultimately show ?thesis by auto
qed

text \<open>Three calls at a bucket of one token: two are granted once the ticker has ticked.\<close>

definition sample_events :: "limiter_event list" where
  "sample_events = [Arrived 0, Arrived 1, Passed 1, Granted 1, Ticked 0, Passed 0, Granted 0]"

theorem limiter_rate_bound_witness:
  "count_ev is_grant sample_events = 2 \<and>
   count_ev is_grant sample_events \<le> nat 1 + count_ev (\<lambda>e. e = Ticked 0) sample_events"
proof -
  let ?bs = "[NewTokenBucket 1 60]"
  have "\<exists>t. limiter_exec sample_events (NewMultiLimiter ?bs) = Some t"
    by (simp add: sample_events_def NewMultiLimiter_def NewTokenBucket_def take_token_def refill_def)
  then obtain t where "limiter_run (NewMultiLimiter ?bs) sample_events t" by (auto dest: limiter_exec_run)
  from limiter_rate_bound [OF limiter_refl this, of 0 1 60]
  show ?thesis by (auto simp: sample_events_def count_ev_def is_grant_def)
qed

section \<open>Progress\<close>

definition running :: "limiter \<Rightarrow> bool" where
  "running s \<longleftrightarrow> (\<forall>b. Some b \<in> set (lBuckets s) \<longrightarrow> \<not> bkStopped b \<and> 0 < bkCapacity b)"

lemma running_step:
  assumes "running s" and "limiter_step e s = Some t" and "\<forall>i. e \<noteq> Stopped i"
  shows "running t"
  using assms(2)
proof (cases rule: limiter_step_buckets)
  case same
  with assms(1) show ?thesis by (simp add: running_def)
next
  case (one i b b')
  then have "Some b \<in> set (lBuckets s)" by (metis nth_mem)
  then have "\<not> bkStopped b' \<and> 0 < bkCapacity b'" using assms(1,3) one by (auto simp: running_def)
  moreover have "set (lBuckets t) \<subseteq> insert (Some b') (set (lBuckets s))"
    unfolding one(3) by (rule set_update_subset_insert)
  ultimately show ?thesis using assms(1) by (auto simp: running_def)
qed

lemma running_run: "limiter_run s es t \<Longrightarrow> running s \<Longrightarrow> \<forall>i. Stopped i \<notin> set es \<Longrightarrow> running t"
  by (induction rule: limiter_run.induct) (auto intro: running_step)

lemma waiting_le:
  "limiter_run s es t \<Longrightarrow> \<forall>c k. lWaiting s c = Some k \<longrightarrow> k \<le> length (lBuckets s) \<Longrightarrow>
   lWaiting t c = Some k \<Longrightarrow> k \<le> length (lBuckets t)"
proof (induction arbitrary: c k rule: limiter_run.induct)
  case (limiter_trans s es t e u)
  then show ?case by (cases e) (auto split: if_splits option.splits)
qed blast

text \<open>One bucket further: at once, or after one tick.\<close>

lemma pass_one:
  assumes "running s" and "lWaiting s c = Some k" and "k < length (lBuckets s)"
  shows "\<exists>es t. set es \<subseteq> {Ticked k, Passed c} \<and> length es \<le> 2 \<and> limiter_run s es t \<and> lWaiting t c = Some (k + 1)"
proof -
  have one: "\<exists>t. limiter_run s [Passed c] t \<and> lWaiting t c = Some (k + 1)"
    if w: "lWaiting s c = Some k" "k < length (lBuckets s)" "\<forall>b. lBuckets s ! k = Some b \<longrightarrow> 0 < bkTokens b" for s
  proof -
    obtain b' where "take_token (lBuckets s ! k) = Some b'" using w(3) by (cases "lBuckets s ! k") (auto simp: take_token_def)
    with w have "limiter_step (Passed c) s = Some (s\<lparr>lBuckets := (lBuckets s)[k := b'], lWaiting := (lWaiting s)(c \<mapsto> k + 1)\<rparr>)"
      by simp
    from limiter_single [OF this] show ?thesis by (intro exI conjI, assumption) simp
  qed
  show ?thesis
  proof (cases "\<forall>b. lBuckets s ! k = Some b \<longrightarrow> 0 < bkTokens b")
    case True
    from one [OF assms(2,3) this] show ?thesis by (intro exI [of _ "[Passed c]"]) auto
  next
    case False
    then obtain b where b: "lBuckets s ! k = Some b" "bkTokens b = 0" by auto
    then have "Some b \<in> set (lBuckets s)" using assms(3) by (metis nth_mem)
    then have r: "\<not> bkStopped b" "0 < bkCapacity b" using assms(1) by (simp_all add: running_def)
    let ?s = "s\<lparr>lBuckets := (lBuckets s)[k := Some (refill b)]\<rparr>"
    have step: "limiter_step (Ticked k) s = Some ?s" using assms(3) b r by simp
    have "\<exists>t. limiter_run ?s [Passed c] t \<and> lWaiting t c = Some (k + 1)"
      by (rule one) (use assms b r in \<open>simp_all add: refill_def\<close>)
    then obtain t where "limiter_run ?s [Passed c] t" "lWaiting t c = Some (k + 1)" by blast
    with limiter_append [OF _ limiter_single [OF step], of "[Passed c]" t]
    show ?thesis by (intro exI [of _ "[Ticked k, Passed c]"]) auto
  qed
qed

lemma limiter_serves:
  assumes "running s" and "lWaiting s c = Some k" and "k \<le> length (lBuckets s)"
  shows "\<exists>es t. set es \<subseteq> insert (Passed c) (range Ticked) \<and> length es \<le> 2 * (length (lBuckets s) - k) \<and>
    limiter_run s (es @ [Granted c]) t \<and> lWaiting t c = None"
  using assms
proof (induction "length (lBuckets s) - k" arbitrary: s k)
  case 0
  then have "limiter_step (Granted c) s = Some (s\<lparr>lWaiting := (lWaiting s)(c := None)\<rparr>)" by simp
  from limiter_single [OF this] show ?case by (intro exI [of _ "[]"] exI conjI) auto
next
  case (Suc n)
  then have k: "k < length (lBuckets s)" by linarith
  from pass_one [OF Suc.prems(1,2) k] obtain es t where
    e: "set es \<subseteq> {Ticked k, Passed c}" "length es \<le> 2" "limiter_run s es t" "lWaiting t c = Some (k + 1)" by blast
  have l: "length (lBuckets t) = length (lBuckets s)" by (rule limiter_length [OF e(3)])
  have "running t" by (rule running_run [OF e(3) Suc.prems(1)]) (use e(1) in auto)
  from Suc.hyps(1) [OF _ this e(4)] Suc.hyps(2) k l obtain fs u where
    f: "set fs \<subseteq> insert (Passed c) (range Ticked)" "length fs \<le> 2 * (length (lBuckets t) - (k + 1))"
    "limiter_run t (fs @ [Granted c]) u" "lWaiting u c = None" by (metis Suc_diff_Suc Suc_eq_plus1 Suc_leI nat.inject)
  have "length (es @ fs) \<le> 2 * (length (lBuckets s) - k)" using e(2) f(2) l k by simp
  moreover have "set (es @ fs) \<subseteq> insert (Passed c) (range Ticked)" using e(1) f(1) by auto
  ultimately show ?case using limiter_append [OF f(3) e(3)] f(4) by (intro exI [of _ "es @ fs"]) auto
qed

text \<open>
  C34. A caller is never stuck: whatever happened before, as long as no bucket was stopped, a call
  that waits can still be granted, and it takes no more than one tick and one step per bucket
  ahead of it.
\<close>

theorem limiter_progress:
  assumes "limiter_run (NewMultiLimiter bs) es s" and "\<forall>b\<in>set bs. \<exists>n every. b = NewTokenBucket n every"
    and "\<forall>i. Stopped i \<notin> set es" and "lWaiting s c = Some k"
  shows "\<exists>fs t. set fs \<subseteq> insert (Passed c) (range Ticked) \<and> length fs \<le> 2 * (length bs - k) \<and>
    limiter_run s (fs @ [Granted c]) t \<and> lWaiting t c = None"
proof -
  have "running (NewMultiLimiter bs)"
    unfolding running_def
  proof (intro allI impI)
    fix b assume "Some b \<in> set (lBuckets (NewMultiLimiter bs))"
    then obtain n every where "NewTokenBucket n every = Some b" using assms(2) by (auto simp: NewMultiLimiter_def)
    from fresh_buckets [OF this] show "\<not> bkStopped b \<and> 0 < bkCapacity b" by blast
  qed
  from running_run [OF assms(1) this assms(3)] have r: "running s" .
  have "k \<le> length (lBuckets s)" by (rule waiting_le [OF assms(1) _ assms(4)]) (simp add: NewMultiLimiter_def)
  from limiter_serves [OF r assms(4) this] show ?thesis
    by (simp add: limiter_length [OF assms(1)]) (simp add: NewMultiLimiter_def)
qed

theorem limiter_progress_witness:
  "\<exists>s fs t. limiter_run (NewMultiLimiter [NewTokenBucket 1 60, None]) [Arrived 0, Arrived 1, Passed 1] s \<and>
     length fs \<le> 4 \<and> limiter_run s (fs @ [Granted 0]) t \<and> lWaiting t 0 = None"
proof -
  let ?bs = "[NewTokenBucket 1 60, None]" and ?es = "[Arrived 0, Arrived 1, Passed 1]"
  have "\<exists>s. limiter_exec ?es (NewMultiLimiter ?bs) = Some s \<and> lWaiting s 0 = Some 0"
    by (simp add: NewMultiLimiter_def NewTokenBucket_def take_token_def refill_def fun_upd_def)
  then obtain s where s: "limiter_run (NewMultiLimiter ?bs) ?es s" "lWaiting s 0 = Some 0"
    by (blast dest: limiter_exec_run)
  have "None = NewTokenBucket 0 0" by (simp add: NewTokenBucket_def)
  then have "\<forall>b\<in>set ?bs. \<exists>n every. b = NewTokenBucket n every" by auto
  from limiter_progress [OF s(1) this _ s(2)] s(1) show ?thesis by fastforce
qed

end
