(* ===== verification/Go_Url.thy ===== *)
theory Go_Url
  imports Codec "HOL-Library.Multiset"
begin

text \<open>
  The part of Go's \<open>net/url\<close> that the API uses: query strings as lists of decoded pairs, their
  canonical encoding, and a parsed URL as what the repository reads and writes of it. How
  \<open>url.Parse\<close> takes a URL apart is an argument of the definitions that call it.
\<close>

section \<open>Escapes of a query\<close>

fun QueryUnescape :: "string \<Rightarrow> string option" where
  "QueryUnescape [] = Some []"
| "QueryUnescape (c # cs) =
     (if c = CHR ''%'' then
        (case cs of
           a # b # rest \<Rightarrow>
             (case (hex_value a, hex_value b) of
                (Some h, Some l) \<Rightarrow> map_option (Cons (char_of (16 * h + l))) (QueryUnescape rest)
              | _ \<Rightarrow> None)
         | _ \<Rightarrow> None)
      else map_option (Cons (if c = CHR ''+'' then CHR '' '' else c)) (QueryUnescape cs))"

definition unreserved :: "char \<Rightarrow> bool" where
  "unreserved c = (let n = byte c in
     48 \<le> n \<and> n \<le> 57 \<or> 65 \<le> n \<and> n \<le> 90 \<or> 97 \<le> n \<and> n \<le> 122 \<or> c \<in> set ''-_.~'')"

definition upper_hex :: "nat \<Rightarrow> char" where
  "upper_hex n = ''0123456789ABCDEF'' ! n"

definition escape_char :: "char \<Rightarrow> string" where
  "escape_char c =
     (if unreserved c then [c] else if c = CHR '' '' then ''+''
      else [CHR ''%'', upper_hex (byte c div 16), upper_hex (byte c mod 16)])"

definition QueryEscape :: "string \<Rightarrow> string" where
  "QueryEscape s = concat (map escape_char s)"

lemma upper_hex_value [simp]: "n < 16 \<Longrightarrow> hex_value (upper_hex n) = Some n"
  by (rule digits_all [where m = 16 and P = "\<lambda>n. hex_value (upper_hex n) = Some n"]) code_simp

lemma QueryUnescape_escape: "QueryUnescape (QueryEscape s) = Some s"
proof (induction s)
  case (Cons c s)
  have d: "byte c div 16 < 16" using byte_less [of c] by linarith
  have e: "char_of (16 * (byte c div 16) + byte c mod 16) = c" by simp
  consider "unreserved c" | "\<not> unreserved c" "c = CHR '' ''" | "\<not> unreserved c" "c \<noteq> CHR '' ''" by blast
  then show ?case
  proof cases
    case 1
    then have "c \<noteq> CHR ''%''" "c \<noteq> CHR ''+''" by (auto simp: unreserved_def)
    with 1 Cons show ?thesis by (simp add: QueryEscape_def escape_char_def)
  next
    case 2
    with Cons show ?thesis by (simp add: QueryEscape_def escape_char_def)
  next
    case 3
    with Cons d e show ?thesis by (simp add: QueryEscape_def escape_char_def)
  qed
qed (simp add: QueryEscape_def)

section \<open>Values\<close>

text \<open>
  \<open>url.ParseQuery\<close>: the pairs of the query in order; segments with a semicolon or a bad escape
  are errors, which \<open>URL.Query\<close> ignores. \<open>Values\<close> are those pairs; a key's values keep their order.
\<close>

type_synonym url_values = "(string \<times> string) list"

definition cut :: "char \<Rightarrow> string \<Rightarrow> string \<times> string" where
  "cut c s = (takeWhile (\<lambda>x. x \<noteq> c) s, drop 1 (dropWhile (\<lambda>x. x \<noteq> c) s))"

definition query_segment :: "string \<Rightarrow> url_values" where
  "query_segment seg =
     (if Contains seg '';'' \<or> seg = [] then []
      else case cut (CHR ''='') seg of (key, value) \<Rightarrow>
        (case (QueryUnescape key, QueryUnescape value) of
           (Some k, Some v) \<Rightarrow> [(k, v)]
         | _ \<Rightarrow> []))"

definition ParseQuery :: "string \<Rightarrow> url_values" where
  "ParseQuery query = concat (map query_segment (split_on (CHR ''&'') query))"

definition all_values :: "url_values \<Rightarrow> string \<Rightarrow> string list" where
  "all_values vs key = map snd (filter (\<lambda>kv. fst kv = key) vs)"

definition Get :: "url_values \<Rightarrow> string \<Rightarrow> string" where
  "Get vs key = (case all_values vs key of [] \<Rightarrow> [] | v # _ \<Rightarrow> v)"

definition sorted_keys :: "url_values \<Rightarrow> string list" where
  "sorted_keys vs = sort (remdups (map fst vs))"

text \<open>\<open>Values.Encode\<close>: sorted by key.\<close>

definition Encode :: "url_values \<Rightarrow> string" where
  "Encode vs = join_with ''&'' (concat (map (\<lambda>k. map (\<lambda>v. QueryEscape k @ ''='' @ QueryEscape v) (all_values vs k)) (sorted_keys vs)))"

section \<open>URLs\<close>

text \<open>
  What the repository uses of a \<open>url.URL\<close>: the scheme, the query, and the text that \<open>String\<close>
  writes before the query (the fragment is always cleared before).
\<close>

record url =
  uScheme :: string
  uBase :: string
  uForceQuery :: bool
  uRawQuery :: string

definition url_String :: "url \<Rightarrow> string" where
  "url_String u = uBase u @ (if uForceQuery u \<or> uRawQuery u \<noteq> [] then ''?'' @ uRawQuery u else [])"

text \<open>The canonical encoding sees the pairs, not their order.\<close>

lemma sort_mset_eq: "mset (xs :: 'a::linorder list) = mset ys \<Longrightarrow> sort xs = sort ys"
  by (metis properties_for_sort mset_sort sorted_sort)

lemma all_values_mset: "mset vs = mset ws \<Longrightarrow> mset (all_values vs k) = mset (all_values ws k)"
  by (simp add: all_values_def)

lemma sorted_keys_mset: "mset vs = mset ws \<Longrightarrow> sorted_keys vs = sorted_keys ws"
  unfolding sorted_keys_def by (metis mset_eq_setD set_map sorted_list_of_set_sort_remdups)

end
