(* ===== verification/Api_Submission.thy ===== *)
theory Api_Submission
  imports Go_Url Auth Layout_Facts Store_Audit
begin

text \<open>
  Submissions and removals as the API makes them (\<open>internal/api/router.go\<close>): the submission
  fingerprint with its normal forms of links and info hashes, the job that a submission creates,
  and the mark for removal. The server is a record of its configuration and of the functions it
  gets from outside \<open>src/\<close> or from hardware: how a URL is taken apart, the digests, and, for
  every submission of a request, the random bytes.
\<close>

record server =
  vLayout :: layout
  vDefaultCategory :: string
  vBaseURL :: string
  vQBitVersion :: string
  vQBitWebAPI :: string
  vSABVersion :: string
  vSessions :: session_manager
  vKeys :: sab_auth
  vParse :: "string \<Rightarrow> url option"
  vSha1 :: "string \<Rightarrow> string"
  vSha256 :: "string \<Rightarrow> string"

record submission_request =
  srSourceType :: source_type
  srClientKind :: client_kind
  srCategory :: string
  srDisplayName :: string
  srSourceURI :: string
  srInfoHash :: string
  srPayloadName :: string
  srPayloadBody :: "(string \<times> err) option"
  srMetadata :: submission_metadata

section \<open>Normal forms\<close>

definition sorted_values :: "url_values \<Rightarrow> url_values" where
  "sorted_values vs = concat (map (\<lambda>k. map (\<lambda>v. (k, v)) (sort (all_values vs k))) (sorted_keys vs))"

definition normalizeSourceURI :: "(string \<Rightarrow> url option) \<Rightarrow> string \<Rightarrow> string" where
  "normalizeSourceURI parse v =
     (let v = TrimSpace v in
      if v = [] then []
      else case parse v of
        None \<Rightarrow> ToLower v
      | Some u \<Rightarrow> ToLower (url_String (u\<lparr>uRawQuery := Encode (sorted_values (ParseQuery (uRawQuery u)))\<rparr>)))"

definition normalizeInfoHash :: "string \<Rightarrow> string" where
  "normalizeInfoHash v = ToLower (TrimSpace v)"

definition normalizeBTIH :: "string \<Rightarrow> string" where
  "normalizeBTIH v =
     (let v = TrimSpace v in
      if length v = 40 then
        (let normalized = ToLower v in case hex_decode normalized of Some _ \<Rightarrow> normalized | None \<Rightarrow> [])
      else if length v = 32 then
        (case base32_decode (ToUpper v) of Some decoded \<Rightarrow> ToLower (hex_encode decoded) | None \<Rightarrow> [])
      else [])"

definition btih_prefix :: string where
  "btih_prefix = ''urn:btih:''"

definition is_magnet :: "url \<Rightarrow> bool" where
  "is_magnet u = EqualFold (uScheme u) ''magnet''"

definition extractInfoHash :: "(string \<Rightarrow> url option) \<Rightarrow> string \<Rightarrow> string" where
  "extractInfoHash parse source =
     (let source = TrimSpace source in
      if source = [] then []
      else
        let xts = (case parse source of
              Some u \<Rightarrow> if is_magnet u then all_values (ParseQuery (uRawQuery u)) ''xt'' else []
            | None \<Rightarrow> [])
        in case find (\<lambda>xt. HasPrefix (ToLower (TrimSpace xt)) btih_prefix) xts of
             Some xt \<Rightarrow> normalizeBTIH (drop (length btih_prefix) xt)
           | None \<Rightarrow> normalizeBTIH source)"

definition magnetName :: "(string \<Rightarrow> url option) \<Rightarrow> string \<Rightarrow> string" where
  "magnetName parse source =
     (case parse (TrimSpace source) of
        None \<Rightarrow> []
      | Some u \<Rightarrow> if \<not> is_magnet u then [] else TrimSpace (Get (ParseQuery (uRawQuery u)) ''dn''))"

definition deriveDisplayName :: "string \<Rightarrow> string \<Rightarrow> string \<Rightarrow> string \<Rightarrow> string \<Rightarrow> string" where
  "deriveDisplayName displayName sourceURI payloadName infoHash fallback =
     (if TrimSpace displayName \<noteq> [] then TrimSpace displayName
      else if TrimSpace payloadName \<noteq> [] then TrimSpace payloadName
      else if TrimSpace infoHash \<noteq> [] then TrimSpace infoHash
      else if TrimSpace sourceURI \<noteq> [] then TrimSpace sourceURI
      else fallback)"

definition fingerprint_parts :: "(string \<Rightarrow> url option) \<Rightarrow> source_type \<Rightarrow> client_kind \<Rightarrow> string \<Rightarrow> string \<Rightarrow> string \<Rightarrow> string \<Rightarrow> string list" where
  "fingerprint_parts parse sourceType clientKind category sourceURI infoHash payloadDigest =
     [source_text sourceType, kind_text clientKind, TrimSpace category, normalizeSourceURI parse sourceURI,
      normalizeInfoHash infoHash, TrimSpace payloadDigest]"

definition submissionFingerprint ::
  "(string \<Rightarrow> string) \<Rightarrow> (string \<Rightarrow> url option) \<Rightarrow> source_type \<Rightarrow> client_kind \<Rightarrow> string \<Rightarrow> string \<Rightarrow> string \<Rightarrow> string \<Rightarrow> string" where
  "submissionFingerprint sha1 parse sourceType clientKind category sourceURI infoHash payloadDigest =
     SHA1Hex sha1 (join_with ''|''
       (fingerprint_parts parse sourceType clientKind category sourceURI infoHash payloadDigest))"

section \<open>Submissions\<close>

text \<open>The job of an accepted submission.\<close>

definition new_job :: "server \<Rightarrow> time \<Rightarrow> submission_request \<Rightarrow> string \<Rightarrow> string \<Rightarrow> string \<Rightarrow> string \<Rightarrow> job" where
  "new_job srv now req jobID category submissionKey payloadRef =
     (let sourceURI = TrimSpace (srSourceURI req); infoHash = normalizeInfoHash (srInfoHash req) in
      zero_job\<lparr>
        jID := jobID,
        jPublicID := SHA1Hex (vSha1 srv) jobID,
        jSourceType := srSourceType req,
        jClientKind := srClientKind req,
        jCategory := category,
        jState := StateAccepted,
        jSubmissionKey := submissionKey,
        jDisplayName := deriveDisplayName (srDisplayName req) sourceURI (srPayloadName req) infoHash jobID,
        jMetadata := srMetadata req,
        jCreatedAt := now,
        jUpdatedAt := now,
        jSourceURI := ptr sourceURI,
        jInfoHash := ptr infoHash,
        jPayloadRef := ptr payloadRef,
        jStagingPath := Some (StagingPathForJob (vLayout srv) jobID)\<rparr>)"

definition submission_category :: "server \<Rightarrow> submission_request \<Rightarrow> string" where
  "submission_category srv req =
     (let category = TrimSpace (srCategory req) in if category = [] then vDefaultCategory srv else category)"

text \<open>The payload of the request, if it has one: where it was saved, and its digest.\<close>

definition save_payload :: "server \<Rightarrow> fs \<Rightarrow> string \<Rightarrow> submission_request \<Rightarrow> (go_error + string \<times> string) \<times> fs" where
  "save_payload srv fs jobID req =
     (case srPayloadBody req of
        None \<Rightarrow> (Inr ([], []), fs)
      | Some body \<Rightarrow>
          let name = (if srPayloadName req = [] then srDisplayName req else srPayloadName req) in
          SavePayload (vSha256 srv) (vLayout srv) fs jobID name body)"

definition submission_key :: "server \<Rightarrow> submission_request \<Rightarrow> string \<Rightarrow> string" where
  "submission_key srv req payloadDigest =
     submissionFingerprint (vSha1 srv) (vParse srv) (srSourceType req) (srClientKind req) (submission_category srv req)
       (TrimSpace (srSourceURI req)) (normalizeInfoHash (srInfoHash req)) payloadDigest"

definition enqueueSubmission ::
  "server \<Rightarrow> (nat \<Rightarrow> go_error + string) \<Rightarrow> time \<Rightarrow> store \<times> fs \<Rightarrow> submission_request \<Rightarrow> (go_error + job \<times> bool) \<times> store \<times> fs" where
  "enqueueSubmission srv read now s req =
     (let category = submission_category srv req in
      case RandomHex read 16 of
        Inl e \<Rightarrow> (Inl e, s)
      | Inr jobID \<Rightarrow>
          (case save_payload srv (snd s) jobID req of
             (Inl e, fs) \<Rightarrow> (Inl e, fst s, fs)
           | (Inr (payloadRef, payloadDigest), fs) \<Rightarrow>
               let submissionKey = submission_key srv req payloadDigest in
               (case FindActiveBySubmissionKey (fst s) submissionKey of
                  Some dup \<Rightarrow>
                    (Inr (dup, True), fst s, if payloadRef \<noteq> [] then snd (RemovePath fs (Dir payloadRef)) else fs)
                | None \<Rightarrow>
                    let job = new_job srv now req jobID category submissionKey payloadRef in
                    (case CreateJob (fst s) now job of
                       (Some e, st) \<Rightarrow> (Inl e, st, fs)
                     | (None, st) \<Rightarrow>
                         (case UpdateJobState st now (job\<lparr>jNextRunAt := Some now\<rparr>) StateSubmitPending
                             ''queued for remote submission'' of
                            (Some e, _, st') \<Rightarrow> (Inl e, st', fs)
                          | (None, job', st') \<Rightarrow> (Inr (job', False), st', fs))))))"

section \<open>Removal\<close>

definition markRemovePending :: "time \<Rightarrow> store \<Rightarrow> string \<Rightarrow> err \<times> store" where
  "markRemovePending now st publicID =
     (case GetJobByPublicID st publicID of
        None \<Rightarrow> (nil, st)
      | Some job \<Rightarrow>
          if jState job = StateRemoved \<or> jState job = StateRemovePending then (nil, st)
          else returning (UpdateJobState st now
                 (job\<lparr>jDeleteRequested := True, jNextRunAt := Some now, jUpdatedAt := now\<rparr>)
                 StateRemovePending ''remove requested via Arr-compatible API''))"

section \<open>Lists of jobs\<close>

definition filterJobsByPublicIDs :: "job list \<Rightarrow> string list \<Rightarrow> job list" where
  "filterJobsByPublicIDs jobs hashes =
     (if hashes = [] then jobs else filter (\<lambda>job. jPublicID job \<in> set hashes) jobs)"

text \<open>What the access log shows of the query parameters.\<close>

definition secret_keys :: "string list" where
  "secret_keys = [''apikey'', ''nzbkey'', ''token'', ''username'', ''password'', ''pass'']"

definition sanitizeQuery :: "url_values \<Rightarrow> (string \<times> string) list" where
  "sanitizeQuery vs =
     map (\<lambda>key. (key, if ToLower key \<in> set secret_keys then ''[redacted]'' else join_with '','' (all_values vs key)))
       (remdups (map fst vs))"

end
