(* ===== verification/Submission_Facts.thy ===== *)
theory Submission_Facts
  imports Api_Submission
begin

text \<open>
  What submissions and removals do: the normal forms identify what they should, the fingerprint
  tells different submissions apart, a submission stores one job or none, and a removal touches
  one job.
\<close>

section \<open>Normal forms\<close>

text \<open>White space starts and ends outside the printable characters of ASCII.\<close>

definition printable :: "char \<Rightarrow> bool" where
  "printable c \<longleftrightarrow> 33 \<le> byte c \<and> byte c \<le> 126"

lemma no_space_front:
  assumes "list_all (\<lambda>e. e \<noteq> [] \<and> \<not> printable (hd e)) encs" and "\<forall>c\<in>set s. printable c"
  shows "trim_front encs s = s"
proof (rule trim_front_fixed, unfold find_eq_None_iff, rule ballI)
  fix e assume e: "e \<in> set encs"
  show "\<not> (e \<noteq> [] \<and> prefix e s)"
  proof
    assume "e \<noteq> [] \<and> prefix e s"
    then have "hd e \<in> set s" by (auto simp: prefix_def)
    with e assms show False by (auto simp: list_all_iff)
  qed
qed

lemma TrimSpace_printable: "\<forall>c\<in>set s. printable c \<Longrightarrow> TrimSpace s = s"
proof -
  assume s: "\<forall>c\<in>set s. printable c"
  have "list_all (\<lambda>e. e \<noteq> [] \<and> \<not> printable (hd e)) space_runes"
    "list_all (\<lambda>e. e \<noteq> [] \<and> \<not> printable (hd e)) (map rev space_runes)" by code_simp+
  note f = no_space_front [OF this(1) s] no_space_front [OF this(2), of "rev s"]
  with s show ?thesis by (simp add: TrimSpace_def)
qed

lemma hex_digit_range: "n < 16 \<Longrightarrow> 48 \<le> byte (hex_digit n) \<and> byte (hex_digit n) \<le> 102"
  by (rule digits_all [where m = 16 and P = "\<lambda>n. 48 \<le> byte (hex_digit n) \<and> byte (hex_digit n) \<le> 102"]) code_simp

lemma hex_encode_chars: "c \<in> set (hex_encode s) \<Longrightarrow> 48 \<le> byte c \<and> byte c \<le> 102"
proof (induction s)
  case (Cons x s)
  have "byte x div 16 < 16" "byte x mod 16 < 16" using byte_less [of x] by linarith+
  with Cons hex_digit_range show ?case by auto
qed simp

text \<open>A lower-case text that decodes is the encoding of what it decodes to.\<close>

lemma hex_value_digit: "hex_value c = Some n \<Longrightarrow> hex_digit n = ascii_lower c \<and> n < 16"
proof -
  assume a: "hex_value c = Some n"
  have c: "char_of (byte c) = c" by simp
  have d: "hex_digit k = ascii_lower (char_of (k + 48))" if "k < 10" for k :: nat
    by (rule digits_all [OF _ that]) code_simp
  have l: "hex_digit (k + 10) = ascii_lower (char_of (k + 97))" "hex_digit (k + 10) = ascii_lower (char_of (k + 65))" if "k < 6" for k :: nat
    by (rule digits_all [OF _ that], code_simp)+
  consider "48 \<le> byte c" "byte c \<le> 57" "n = byte c - 48" | "97 \<le> byte c" "byte c \<le> 102" "n = byte c - 87"
    | "65 \<le> byte c" "byte c \<le> 70" "n = byte c - 55"
    using a by (auto simp: hex_value_def Let_def split: if_splits)
  then show ?thesis
  proof cases
    case 1
    then show ?thesis using d [of n] c by simp
  next
    case 2
    then show ?thesis using l(1) [of "byte c - 97"] c by simp
  next
    case 3
    then show ?thesis using l(2) [of "byte c - 65"] c by simp
  qed
qed

lemma hex_encode_decode: "hex_decode s = Some b \<Longrightarrow> hex_encode b = ToLower s"
proof (induction s arbitrary: b rule: hex_decode.induct)
  case (3 c d cs)
  then obtain h l r where *: "hex_value c = Some h" "hex_value d = Some l" "hex_decode cs = Some r"
    "b = char_of (16 * h + l) # r" by (auto split: option.splits)
  note v = hex_value_digit [OF *(1)] hex_value_digit [OF *(2)]
  have "byte (char_of (16 * h + l) :: char) = 16 * h + l" using v by (simp add: of_char_of)
  then have "hex_encode b = hex_digit h # hex_digit l # hex_encode r" using v unfolding *(4) by simp
  also have "\<dots> = ToLower (c # d # cs)" using v *(1-3) by (simp add: "3.IH" ToLower_def)
  finally show ?case .
qed (simp_all add: ToLower_def)

lemma ToLower_idem [simp]: "ToLower (ToLower s) = ToLower s"
proof -
  have "ascii_lower (ascii_lower c) = ascii_lower c" for c
    by (auto simp: ascii_lower_def Let_def of_char_of)
  then show ?thesis by (simp add: ToLower_def)
qed

lemma length_ToLower [simp]: "length (ToLower s) = length s"
  by (simp add: ToLower_def)

lemma length_ToUpper [simp]: "length (ToUpper s) = length s"
  by (simp add: ToUpper_def)

lemma base32_length: "length s mod 5 = 0 \<Longrightarrow> 5 * length (base32_encode s) = 8 * length s"
  using base32_values [of s] by auto

text \<open>
  C30. The two spellings of an info hash are one: whether a magnet link gives the 20 bytes in
  hexadecimal or in base32, in whatever letter case and with white space around, the normal form
  is the same lower-case hexadecimal; and whatever the input, the result is empty or the
  hexadecimal of some bytes.
\<close>

theorem info_hash_normal_form:
  "(length h = 20 \<and> (ToLower (TrimSpace v) = hex_encode h \<or> ToUpper (TrimSpace v) = base32_encode h) \<longrightarrow>
     normalizeBTIH v = hex_encode h) \<and> (\<exists>bytes. normalizeBTIH v = hex_encode bytes)"
proof (intro conjI impI)
  assume a: "length h = 20 \<and> (ToLower (TrimSpace v) = hex_encode h \<or> ToUpper (TrimSpace v) = base32_encode h)"
  from a consider "length h = 20" "ToLower (TrimSpace v) = hex_encode h" | "length h = 20" "ToUpper (TrimSpace v) = base32_encode h" by blast
  then show "normalizeBTIH v = hex_encode h"
  proof cases
    case 1
    have "length (TrimSpace v) = 40" using 1 length_ToLower [of "TrimSpace v"] by simp
    with 1 show ?thesis by (simp add: normalizeBTIH_def Let_def)
  next
    case 2
    have "length (TrimSpace v) = 32" using 2 length_ToUpper [of "TrimSpace v"] base32_length [of h] by simp
    moreover have "base32_decode (base32_encode h) = Some h" by (rule base32_round_trip) (simp add: 2)
    ultimately show ?thesis using 2 by (simp add: normalizeBTIH_def Let_def)
  qed
next
  have "[] = hex_encode []" by simp
  moreover have "\<exists>bytes. ToLower (TrimSpace v) = hex_encode bytes" if "hex_decode (ToLower (TrimSpace v)) = Some x" for x
    using hex_encode_decode [OF that] by (metis ToLower_idem)
  ultimately show "\<exists>bytes. normalizeBTIH v = hex_encode bytes"
    unfolding normalizeBTIH_def Let_def by (auto split: option.split simp del: hex_encode.simps)
qed

theorem info_hash_normal_form_witness:
  "normalizeBTIH '' MFRGGZDFMZTWQ2LKNNWG23TPOBYXE43U '' = ''6162636465666768696a6b6c6d6e6f7071727374''"
proof -
  let ?h = "''abcdefghijklmnopqrst''" and ?b = "''MFRGGZDFMZTWQ2LKNNWG23TPOBYXE43U''"
  let ?v = "'' MFRGGZDFMZTWQ2LKNNWG23TPOBYXE43U ''"
  have t: "TrimSpace ?v = ?b" and u: "ToUpper ?b = ?b" and b: "base32_encode ?h = ?b"
    and h: "hex_encode ?h = ''6162636465666768696a6b6c6d6e6f7071727374''" by code_simp+
  have n: "length ?h = 20" by simp
  have e: "ToUpper (TrimSpace ?v) = base32_encode ?h" by (simp only: t u b)
  have "length ?h = 20 \<and> (ToLower (TrimSpace ?v) = hex_encode ?h \<or> ToUpper (TrimSpace ?v) = base32_encode ?h)"
    by (rule conjI [OF n disjI2 [OF e]])
  then have "normalizeBTIH ?v = hex_encode ?h"
    by (rule info_hash_normal_form [of ?h ?v, THEN conjunct1, THEN mp])
  then show ?thesis by (simp only: h)
qed

lemma normalized_values:
  assumes "mset vs = mset ws"
  shows "sorted_values vs = sorted_values ws"
proof -
  have "sort (all_values vs k) = sort (all_values ws k)" for k
    by (rule sort_mset_eq [OF all_values_mset [OF assms]])
  then show ?thesis by (simp only: sorted_values_def sorted_keys_mset [OF assms])
qed


text \<open>Sample: one URL apart by the order of the parameters and the fragment.\<close>

definition sample_parse :: "string \<Rightarrow> url option" where
  "sample_parse v =
     (let (u, frag) = cut (CHR ''#'') v; (base, query) = cut (CHR ''?'') u in
      Some \<lparr>uScheme = fst (cut (CHR '':'') base), uBase = base, uForceQuery = False, uRawQuery = query\<rparr>)"


section \<open>Fingerprints\<close>

lemma hex_encode_inj: "hex_encode a = hex_encode b \<longleftrightarrow> a = b"
  by (metis hex_round_trip option.inject)



section \<open>Submissions\<close>

lemma CreateJob_lookup:
  assumes "store_wf st" and "fst (CreateJob st now job) = nil"
  shows "GetJobByID (snd (CreateJob st now job)) k = (if k = jID job then Some (inserted_row job) else GetJobByID st k)"
proof (rule CreateJob_cases [OF assms(1), of now job])
  assume "fst (CreateJob st now job) \<noteq> nil"
  with assms(2) show ?thesis by simp
next
  assume c: "sJobs (snd (CreateJob st now job)) = sJobs st @ [inserted_row job]" "\<not> job_exists st (jID job)"
  have "find (\<lambda>j. jID j = k) (xs @ [inserted_row job]) =
      (if k = jID job then Some (inserted_row job) else find (\<lambda>j. jID j = k) xs)" if "jID job \<notin> jID ` set xs" for xs
    using that by (induction xs) (auto simp: inserted_row_def)
  from this [of "sJobs st"] c show ?thesis by (simp add: GetJobByID_def job_exists_def)
qed

lemma fresh_UpdateJob_ok:
  assumes "store_wf st" and "fst (CreateJob st now job) = nil" and "active job"
    and "jID job' = jID job" and "jSubmissionKey job' = jSubmissionKey job"
  shows "fst (UpdateJob (snd (CreateJob st now job)) job') = nil"
proof (rule CreateJob_cases [OF assms(1), of now job])
  assume "fst (CreateJob st now job) \<noteq> nil"
  with assms(2) show ?thesis by simp
next
  assume c: "sJobs (snd (CreateJob st now job)) = sJobs st @ [inserted_row job]" "\<not> key_taken st job"
  have "\<not> key_taken (snd (CreateJob st now job)) job'"
    using c assms(3-5) by (auto simp: key_taken_def list_ex_iff inserted_row_def)
  then show ?thesis by (simp add: UpdateJob_ok_iff)
qed

lemma new_job_fields [simp]:
  "jID (new_job srv now req i c k p) = i" "jState (new_job srv now req i c k p) = StateAccepted"
  "jSubmissionKey (new_job srv now req i c k p) = k" "jPublicID (new_job srv now req i c k p) = SHA1Hex (vSha1 srv) i"
  "jCategory (new_job srv now req i c k p) = c" "jPayloadRef (new_job srv now req i c k p) = ptr p"
  "jClientKind (new_job srv now req i c k p) = srClientKind req" "jSourceType (new_job srv now req i c k p) = srSourceType req"
  "jStagingPath (new_job srv now req i c k p) = Some (StagingPathForJob (vLayout srv) i)"
  by (simp_all add: new_job_def Let_def)

text \<open>The three ways a submission ends.\<close>

lemma enqueue_cases:
  assumes "store_wf st"
  obtains (failed) e fs' where "enqueueSubmission srv read now (st, fs) req = (Inl e, st, fs')"
  | (duplicate) i ref digest fs' dup fs'' where "RandomHex read 16 = Inr i" "save_payload srv fs i req = (Inr (ref, digest), fs')"
      "FindActiveBySubmissionKey st (submission_key srv req digest) = Some dup"
      "enqueueSubmission srv read now (st, fs) req = (Inr (dup, True), st, fs'')"
      "fs'' = (if ref \<noteq> [] then snd (RemovePath fs' (Dir ref)) else fs')"
  | (stored) i ref digest fs' job where "RandomHex read 16 = Inr i" "save_payload srv fs i req = (Inr (ref, digest), fs')"
      "job = new_job srv now req i (submission_category srv req) (submission_key srv req digest) ref"
      "FindActiveBySubmissionKey st (jSubmissionKey job) = None" "fst (CreateJob st now job) = nil"
      "enqueueSubmission srv read now (st, fs) req =
         (Inr (job\<lparr>jNextRunAt := Some now, jState := StateSubmitPending, jUpdatedAt := now\<rparr>, False),
          snd (snd (UpdateJobState (snd (CreateJob st now job)) now (job\<lparr>jNextRunAt := Some now\<rparr>) StateSubmitPending
            ''queued for remote submission'')), fs')"
proof (cases "RandomHex read 16")
  case (Inl e)
  then show thesis by (intro failed [of e fs]) (simp add: enqueueSubmission_def)
next
  case i: (Inr i)
  show thesis
  proof (cases "save_payload srv fs i req")
    case s: (Pair r fs')
    show thesis
    proof (cases r)
      case (Inl e)
      with i s show thesis by (intro failed [of e fs']) (simp add: enqueueSubmission_def Let_def)
    next
      case (Inr p)
      obtain ref digest where p: "p = (ref, digest)" by (rule prod.exhaust)
      show thesis
      proof (cases "FindActiveBySubmissionKey st (submission_key srv req digest)")
        case (Some dup)
        with i s Inr p show thesis
          by (intro duplicate [OF i _ Some]) (simp_all add: enqueueSubmission_def Let_def)
      next
        case None
        let ?job = "new_job srv now req i (submission_category srv req) (submission_key srv req digest) ref"
        show thesis
        proof (cases "fst (CreateJob st now ?job)")
          case (Some e)
          then have "CreateJob st now ?job = (Some e, st)"
            using CreateJob_cases [OF assms, of now ?job] by (metis option.distinct(1) prod.collapse)
          with i s Inr p None show thesis by (intro failed [of e fs']) (simp add: enqueueSubmission_def Let_def)
        next
          case c: None
          let ?st = "snd (CreateJob st now ?job)" and ?next = "?job\<lparr>jNextRunAt := Some now\<rparr>"
          have "active ?job" by (simp add: active_def active_states_def)
          then have u: "fst (UpdateJob ?st (?next\<lparr>jState := StateSubmitPending, jUpdatedAt := now\<rparr>)) = nil"
            by (intro fresh_UpdateJob_ok [OF assms c]) simp_all
          have "job_exists ?st i" using CreateJob_lookup [OF assms c, of i] by (simp add: job_exists_iff_find)
          then have "fst (UpdateJobState ?st now ?next StateSubmitPending ''queued for remote submission'') = nil"
            unfolding UpdateJobState_eq [OF u] by (simp add: store_simps split: prod.split)
              (metis AppendEvent_ok UpdateJob_parts(4) fst_conv)
          then obtain st2 where r: "UpdateJobState ?st now ?next StateSubmitPending ''queued for remote submission'' =
              (nil, ?next\<lparr>jState := StateSubmitPending, jUpdatedAt := now\<rparr>, st2)"
            by (metis UpdateJobState_job prod.collapse)
          obtain st1 where c': "CreateJob st now ?job = (nil, st1)" using c by (metis prod.collapse)
          show thesis
          proof (rule stored [OF i _ refl _ c])
            show "save_payload srv fs i req = (Inr (ref, digest), fs')" using s Inr p by simp
            show "FindActiveBySubmissionKey st (jSubmissionKey ?job) = None" using None by simp
            show "enqueueSubmission srv read now (st, fs) req =
                (Inr (?job\<lparr>jNextRunAt := Some now, jState := StateSubmitPending, jUpdatedAt := now\<rparr>, False),
                 snd (snd (UpdateJobState ?st now ?next StateSubmitPending ''queued for remote submission'')), fs')"
              using i s Inr p None r unfolding c' by (simp add: enqueueSubmission_def Let_def c')
          qed
        qed
      qed
    qed
  qed
qed

definition payload_digest :: "server \<Rightarrow> submission_request \<Rightarrow> string" where
  "payload_digest srv req = (case srPayloadBody req of None \<Rightarrow> [] | Some body \<Rightarrow> vSha256 srv (fst body))"

lemma save_payload_digest:
  assumes "save_payload srv fs i req = (Inr (ref, d), fs')"
  shows "d = payload_digest srv req"
proof (cases "srPayloadBody req")
  case None
  with assms show ?thesis by (simp add: save_payload_def payload_digest_def)
next
  case (Some body)
  have "SavePayload h l fs i n body = (Inr (ref, d), fs') \<Longrightarrow> d = h (fst body)" for h l n
    by (auto simp: SavePayload_def Let_def split: prod.splits option.splits)
  with assms Some show ?thesis by (auto simp: save_payload_def payload_digest_def Let_def)
qed

lemma stored_row:
  assumes "store_wf st" and "fst (CreateJob st now job) = nil" and "active job"
  shows "GetJobByID (snd (snd (UpdateJobState (snd (CreateJob st now job)) now (job\<lparr>jNextRunAt := v\<rparr>) s m))) k =
    (if k = jID job then Some (updated_row (job\<lparr>jNextRunAt := v, jState := s, jUpdatedAt := now\<rparr>) (inserted_row job))
     else GetJobByID st k)"
proof -
  have "fst (UpdateJob (snd (CreateJob st now job)) (job\<lparr>jNextRunAt := v, jState := s, jUpdatedAt := now\<rparr>)) = nil"
    by (rule fresh_UpdateJob_ok [OF assms]) simp_all
  then show ?thesis by (simp add: store_simps CreateJob_lookup [OF assms(1,2)])
qed

lemma FindActive_unique:
  assumes "store_wf st" and "GetJobByID st k = Some row" and "active row"
  obtains dup where "FindActiveBySubmissionKey st (jSubmissionKey row) = Some dup" and "jID dup = k"
proof -
  have r: "row \<in> set (sJobs st)" "jID row = k" using GetJobByID_SomeD [OF assms(2)] by simp_all
  then obtain dup where d: "FindActiveBySubmissionKey st (jSubmissionKey row) = Some dup"
    using assms(3) by (cases "FindActiveBySubmissionKey st (jSubmissionKey row)") (auto simp: FindActive_None_iff)
  then have "dup \<in> set (sJobs st)" "active dup" "jSubmissionKey dup = jSubmissionKey row"
    by (auto simp: FindActiveBySubmissionKey_def dest: find_SomeD)
  with r assms(3) have "jID dup = jID row" by (intro keys_uniqueD [OF store_wfD(3) [OF assms(1)]])
  with d r that show thesis by simp
qed

text \<open>The store after a submission that was not there before.\<close>

lemma stored_outcome:
  assumes "audited st" and c: "fst (CreateJob st now job) = nil" and a: "active job"
    and st': "st' = snd (snd (UpdateJobState (snd (CreateJob st now job)) now (job\<lparr>jNextRunAt := Some now\<rparr>) StateSubmitPending m))"
  shows "audited st'" and "GetJobByID st (jID job) = None"
    and "GetJobByID st k = Some row \<Longrightarrow> GetJobByID st' k = Some row"
    and "\<exists>row. GetJobByID st' (jID job) = Some row \<and> jState row = StateSubmitPending \<and> jNextRunAt row = Some now \<and>
        jSubmissionKey row = jSubmissionKey job \<and> jClaimedBy row = None"
proof -
  have wf: "store_wf st" using assms(1) by (simp add: audited_def)
  show none: "GetJobByID st (jID job) = None"
    by (rule CreateJob_cases [OF wf, of now job]) (use c in \<open>simp_all add: job_exists_iff_find\<close>)
  note rows = stored_row [OF wf c a, of "Some now" StateSubmitPending m]
  have "synced (snd (CreateJob st now job)) (job\<lparr>jNextRunAt := Some now\<rparr>)"
    by (rule audit_writes.may_write_cong [OF CreateJob_audited(2) [OF assms(1) c]]) simp_all
  then show "audited st'" unfolding st'
    by (intro audit_writes.update_state_keeps_store CreateJob_audited(1) [OF assms(1)]) simp_all
  show "GetJobByID st k = Some row \<Longrightarrow> GetJobByID st' k = Some row" using none unfolding st' rows by auto
  show "\<exists>row. GetJobByID st' (jID job) = Some row \<and> jState row = StateSubmitPending \<and> jNextRunAt row = Some now \<and>
        jSubmissionKey row = jSubmissionKey job \<and> jClaimedBy row = None"
    unfolding st' rows by simp
qed


definition sample_server :: server where
  "sample_server =
     \<lparr>vLayout = sample_layout, vDefaultCategory = ''torboxarr'', vBaseURL = ''http://localhost:8085'',
      vQBitVersion = ''5.0.0'', vQBitWebAPI = ''2.11.3'', vSABVersion = ''4.5.1'', vSessions = sample_manager,
      vKeys = \<lparr>saApiKey = ''k1'', saNzbKey = ''k2''\<rparr>, vParse = sample_parse, vSha1 = (\<lambda>x. x), vSha256 = (\<lambda>x. x)\<rparr>"

definition sample_request :: submission_request where
  "sample_request =
     \<lparr>srSourceType = SourceTypeTorrent, srClientKind = ClientKindQBit, srCategory = ''tv'', srDisplayName = ''Show'',
      srSourceURI = ''magnet:?x=1'', srInfoHash = [], srPayloadName = [], srPayloadBody = None, srMetadata = no_metadata\<rparr>"




section \<open>Removal\<close>

lemma GetJobByPublicID_row:
  assumes "store_wf st" and "GetJobByPublicID st pid = Some job"
  shows "GetJobByID st (jID job) = Some job" and "jPublicID job = pid"
proof -
  have "job \<in> set (sJobs st)" "jPublicID job = pid" using assms(2) by (auto simp: GetJobByPublicID_def dest: find_SomeD)
  then show "GetJobByID st (jID job) = Some job" "jPublicID job = pid"
    using GetJobByID_unique [OF store_wfD(1) [OF assms(1)]] by simp_all
qed

text \<open>
  A removal request marks one job and no other. Unknown identifiers and jobs already removed or
  marked are left alone, without an error. When it succeeds, the job is pending removal, due at
  once, and no worker has a claim on it; the only other outcome is the error that nothing was
  written, and it needs a failed job whose submission key a later, active job has taken.
\<close>

lemma removal_request:
  assumes "audited st" and "markRemovePending now st pid = (e, st')"
  shows "audited st' \<and>
    (\<forall>k. (\<forall>job. GetJobByPublicID st pid = Some job \<longrightarrow> jID job \<noteq> k) \<longrightarrow> GetJobByID st' k = GetJobByID st k) \<and>
    (case GetJobByPublicID st pid of
       None \<Rightarrow> e = nil \<and> st' = st
     | Some job \<Rightarrow>
         if jState job = StateRemoved \<or> jState job = StateRemovePending then e = nil \<and> st' = st
         else if e = nil
         then \<exists>row. GetJobByID st' (jID job) = Some row \<and> jState row = StateRemovePending \<and> jDeleteRequested row \<and>
                jNextRunAt row = Some now \<and> jClaimedBy row = None
         else st' = st \<and> jState job \<in> {StateRemoteFailed, StateFailed} \<and>
                (\<exists>other. GetJobByID st (jID other) = Some other \<and> jID other \<noteq> jID job \<and> active other \<and>
                   jSubmissionKey other = jSubmissionKey job))"
proof (cases "GetJobByPublicID st pid")
  case None
  with assms show ?thesis by (simp add: markRemovePending_def)
next
  case (Some job)
  have wf: "store_wf st" using assms(1) by (simp add: audited_def)
  note row = GetJobByPublicID_row(1) [OF wf Some]
  show ?thesis
  proof (cases "jState job = StateRemoved \<or> jState job = StateRemovePending")
    case True
    with Some assms show ?thesis by (simp add: markRemovePending_def)
  next
    case False
    let ?job = "job\<lparr>jDeleteRequested := True, jNextRunAt := Some now, jUpdatedAt := now\<rparr>"
    let ?next = "?job\<lparr>jState := StateRemovePending, jUpdatedAt := now\<rparr>"
    let ?u = "UpdateJobState st now ?job StateRemovePending ''remove requested via Arr-compatible API''"
    have "markRemovePending now st pid = returning ?u"
      by (simp only: markRemovePending_def Some option.case False if_False)
    then have u: "e = fst ?u" "st' = snd (snd ?u)"
      unfolding assms(2) by (metis fst_conv fst_returning, metis snd_conv snd_returning)
    have sy: "synced st ?job" by (rule audit_writes.may_write_cong [of st job]) (simp_all add: synced_def row)
    have a: "audited st'" unfolding u by (rule audit_writes.update_state_keeps_store [OF assms(1) sy]) simp
    have others: "GetJobByID st' k = GetJobByID st k" if "jID job \<noteq> k" for k
      using that unfolding u by (simp add: store_simps)
    have ex: "job_exists st (jID job)" using row by (simp add: job_exists_iff_find)
    have ok: "\<exists>r. GetJobByID st' (jID job) = Some r \<and> jState r = StateRemovePending \<and> jDeleteRequested r \<and>
        jNextRunAt r = Some now \<and> jClaimedBy r = None" if "e = nil"
    proof -
      have "fst ?u = nil" by (rule trans [OF u(1) [symmetric] that])
      then obtain r where r: "GetJobByID (snd (snd ?u)) (jID ?job) = Some (updated_row ?next r)" by (rule UpdateJobState_row)
      have j: "jID ?job = jID job" by simp
      show ?thesis by (rule exI [of _ "updated_row ?next r"]) (simp only: u(2) r [unfolded j], simp)
    qed
    have bad: "st' = st \<and> jState job \<in> {StateRemoteFailed, StateFailed} \<and>
        (\<exists>other. GetJobByID st (jID other) = Some other \<and> jID other \<noteq> jID job \<and> active other \<and>
           jSubmissionKey other = jSubmissionKey job)" if "e \<noteq> nil"
    proof -
      have f: "fst (UpdateJob st ?next) \<noteq> nil"
      proof
        assume n: "fst (UpdateJob st ?next) = nil"
        have "fst ?u = nil" using ex unfolding UpdateJobState_eq [OF n]
          by (simp add: store_simps split: prod.split) (metis AppendEvent_ok UpdateJob_parts(4) fst_conv)
        with u that show False by simp
      qed
      then have "st' = st" unfolding u UpdateJobState_store Let_def by (rule if_not_P)
      from f obtain x where x: "x \<in> set (sJobs st)" "jID x \<noteq> jID job" "active x" "jSubmissionKey x = jSubmissionKey job"
        by (auto simp: UpdateJob_ok_iff key_taken_def list_ex_iff)
      have "\<not> active job"
      proof
        assume "active job"
        then have "jID x = jID job" using x GetJobByID_SomeD [OF row] by (intro keys_uniqueD [OF store_wfD(3) [OF wf]]) auto
        with x(2) show False by simp
      qed
      then have "jState job \<in> {StateRemoteFailed, StateFailed}" using False by (cases "jState job") (simp_all add: active_iff)
      moreover have "GetJobByID st (jID x) = Some x" by (rule GetJobByID_unique [OF store_wfD(1) [OF wf] x(1)])
      ultimately show ?thesis using x \<open>st' = st\<close> by blast
    qed
    have frame: "\<forall>k. (\<forall>job. GetJobByPublicID st pid = Some job \<longrightarrow> jID job \<noteq> k) \<longrightarrow> GetJobByID st' k = GetJobByID st k"
      using others Some by auto
    show ?thesis
    proof (intro conjI a frame)
      show "case GetJobByPublicID st pid of None \<Rightarrow> e = nil \<and> st' = st
        | Some job \<Rightarrow> if jState job = StateRemoved \<or> jState job = StateRemovePending then e = nil \<and> st' = st
         else if e = nil
         then \<exists>row. GetJobByID st' (jID job) = Some row \<and> jState row = StateRemovePending \<and> jDeleteRequested row \<and>
                jNextRunAt row = Some now \<and> jClaimedBy row = None
         else st' = st \<and> jState job \<in> {StateRemoteFailed, StateFailed} \<and>
                (\<exists>other. GetJobByID st (jID other) = Some other \<and> jID other \<noteq> jID job \<and> active other \<and>
                   jSubmissionKey other = jSubmissionKey job)"
        unfolding Some option.case using False ok bad by metis
    qed
  qed
qed

text \<open>A failed job whose key was submitted again cannot be deleted while the second job is active.\<close>

definition sample_failed :: store where
  "sample_failed = snd (CreateJob (snd (CreateJob empty_store 0
     (zero_job\<lparr>jID := ''a'', jPublicID := ''pa'', jState := StateFailed, jSubmissionKey := ''k''\<rparr>))) 1
     (zero_job\<lparr>jID := ''b'', jPublicID := ''pb'', jState := StateRemoteActive, jSubmissionKey := ''k''\<rparr>))"

lemma removal_request_witness:
  "audited sample_failed \<and> fst (markRemovePending 5 sample_failed ''pa'') \<noteq> nil \<and>
   snd (markRemovePending 5 sample_failed ''pa'') = sample_failed \<and>
   (\<exists>row. GetJobByID (snd (markRemovePending 5 sample_failed ''pb'')) ''b'' = Some row \<and> jState row = StateRemovePending)"
proof -
  have a: "audited sample_failed"
    unfolding sample_failed_def by (intro CreateJob_audited(1) empty_store_audited)
  have run: "markRemovePending 5 sample_failed p = (fst (markRemovePending 5 sample_failed p), snd (markRemovePending 5 sample_failed p))" for p
    by simp
  have e: "fst (markRemovePending 5 sample_failed ''pa'') \<noteq> nil" "fst (markRemovePending 5 sample_failed ''pb'') = nil" by code_simp+
  have "map_option (\<lambda>j. (jID j, jState j)) (GetJobByPublicID sample_failed ''pa'') = Some (''a'', StateFailed)"
    "map_option (\<lambda>j. (jID j, jState j)) (GetJobByPublicID sample_failed ''pb'') = Some (''b'', StateRemoteActive)" by code_simp+
  then obtain x y where "GetJobByPublicID sample_failed ''pa'' = Some x" "jState x = StateFailed"
    "GetJobByPublicID sample_failed ''pb'' = Some y" "jState y = StateRemoteActive" "jID y = ''b''" by auto
  then show ?thesis using removal_request [OF a run [of "''pa''"]] removal_request [OF a run [of "''pb''"]] a e by auto
qed

section \<open>Files of a submission\<close>

lemma hex_name_comp: "bytes \<noteq> [] \<Longrightarrow> name_comp (hex_encode bytes)"
proof -
  assume "bytes \<noteq> []"
  moreover have "slash \<notin> set (hex_encode bytes)" "CHR ''.'' \<notin> set (hex_encode bytes)"
    using hex_encode_chars [of slash bytes] hex_encode_chars [of "CHR ''.''" bytes] by auto
  ultimately show ?thesis by (cases bytes) (auto simp: name_comp_def plain_comp_def)
qed

lemma PayloadPath_comps:
  assumes "IsAbs (Payloads l)" and "name_comp i"
  shows "clean_comps (PayloadPathForJob l i n) = clean_comps (Payloads l) @ [i, sanitize n]"
  unfolding PayloadPathForJob_def by (rule Join_names(2) [OF assms sanitize_comp])

text \<open>Where a payload is written, and what is left when a duplicate takes it away again.\<close>

lemma save_payload_confined:
  assumes "IsAbs (Payloads (vLayout srv))" and "name_comp i"
  shows "confined [clean_comps (Payloads (vLayout srv)) @ [i]] fs (snd (save_payload srv fs i req))"
proof (cases "srPayloadBody req")
  case (Some body)
  have abs: "IsAbs (PayloadPathForJob (vLayout srv) i n)" for n by (simp add: PayloadPathForJob_def IsAbs_Join assms(1))
  have "confined [clean_comps (Payloads (vLayout srv)) @ [i]] fs (snd (SavePayload h (vLayout srv) fs i n body))" for h n
    by (rule confine.SavePayload_keeps) (simp_all add: inside_def at_abs [OF abs] PayloadPath_comps [OF assms] assms(1))
  with Some show ?thesis by (simp add: save_payload_def Let_def)
qed (simp add: save_payload_def)

lemma drop_payload_confined:
  assumes "IsAbs (Payloads (vLayout srv))" and "name_comp i"
    and "save_payload srv fs i req = (Inr (ref, digest), fs1)" and "ref \<noteq> []"
  shows "srPayloadBody req \<noteq> None" and "confined [clean_comps (Payloads (vLayout srv)) @ [i]] fs (snd (RemovePath fs1 (Dir ref)))"
proof -
  let ?l = "vLayout srv"
  show body: "srPayloadBody req \<noteq> None" using assms(3,4) by (auto simp: save_payload_def split: option.splits)
  then obtain b where "srPayloadBody req = Some b" by blast
  then obtain n where ref: "ref = PayloadPathForJob ?l i n"
    using assms(3) by (auto simp: save_payload_def SavePayload_def Let_def split: prod.splits option.splits)
  have abs: "IsAbs (PayloadPathForJob ?l i n)" by (simp add: PayloadPathForJob_def IsAbs_Join assms(1))
  have "at fs1 (Dir ref) = butlast (at fs1 ref)" by (simp add: ref PayloadPathForJob_def at_Dir_Join assms(1))
  also have "\<dots> = clean_comps (Payloads ?l) @ [i]" by (simp add: ref at_abs [OF abs] PayloadPath_comps [OF assms(1,2)] butlast_append)
  finally show "confined [clean_comps (Payloads ?l) @ [i]] fs (snd (RemovePath fs1 (Dir ref)))"
    using save_payload_confined [OF assms(1,2), of fs req] assms(3) by (intro confine.RemovePath_keeps) (simp_all add: inside_def)
qed

text \<open>
  C21. A submission writes only under the payload directory of its new job: whatever the file name of
  the upload is, and however the submission ends, no other node of the tree changes (directories
  above it may be created); a submission without a payload changes no file.
\<close>

theorem submission_confined:
  assumes "IsAbs (Payloads (vLayout srv))" and "read 16 = Inr bytes" and "bytes \<noteq> []"
    and "store_wf st" and "enqueueSubmission srv read now (st, fs) req = (r, st', fs')"
  shows "confined [clean_comps (Payloads (vLayout srv)) @ [hex_encode bytes]] fs fs' \<and>
    (srPayloadBody req = None \<longrightarrow> fs' = fs)"
proof -
  let ?l = "vLayout srv" and ?i = "hex_encode bytes"
  let ?root = "[clean_comps (Payloads ?l) @ [?i]]"
  have i: "RandomHex read 16 = Inr ?i" using assms(2) by (simp add: RandomHex_def)
  note name = hex_name_comp [OF assms(3)]
  note saved = save_payload_confined [OF assms(1) name, of fs req]
  have none: "save_payload srv fs ?i req = (Inr ([], []), fs)" if "srPayloadBody req = None"
    using that by (simp add: save_payload_def)
  show ?thesis
  proof (rule enqueue_cases [OF assms(4), of srv read now fs req])
    fix i ref digest fs1 dup fs2
    assume s: "RandomHex read 16 = Inr i" "save_payload srv fs i req = (Inr (ref, digest), fs1)"
      "enqueueSubmission srv read now (st, fs) req = (Inr (dup, True), st, fs2)"
      "fs2 = (if ref \<noteq> [] then snd (RemovePath fs1 (Dir ref)) else fs1)"
    have f: "i = ?i" "fs' = fs2" using s(1,3) i assms(5) by simp_all
    have one: "confined ?root fs fs1" using saved s(2) f by simp
    show ?thesis
    proof (cases "ref = []")
      case True
      with f s one none show ?thesis by auto
    next
      case False
      with drop_payload_confined [OF assms(1) name, of fs req ref digest fs1] f s show ?thesis by auto
    qed
  next
    fix i ref digest fs1 job
    assume s: "RandomHex read 16 = Inr i" "save_payload srv fs i req = (Inr (ref, digest), fs1)"
      "enqueueSubmission srv read now (st, fs) req =
         (Inr (job\<lparr>jNextRunAt := Some now, jState := StateSubmitPending, jUpdatedAt := now\<rparr>, False),
          snd (snd (UpdateJobState (snd (CreateJob st now job)) now (job\<lparr>jNextRunAt := Some now\<rparr>) StateSubmitPending
            ''queued for remote submission'')), fs1)"
    then have "i = ?i" "fs' = fs1" using i assms(5) by simp_all
    with saved none s(2) show ?thesis by auto
  next
    fix e fs1 assume "enqueueSubmission srv read now (st, fs) req = (Inl e, st, fs1)"
    then have "fs' = snd (save_payload srv fs ?i req)"
      using assms(5) i by (auto simp: enqueueSubmission_def Let_def split: prod.splits sum.splits option.splits)
    with saved none show ?thesis by auto
  qed
qed

theorem submission_confined_witness:
  "\<exists>fs'. fs' = snd (snd (enqueueSubmission sample_server (\<lambda>_. Inr ''ab'') 7 (empty_store, sample_tree)
       (sample_request\<lparr>srPayloadName := ''../../x'', srPayloadBody := Some (''torrent'', nil)\<rparr>))) \<and>
     node_at fs' [''data'', ''payloads'', ''6162'', ''_.._x''] = Some (FileNode ''torrent'') \<and>
     node_at fs' [''data'', ''staging''] = node_at sample_tree [''data'', ''staging'']"
proof -
  let ?req = "sample_request\<lparr>srPayloadName := ''../../x'', srPayloadBody := Some (''torrent'', nil)\<rparr>"
  let ?run = "enqueueSubmission sample_server (\<lambda>_. Inr ''ab'') 7 (empty_store, sample_tree) ?req"
  have run: "?run = (fst ?run, fst (snd ?run), snd (snd ?run))" by simp
  have abs: "IsAbs (Payloads (vLayout sample_server))" by code_simp
  have root: "clean_comps (Payloads (vLayout sample_server)) @ [hex_encode ''ab''] = [''data'', ''payloads'', ''6162'']" by code_simp
  have "confined [[''data'', ''payloads'', ''6162'']] sample_tree (snd (snd ?run))"
    using submission_confined [OF abs refl _ empty_store_wf run] unfolding root by simp
  moreover have "node_at (snd (snd ?run)) [''data'', ''payloads'', ''6162'', ''_.._x''] = Some (FileNode ''torrent'')" by code_simp
  ultimately show ?thesis by (auto simp: confined_def reach_def)
qed

end
