(* ===== verification/Torbox_Json.thy ===== *)
theory Torbox_Json
  imports Torbox_Client Go_Path
begin

text \<open>
  Answers of the TorBox service (\<open>internal/torbox/parse.go\<close>): the values that
  \<open>encoding/json\<close> decodes into \<open>any\<close>, the lenient readers of their fields, and the parsers of
  task creations, item lists, download links and task states. A JSON number is a decimal (the
  program holds a float64, which has it exactly for the integers up to \<open>2^53\<close>). What \<open>%v\<close> prints
  for arrays and objects and how \<open>strconv.ParseFloat\<close> reads a text are fields of the
  reader.
\<close>

datatype json =
    JNull
  | JBool bool
  | JNumber decimal
  | JString string
  | JArray "json list"
  | JObject "(string \<times> json) list"

type_synonym json_object = "(string \<times> json) list"

record reader =
  rdFormat :: "json \<Rightarrow> string"
  rdParseFloat :: "string \<Rightarrow> decimal option"

text \<open>A field of an object: the last one of that name, as in the map that is decoded.\<close>

definition field :: "json_object \<Rightarrow> string \<Rightarrow> json option" where
  "field m key = map_of (rev m) key"

text \<open>\<open>int64(x)\<close> of a float: towards zero.\<close>

definition truncate :: "decimal \<Rightarrow> int" where
  "truncate x = (case x of (m, d) \<Rightarrow> if 0 \<le> m then m div 10 ^ d else - ((- m) div 10 ^ d))"

text \<open>\<open>strconv.ParseBool\<close>; \<open>None\<close> is an error.\<close>

definition ParseBool :: "string \<Rightarrow> bool option" where
  "ParseBool s =
     (if s \<in> {''1'', ''t'', ''T'', ''TRUE'', ''true'', ''True''} then Some True
      else if s \<in> {''0'', ''f'', ''F'', ''FALSE'', ''false'', ''False''} then Some False
      else None)"

section \<open>Fields\<close>

definition stringify :: "reader \<Rightarrow> json \<Rightarrow> string" where
  "stringify rd v =
     (case v of
        JNull \<Rightarrow> []
      | JString s \<Rightarrow> s
      | JNumber x \<Rightarrow> itoa (truncate x)
      | JBool b \<Rightarrow> if b then ''true'' else ''false''
      | _ \<Rightarrow> rdFormat rd v)"

fun firstString :: "reader \<Rightarrow> json_object \<Rightarrow> string list \<Rightarrow> string" where
  "firstString rd m [] = []"
| "firstString rd m (key # keys) =
     (case field m key of
        None \<Rightarrow> firstString rd m keys
      | Some v \<Rightarrow> let out = stringify rd v in if out \<noteq> [] then out else firstString rd m keys)"

fun firstInt :: "json_object \<Rightarrow> string list \<Rightarrow> int" where
  "firstInt m [] = 0"
| "firstInt m (key # keys) =
     (case field m key of
        Some (JNumber x) \<Rightarrow> truncate x
      | Some (JString s) \<Rightarrow> (case ParseInt s of Some n \<Rightarrow> n | None \<Rightarrow> firstInt m keys)
      | _ \<Rightarrow> firstInt m keys)"

fun firstFloat :: "reader \<Rightarrow> json_object \<Rightarrow> string list \<Rightarrow> decimal" where
  "firstFloat rd m [] = (0, 0)"
| "firstFloat rd m (key # keys) =
     (case field m key of
        Some (JNumber x) \<Rightarrow> x
      | Some (JString s) \<Rightarrow> (case rdParseFloat rd s of Some x \<Rightarrow> x | None \<Rightarrow> firstFloat rd m keys)
      | _ \<Rightarrow> firstFloat rd m keys)"

text \<open>\<open>boolField\<close>: the value and whether there is one; \<open>firstBool\<close> takes the first there is.\<close>

definition boolField :: "json_object \<Rightarrow> string \<Rightarrow> bool \<times> bool" where
  "boolField m key =
     (case field m key of
        Some (JBool b) \<Rightarrow> (b, True)
      | Some (JString s) \<Rightarrow> (case ParseBool s of Some b \<Rightarrow> (b, True) | None \<Rightarrow> (False, False))
      | Some (JNumber x) \<Rightarrow> (fst x \<noteq> 0, True)
      | _ \<Rightarrow> (False, False))"

fun firstBool :: "json_object \<Rightarrow> string list \<Rightarrow> bool" where
  "firstBool m [] = False"
| "firstBool m (key # keys) =
     (case field m key of
        Some (JBool b) \<Rightarrow> b
      | Some (JString s) \<Rightarrow> (case ParseBool s of Some b \<Rightarrow> b | None \<Rightarrow> firstBool m keys)
      | Some (JNumber x) \<Rightarrow> fst x \<noteq> 0
      | _ \<Rightarrow> firstBool m keys)"

section \<open>Identifiers\<close>

definition extractQueuedID :: "reader \<Rightarrow> json_object \<Rightarrow> string" where
  "extractQueuedID rd item = firstString rd item [''queued_id'', ''queue_id'', ''id'']"

definition active_id_keys :: "string \<Rightarrow> string list" where
  "active_id_keys sourceType =
     (let t = ToLower sourceType in
      if t = ''torrent'' then [''torrent_id'', ''download_id'']
      else if t = ''nzb'' \<or> t = ''usenet'' then [''usenetdownload_id'', ''usenet_id'']
      else [''torrent_id'', ''usenetdownload_id'', ''usenet_id'', ''download_id''])"

definition extractActiveID :: "reader \<Rightarrow> string \<Rightarrow> json_object \<Rightarrow> bool \<Rightarrow> string" where
  "extractActiveID rd sourceType item allowGenericID =
     firstString rd item (active_id_keys sourceType @ (if allowGenericID then [''id''] else []))"

definition extractQueueAuthID :: "reader \<Rightarrow> string \<Rightarrow> json_object \<Rightarrow> string" where
  "extractQueueAuthID rd sourceType item =
     (let authID = firstString rd item [''auth_id''] in
      if authID \<noteq> [] then authID
      else if \<not> EqualFold sourceType ''usenet'' then []
      else
        let torrentFile = firstString rd item [''torrent_file''] in
        if torrentFile = [] then []
        else
          let before = takeWhile (\<lambda>c. c \<noteq> slash) torrentFile in
          if slash \<in> set torrentFile \<and> before \<noteq> [] then before else torrentFile)"

section \<open>Parsers\<close>

definition remote_file_of :: "reader \<Rightarrow> json_object \<Rightarrow> remote_file" where
  "remote_file_of rd object =
     (let name = firstString rd object [''name'', ''filename''];
          shortName = firstString rd object [''short_name'', ''shortName''];
          relativePath = firstString rd object [''path'', ''relative_path''];
          relativePath = (if relativePath = [] then (if shortName \<noteq> [] then shortName else name) else relativePath)
      in \<lparr>rfFileID = firstString rd object [''id'', ''file_id''], rfName = name, rfShortName = shortName,
          rfRelativePath = relativePath, rfSize = firstInt object [''size'', ''bytes'']\<rparr>)"

fun remote_files :: "reader \<Rightarrow> json list \<Rightarrow> remote_file list" where
  "remote_files rd [] = []"
| "remote_files rd (JObject object # rest) = remote_file_of rd object # remote_files rd rest"
| "remote_files rd (_ # rest) = remote_files rd rest"

definition extractRemoteFiles :: "reader \<Rightarrow> json_object \<Rightarrow> remote_file list" where
  "extractRemoteFiles rd item =
     (case field item ''files'' of Some (JArray entries) \<Rightarrow> remote_files rd entries | _ \<Rightarrow> [])"

definition failure_words :: "string list" where
  "failure_words = [''fail'', ''error'', ''abort'', ''cancel'', ''cannot be completed'', ''repair failed'', ''incomplete'']"

definition parseTaskStatus :: "reader \<Rightarrow> string \<Rightarrow> json_object \<Rightarrow> task_status" where
  "parseTaskStatus rd sourceType item =
     (let progress = firstFloat rd item [''progress'', ''download_progress''];
          bytesTotal = firstInt item [''size'', ''total_bytes'', ''download_size''];
          bytesDone = firstInt item [''downloaded'', ''downloaded_bytes''];
          bytesDone = (if bytesDone = 0 \<and> 0 < bytesTotal \<and> 0 < fst progress
                       then truncate (bytesTotal * fst progress, snd progress) else bytesDone);
          state = ToLower (firstString rd item [''download_state'', ''status'', ''state'']);
          label = ToLower (firstString rd item [''download_label'', ''label'']);
          (downloadPresent, hasDownloadPresent) = boolField item ''download_present'';
          (downloadFinished, _) = boolField item ''download_finished'';
          (downloadReadyField, hasDownloadReady) = boolField item ''download_ready'';
          downloadReady = (if hasDownloadPresent then downloadPresent
                           else if hasDownloadReady then downloadReadyField
                           else label = ''download ready'' \<or> label = ''cached'');
          stateFailed = list_ex (Contains state) failure_words;
          labelFailed = (Contains label ''fail'' \<or> Contains label ''incomplete'')
      in \<lparr>tsRemoteID = extractActiveID rd sourceType item True,
          tsQueuedID = extractQueuedID rd item,
          tsQueueAuthID = extractQueueAuthID rd sourceType item,
          tsHash = firstString rd item [''hash''],
          tsName = firstString rd item [''name'', ''filename'', ''title''],
          tsState = state, tsLabel = label, tsProgress = progress,
          tsBytesTotal = bytesTotal, tsBytesDone = bytesDone,
          tsDownloadPresent = downloadPresent, tsDownloadFinished = downloadFinished,
          tsDownloadReady = downloadReady,
          tsFailed = ((stateFailed \<or> labelFailed) \<and> \<not> downloadReady),
          tsInactive = (label = ''inactive'' \<or> firstBool item [''inactive'']),
          tsError = firstString rd item [''error'', ''detail'', ''message''],
          tsFiles = extractRemoteFiles rd item\<rparr>)"

text \<open>
  The envelope: \<open>success\<close>, \<open>error\<close>, \<open>detail\<close>, and the raw data, which is absent, or a value.
\<close>

record envelope =
  evSuccess :: bool
  evError :: "json option"
  evDetail :: string
  evData :: "json option"

definition has_data :: "envelope \<Rightarrow> bool" where
  "has_data env = (case evData env of None \<Rightarrow> False | Some v \<Rightarrow> v \<noteq> JNull)"

text \<open>Decoding a value into a list of objects: \<open>null\<close> elements are empty objects, others an error.\<close>

fun as_objects :: "json list \<Rightarrow> json_object list option" where
  "as_objects [] = Some []"
| "as_objects (JObject m # vs) = map_option (Cons m) (as_objects vs)"
| "as_objects (JNull # vs) = map_option (Cons []) (as_objects vs)"
| "as_objects (_ # vs) = None"

definition parseCreateTask :: "reader \<Rightarrow> envelope \<Rightarrow> go_error + create_task_response" where
  "parseCreateTask rd env =
     (case evData env of
        None \<Rightarrow> Inr \<lparr>crRemoteID = [], crQueuedID = [], crQueueAuthID = [], crRemoteHash = [], crDisplayName = []\<rparr>
      | Some JNull \<Rightarrow> Inr \<lparr>crRemoteID = [], crQueuedID = [], crQueueAuthID = [], crRemoteHash = [], crDisplayName = []\<rparr>
      | Some (JObject object) \<Rightarrow>
          Inr \<lparr>crRemoteID = extractActiveID rd [] object True, crQueuedID = extractQueuedID rd object,
               crQueueAuthID = extractQueueAuthID rd [] object, crRemoteHash = firstString rd object [''hash''],
               crDisplayName = firstString rd object [''name'', ''filename'']\<rparr>
      | Some v \<Rightarrow>
          if stringify rd v \<noteq> []
          then Inr \<lparr>crRemoteID = stringify rd v, crQueuedID = [], crQueueAuthID = [], crRemoteHash = [], crDisplayName = []\<rparr>
          else Inl (ErrText ''unable to parse create task response''))"

definition parseItemsEnvelope :: "envelope \<Rightarrow> go_error + json_object list" where
  "parseItemsEnvelope env =
     (if \<not> has_data env then Inl (ErrText ''empty item response'')
      else case evData env of
        Some (JObject object) \<Rightarrow> Inr [object]
      | Some (JArray vs) \<Rightarrow> (case as_objects vs of
            Some list \<Rightarrow> Inr list | None \<Rightarrow> Inl (ErrText ''unable to parse item response''))
      | _ \<Rightarrow> Inl (ErrText ''unable to parse item response''))"

definition link_keys :: "string list" where
  "link_keys = [''download_url'', ''link'', ''url'', ''cdn_url'']"

definition parseLinkEnvelope :: "reader \<Rightarrow> envelope \<Rightarrow> go_error + string" where
  "parseLinkEnvelope rd env =
     (if \<not> has_data env then Inl (ErrText ''empty link response'')
      else
        let failed = Inl (ErrText ''unable to parse download link response'') in
        case evData env of
          Some (JString text) \<Rightarrow> if text \<noteq> [] then Inr text else failed
        | Some (JObject object) \<Rightarrow>
            (let link = firstString rd object link_keys in if link \<noteq> [] then Inr link else failed)
        | Some (JArray vs) \<Rightarrow>
            (case as_objects vs of
               None \<Rightarrow> failed
             | Some list \<Rightarrow>
                 (case find (\<lambda>link. link \<noteq> []) (map (\<lambda>item. firstString rd item link_keys) list) of
                    Some link \<Rightarrow> Inr link
                  | None \<Rightarrow> failed))
        | _ \<Rightarrow> failed)"

end
