(* ===== verification/Torbox_Http.thy ===== *)
theory Torbox_Http
  imports Torbox_Json Go_Url
begin

text \<open>
  The HTTP client of the TorBox service (\<open>internal/torbox/http_client.go\<close>, \<open>tasks.go\<close>,
  \<open>download.go\<close>): the requests it sends, the classes of its errors, the search for a task, and
  the resolution of download links. The network is a function from requests to outcomes. Waiting
  for a limiter (theory \<open>Limiter\<close>) only delays a call; cancelling the process is not modelled.
\<close>

record wire_request =
  wqMethod :: string
  wqTarget :: string
  wqFile :: "(string \<times> string) option"
  wqFields :: "(string \<times> string) list"

text \<open>A failed round trip, with whether it is a timeout; a body that breaks off; an answer.\<close>

datatype wire_outcome =
    NoAnswer go_error bool
  | BrokenAnswer go_error
  | Answer int string

text \<open>\<open>json.Unmarshal\<close>, \<open>%q\<close>, \<open>http.NewRequest\<close>, the network, and the files on disk.\<close>

record api_client =
  apToken :: string
  apReader :: reader
  apDecode :: "string \<Rightarrow> go_error + envelope"
  apQuote :: "string \<Rightarrow> string"
  apNewRequest :: "string \<Rightarrow> err"
  apSend :: "wire_request \<Rightarrow> wire_outcome"
  apReadFile :: "string \<Rightarrow> go_error + string"

section \<open>One exchange\<close>

definition isNetRetryable :: "go_error \<Rightarrow> bool \<Rightarrow> bool" where
  "isNetRetryable e timeout \<longleftrightarrow> timeout \<or> Contains (ToLower (Error e)) ''timeout''"

definition marked :: "go_error \<Rightarrow> go_error" where
  "marked e = (case MarkRetryable (Some e) of Some e' \<Rightarrow> e' | None \<Rightarrow> e)"

definition status_error :: "int \<Rightarrow> string \<Rightarrow> go_error" where
  "status_error code raw = ErrText (''torbox status '' @ itoa code @ '': '' @ TrimSpace raw)"

definition exchange :: "api_client \<Rightarrow> wire_request \<Rightarrow> go_error + envelope" where
  "exchange c req =
     (case apNewRequest c (wqTarget req) of
        Some e \<Rightarrow> Inl (ErrWrap ''new request'' e)
      | None \<Rightarrow>
          (case apSend c req of
             NoAnswer e timeout \<Rightarrow>
               if isNetRetryable e timeout then Inl (marked (ErrWrap ''torbox request failed'' e))
               else Inl (ErrWrap ''torbox request failed'' e)
           | BrokenAnswer e \<Rightarrow> Inl (ErrWrap ''read response'' e)
           | Answer code raw \<Rightarrow>
               if code = 429 \<or> 500 \<le> code then Inl (marked (status_error code raw))
               else if 400 \<le> code then Inl (status_error code raw)
               else if TrimSpace raw = [] then Inr \<lparr>evSuccess = False, evError = None, evDetail = [], evData = None\<rparr>
               else (case apDecode c raw of
                   Inl e \<Rightarrow> Inl (ErrWrap ''decode response envelope'' e)
                 | Inr env \<Rightarrow>
                     (case (evSuccess env, evError env) of
                        (False, Some e) \<Rightarrow>
                          if e = JNull then Inr env
                          else Inl (ErrText (''torbox api error: '' @ rdFormat (apReader c) e @ '' ('' @ evDetail env @ '')''))
                      | _ \<Rightarrow> Inr env))))"

definition get_request :: "string \<Rightarrow> url_values \<Rightarrow> wire_request" where
  "get_request endpoint query = \<lparr>wqMethod = ''GET'', wqTarget = endpoint @ ''?'' @ Encode query, wqFile = None, wqFields = []\<rparr>"

section \<open>Creating tasks\<close>

definition attachFile :: "api_client \<Rightarrow> string \<Rightarrow> go_error + (string \<times> string) option" where
  "attachFile c path =
     (if path = [] then Inr None
      else case apReadFile c path of
        Inl e \<Rightarrow> Inl (ErrWrap (''open '' @ path) e)
      | Inr bytes \<Rightarrow> Inr (Some (Base path, bytes)))"

text \<open>The form fields; the program keeps them in a map, so their order is of no meaning.\<close>

definition text_field :: "string \<Rightarrow> string \<Rightarrow> (string \<times> string) list" where
  "text_field key value = (if value = [] then [] else [(key, value)])"

definition flag_field :: "string \<Rightarrow> bool \<Rightarrow> (string \<times> string) list" where
  "flag_field key b = (if b then [(key, ''true'')] else [])"

definition torrent_fields :: "create_torrent_request \<Rightarrow> (string \<times> string) list" where
  "torrent_fields req =
     text_field ''name'' (ctName req) @ text_field ''magnet'' (ctMagnet req) @
     (if ctSeed req \<noteq> 0 then [(''seed'', itoa (ctSeed req))] else []) @
     flag_field ''allow_zip'' (ctAllowZip req) @ flag_field ''as_queued'' (ctAsQueued req) @
     flag_field ''add_only_if_cached'' (ctAddOnlyIfCached req)"

definition usenet_fields :: "create_usenet_request \<Rightarrow> (string \<times> string) list" where
  "usenet_fields req =
     text_field ''link'' (cuLink req) @ text_field ''name'' (cuName req) @ text_field ''password'' (cuPassword req) @
     (case cuPostProcessing req of Some pp \<Rightarrow> [(''post_processing'', itoa pp)] | None \<Rightarrow> []) @
     flag_field ''as_queued'' (cuAsQueued req) @ flag_field ''add_only_if_cached'' (cuAddOnlyIfCached req)"

definition create_via :: "api_client \<Rightarrow> string \<Rightarrow> string \<Rightarrow> (string \<times> string) list \<Rightarrow> create_task_response answer" where
  "create_via c target payloadPath form =
     (case attachFile c payloadPath of
        Inl e \<Rightarrow> Inl e
      | Inr file \<Rightarrow>
          (case exchange c \<lparr>wqMethod = ''POST'', wqTarget = target, wqFile = file, wqFields = form\<rparr> of
             Inl e \<Rightarrow> Inl e
           | Inr env \<Rightarrow> map_sum (\<lambda>e. e) Some (parseCreateTask (apReader c) env)))"

definition http_CreateTorrentTask :: "api_client \<Rightarrow> create_torrent_request \<Rightarrow> create_task_response answer" where
  "http_CreateTorrentTask c req = create_via c ''/api/torrents/createtorrent'' (ctPayloadPath req) (torrent_fields req)"

definition http_CreateUsenetTask :: "api_client \<Rightarrow> create_usenet_request \<Rightarrow> create_task_response answer" where
  "http_CreateUsenetTask c req = create_via c ''/api/usenet/createusenetdownload'' (cuPayloadPath req) (usenet_fields req)"

section \<open>Looking tasks up\<close>

definition items_of :: "go_error + envelope \<Rightarrow> go_error + json_object list" where
  "items_of r = (case r of Inl e \<Rightarrow> Inl e | Inr env \<Rightarrow> parseItemsEnvelope env)"

definition unknown_source :: "api_client \<Rightarrow> string \<Rightarrow> go_error" where
  "unknown_source c sourceType = ErrText (''unknown source type '' @ apQuote c sourceType)"

definition id_query :: "string \<Rightarrow> url_values" where
  "id_query i = (if TrimSpace i = [] then [] else [(''id'', TrimSpace i)])"

definition getRemoteItems :: "api_client \<Rightarrow> string \<Rightarrow> string \<Rightarrow> go_error + json_object list" where
  "getRemoteItems c sourceType remoteID =
     (let t = ToLower sourceType; query = (''bypass_cache'', ''true'') # id_query remoteID in
      if t = ''torrent'' then items_of (exchange c (get_request ''/api/torrents/mylist'' query))
      else if t = ''nzb'' \<or> t = ''usenet'' then items_of (exchange c (get_request ''/api/usenet/mylist'' query))
      else Inl (unknown_source c sourceType))"

definition getQueuedItems :: "api_client \<Rightarrow> string \<Rightarrow> string \<Rightarrow> go_error + json_object list" where
  "getQueuedItems c sourceType queuedID =
     items_of (exchange c (get_request ''/api/queued/getqueued''
       ([(''type'', ToLower sourceType), (''bypass_cache'', ''true'')] @
        (if \<not> EqualFold sourceType ''usenet'' then id_query queuedID else []))))"

definition http_GetQueuedStatus :: "api_client \<Rightarrow> string \<Rightarrow> string \<Rightarrow> task_status answer" where
  "http_GetQueuedStatus c sourceType queuedID =
     (if TrimSpace queuedID = [] then Inl (ErrText ''queued id is required'')
      else case getQueuedItems c sourceType queuedID of
        Inl e \<Rightarrow> Inl e
      | Inr items \<Rightarrow>
          Inr (map_option
            (\<lambda>item. (parseTaskStatus (apReader c) sourceType item)\<lparr>
               tsQueuedID := extractQueuedID (apReader c) item,
               tsQueueAuthID := extractQueueAuthID (apReader c) sourceType item\<rparr>)
            (find (\<lambda>item. extractQueuedID (apReader c) item = TrimSpace queuedID) items)))"

text \<open>The rule by which an item is the task that is searched for.\<close>

definition task_matches :: "reader \<Rightarrow> string \<Rightarrow> string \<Rightarrow> string \<Rightarrow> string \<Rightarrow> json_object \<Rightarrow> bool" where
  "task_matches rd sourceType remoteID queueAuthID remoteHash item =
     (let itemID = extractActiveID rd sourceType item True;
          itemHash = firstString rd item [''hash''];
          itemAuthID = firstString rd item [''auth_id'']
      in TrimSpace remoteID \<noteq> [] \<and> itemID = TrimSpace remoteID \<or>
         EqualFold sourceType ''usenet'' \<and> TrimSpace queueAuthID \<noteq> [] \<and> itemAuthID = TrimSpace queueAuthID \<or>
         TrimSpace remoteHash \<noteq> [] \<and> itemHash = TrimSpace remoteHash)"

definition http_FindActiveTask :: "api_client \<Rightarrow> string \<Rightarrow> string \<Rightarrow> string \<Rightarrow> string \<Rightarrow> task_status answer" where
  "http_FindActiveTask c sourceType remoteID queueAuthID remoteHash =
     (case getRemoteItems c sourceType remoteID of
        Inl e \<Rightarrow> Inl e
      | Inr items \<Rightarrow>
          Inr (map_option (parseTaskStatus (apReader c) sourceType)
            (find (task_matches (apReader c) sourceType remoteID queueAuthID remoteHash) items)))"

definition http_GetTaskStatus :: "api_client \<Rightarrow> string \<Rightarrow> string \<Rightarrow> task_status answer" where
  "http_GetTaskStatus c sourceType remoteID = http_FindActiveTask c sourceType remoteID [] []"

section \<open>Download links\<close>

definition requestDownloadLink :: "api_client \<Rightarrow> string \<Rightarrow> string \<Rightarrow> string \<Rightarrow> bool \<Rightarrow> go_error + string" where
  "requestDownloadLink c sourceType remoteID fileID zipLink =
     (let query = [(''token'', apToken c), (''redirect'', ''false'')] @ flag_field ''zip_link'' zipLink @ text_field ''file_id'' fileID;
          t = ToLower sourceType;
          link = (\<lambda>endpoint idKey.
            case exchange c (get_request endpoint (query @ [(idKey, remoteID)])) of
              Inl e \<Rightarrow> Inl e | Inr env \<Rightarrow> parseLinkEnvelope (apReader c) env)
      in if t = ''torrent'' then link ''/api/torrents/requestdl'' ''torrent_id''
         else if t = ''nzb'' \<or> t = ''usenet'' then link ''/api/usenet/requestdl'' ''usenet_id''
         else Inl (unknown_source c sourceType))"

definition asset_path :: "remote_file \<Rightarrow> string" where
  "asset_path f =
     Clean (if rfRelativePath f = [] then (if rfShortName f \<noteq> [] then rfShortName f else rfName f) else rfRelativePath f)"

fun link_files :: "api_client \<Rightarrow> string \<Rightarrow> string \<Rightarrow> remote_file list \<Rightarrow> go_error + download_asset list" where
  "link_files c sourceType remoteID [] = Inr []"
| "link_files c sourceType remoteID (f # fs) =
     (case requestDownloadLink c sourceType remoteID (rfFileID f) False of
        Inl e \<Rightarrow> Inl e
      | Inr link \<Rightarrow>
          (case link_files c sourceType remoteID fs of
             Inl e \<Rightarrow> Inl e
           | Inr assets \<Rightarrow>
               Inr (\<lparr>daFileID = rfFileID f, daURL = link, daRelativePath = asset_path f, daSize = rfSize f\<rparr> # assets)))"

definition http_GetDownloadLinks :: "api_client \<Rightarrow> string \<Rightarrow> string \<Rightarrow> go_error + download_asset list" where
  "http_GetDownloadLinks c sourceType remoteID =
     (case RequireRemoteID remoteID of
        Some e \<Rightarrow> Inl e
      | None \<Rightarrow>
          (case getRemoteItems c sourceType remoteID of
             Inl e \<Rightarrow> Inl e
           | Inr [] \<Rightarrow> Inl (ErrText ''empty item response'')
           | Inr (item # _) \<Rightarrow>
               let files = extractRemoteFiles (apReader c) item in
               if files = [] then
                 (case requestDownloadLink c sourceType remoteID [] True of
                    Inl e \<Rightarrow> Inl e
                  | Inr link \<Rightarrow> Inr [\<lparr>daFileID = [], daURL = link, daRelativePath = ''payload.zip'', daSize = 0\<rparr>])
               else link_files c sourceType remoteID files))"

text \<open>The client as the workers see it; every call of \<open>GetDownloadLinks\<close> may meet another network.\<close>

definition http_client_of :: "(nat \<Rightarrow> api_client) \<Rightarrow> torbox_client" where
  "http_client_of c =
     \<lparr>CreateTorrentTask = http_CreateTorrentTask (c 0), CreateUsenetTask = http_CreateUsenetTask (c 0),
      GetQueuedStatus = http_GetQueuedStatus (c 0), GetTaskStatus = http_GetTaskStatus (c 0),
      FindActiveTask = http_FindActiveTask (c 0), GetDownloadLinks = (\<lambda>n. http_GetDownloadLinks (c n))\<rparr>"

end
