(* ===== verification/Torbox_Facts.thy ===== *)
theory Torbox_Facts
  imports Torbox_Http Submitter
begin

text \<open>
  What the workers can rely on of the HTTP client: which failures may be retried, which item a
  search finds, and which files the download links cover.
\<close>

section \<open>Error classes\<close>

text \<open>
  The errors of the network, of the decoder and of the file system are not
  \<open>RetryableError\<close>s of the repository: they come from the standard library.
\<close>

definition library_errors :: "api_client \<Rightarrow> bool" where
  "library_errors c \<longleftrightarrow>
     (\<forall>t e. apNewRequest c t = Some e \<longrightarrow> \<not> retryable_in e) \<and>
     (\<forall>q e b. apSend c q = NoAnswer e b \<longrightarrow> \<not> retryable_in e) \<and>
     (\<forall>q e. apSend c q = BrokenAnswer e \<longrightarrow> \<not> retryable_in e) \<and>
     (\<forall>s e. apDecode c s = Inl e \<longrightarrow> \<not> retryable_in e) \<and>
     (\<forall>p e. apReadFile c p = Inl e \<longrightarrow> \<not> retryable_in e)"

text \<open>The outcomes that are worth a retry: too many requests, a failing server, a timeout.\<close>

definition transient :: "wire_outcome \<Rightarrow> bool" where
  "transient o' =
     (case o' of
        NoAnswer e timeout \<Rightarrow> isNetRetryable e timeout
      | BrokenAnswer e \<Rightarrow> False
      | Answer code raw \<Rightarrow> code = 429 \<or> 500 \<le> code)"

lemma marked_retryable [simp]: "retryable_in (marked e)"
  by (simp add: marked_def MarkRetryable_def)

lemma exchange_retryable:
  assumes "library_errors c" and "exchange c req = Inl e"
  shows "retryable_in e \<longleftrightarrow> apNewRequest c (wqTarget req) = nil \<and> transient (apSend c req)"
proof (cases "apNewRequest c (wqTarget req)")
  case (Some e')
  with assms show ?thesis by (auto simp: exchange_def library_errors_def)
next
  case None
  show ?thesis
  proof (cases "apSend c req")
    case (NoAnswer e' b)
    with assms(1) have "\<not> retryable_in e'" unfolding library_errors_def by blast
    with NoAnswer assms(2) None show ?thesis
      by (cases "isNetRetryable e' b") (auto simp: exchange_def transient_def)
  next
    case (BrokenAnswer e')
    with assms None show ?thesis by (auto simp: exchange_def library_errors_def transient_def)
  next
    case (Answer code raw)
    with assms None show ?thesis
      by (auto simp: exchange_def library_errors_def transient_def status_error_def
          split: if_splits sum.splits option.splits bool.splits)
  qed
qed

lemma exchange_fails: "apNewRequest c (wqTarget req) = nil \<Longrightarrow> transient (apSend c req) \<Longrightarrow> \<exists>e. exchange c req = Inl e"
  by (cases "apSend c req") (auto simp: exchange_def transient_def)

lemma exchange_refused:
  "apNewRequest c (wqTarget req) = nil \<Longrightarrow> apSend c req = Answer code raw \<Longrightarrow> 400 \<le> code \<Longrightarrow> \<exists>e. exchange c req = Inl e"
  by (auto simp: exchange_def)

lemma parseCreateTask_error: "parseCreateTask rd env = Inl e \<Longrightarrow> \<not> retryable_in e"
  by (auto simp: parseCreateTask_def split: option.splits json.splits if_splits)

section \<open>Properties\<close>

text \<open>The request that creates the task of a job.\<close>

definition creation_request :: "job \<Rightarrow> (string \<times> string) option \<Rightarrow> wire_request" where
  "creation_request job upload =
     (if jSourceType job = SourceTypeTorrent
      then \<lparr>wqMethod = ''POST'', wqTarget = ''/api/torrents/createtorrent'', wqFile = upload,
            wqFields = torrent_fields (torrent_request job)\<rparr>
      else \<lparr>wqMethod = ''POST'', wqTarget = ''/api/usenet/createusenetdownload'', wqFile = upload,
            wqFields = usenet_fields (usenet_request job)\<rparr>)"

lemma create_task_http:
  assumes "jSourceType job \<in> {SourceTypeTorrent, SourceTypeNZB}" and "attachFile (c 0) (deref (jPayloadRef job)) = Inr upload"
  shows "create_task orc (http_client_of c) job =
    (case exchange (c 0) (creation_request job upload) of
       Inl e \<Rightarrow> Inl e | Inr env \<Rightarrow> map_sum (\<lambda>e. e) Some (parseCreateTask (apReader (c 0)) env))"
  using assms
  by (auto simp: create_task_def http_client_of_def http_CreateTorrentTask_def http_CreateUsenetTask_def create_via_def
      creation_request_def torrent_request_def usenet_request_def)

text \<open>
  C35. From the answer of the service to the state of the job: when the request that creates the task
  of a job is answered with 429 or a 5xx status, or times out, the job is scheduled for a retry with
  one more on its counter; when it is answered with any other status from 400 on, the job has failed
  remotely and is not scheduled again.
\<close>

theorem http_status_decides_retry:
  assumes "library_errors (c 0)" and "jSourceType job \<in> {SourceTypeTorrent, SourceTypeNZB}"
    and "attachFile (c 0) (deref (jPayloadRef job)) = Inr upload"
    and "apNewRequest (c 0) (wqTarget (creation_request job upload)) = nil"
    and "transient (apSend (c 0) (creation_request job upload)) \<or>
      (\<exists>code raw. apSend (c 0) (creation_request job upload) = Answer code raw \<and> 400 \<le> code)"
    and "processSubmitJob orc (http_client_of c) now r st job = (nil, st')"
  shows "\<exists>row. GetJobByID st' (jID job) = Some row \<and>
    (if transient (apSend (c 0) (creation_request job upload))
     then jState row = StateSubmitRetry \<and> jRetryCount row = jRetryCount job + 1 \<and>
          jNextRunAt row = Some (now + submitBackoff orc r (jRetryCount job + 1))
     else jState row = StateRemoteFailed \<and> jNextRunAt row = None)"
proof -
  let ?req = "creation_request job upload"
  obtain e where e: "exchange (c 0) ?req = Inl e" using exchange_fails [OF assms(4)] exchange_refused [OF assms(4)] assms(5) by blast
  note cl = exchange_retryable [OF assms(1) e]
  have "create_task orc (http_client_of c) job = Inl e" using create_task_http [of job c upload, OF assms(2,3)] e by simp
  then have "handleSubmitFailure orc now r st job e = (nil, st')" using assms(6) by (simp add: processSubmitJob_def)
  from handleSubmitFailure_row [OF this refl refl] obtain row where
    "GetJobByID st' (jID job) = Some row" "failed_row orc now r job e row" by blast
  with cl assms(4) show ?thesis by (auto simp: failed_row_def IsRetryable_def)
qed

definition sample_reader :: reader where
  "sample_reader = \<lparr>rdFormat = (\<lambda>_. ''?''), rdParseFloat = (\<lambda>_. None)\<rparr>"

definition sample_api :: "(wire_request \<Rightarrow> wire_outcome) \<Rightarrow> (string \<Rightarrow> go_error + envelope) \<Rightarrow> api_client" where
  "sample_api send decode =
     \<lparr>apToken = ''t'', apReader = sample_reader, apDecode = decode, apQuote = (\<lambda>s. s), apNewRequest = (\<lambda>_. nil),
      apSend = send, apReadFile = (\<lambda>_. Inr ''x'')\<rparr>"

theorem http_status_decides_retry_witness:
  "\<exists>st' row. snd (processSubmitJob sample_orc (http_client_of (\<lambda>_. sample_api (\<lambda>_. Answer 503 ''busy'') (\<lambda>_. Inl (ErrText ''eof'')))) 0 0
       (sample_store StateSubmitPending) (sample_job StateSubmitPending)) = st' \<and>
     GetJobByID st' ''0a1b'' = Some row \<and> jState row = StateSubmitRetry"
proof -
  let ?c = "\<lambda>_ :: nat. sample_api (\<lambda>_. Answer 503 ''busy'') (\<lambda>_. Inl (ErrText ''eof''))"
  let ?job = "sample_job StateSubmitPending"
  let ?run = "processSubmitJob sample_orc (http_client_of ?c) 0 0 (sample_store StateSubmitPending) ?job"
  have "fst ?run = nil" by code_simp
  then have run: "?run = (nil, snd ?run)" by (metis prod.collapse)
  have lib: "library_errors (?c 0)" by (auto simp: library_errors_def sample_api_def)
  have src: "jSourceType ?job \<in> {SourceTypeTorrent, SourceTypeNZB}" by simp
  have payload: "attachFile (?c 0) (deref (jPayloadRef ?job)) = Inr None" by (simp add: attachFile_def)
  have new: "apNewRequest (?c 0) t = nil" and send: "apSend (?c 0) q = Answer 503 ''busy''" for t q
    by (simp_all add: sample_api_def)
  have tr: "transient (apSend (?c 0) q)" for q by (simp add: send transient_def)
  from http_status_decides_retry [OF lib src payload new _ run] tr show ?thesis by auto
qed

section \<open>Finding a task\<close>

lemma find_first: "find P xs = Some x \<longleftrightarrow> (\<exists>us vs. xs = us @ x # vs \<and> P x \<and> (\<forall>u\<in>set us. \<not> P u))"
proof (induction xs)
  case (Cons a xs)
  show ?case
  proof (cases "P a")
    case True
    then show ?thesis by (auto simp: Cons_eq_append_conv)
  next
    case False
    with Cons show ?thesis by (auto simp: Cons_eq_append_conv) (metis append_Cons set_ConsD)
  qed
qed simp


text \<open>A list of one item that has failed text but is there: found by its hash, ready, not failed.\<close>

definition sample_item :: json_object where
  "sample_item = [(''id'', JNumber (12, 0)), (''hash'', JString ''abc''), (''download_state'', JString ''Failed''),
     (''download_present'', JBool True), (''files'', JArray [JObject [(''id'', JNumber (3, 0)), (''short_name'', JString ''a.mkv''),
       (''size'', JNumber (10, 0))], JNull])]"

definition sample_answering :: "json \<Rightarrow> api_client" where
  "sample_answering v = sample_api (\<lambda>_. Answer 200 ''{}'')
     (\<lambda>_. Inr \<lparr>evSuccess = True, evError = None, evDetail = [], evData = Some v\<rparr>)"


text \<open>
  The jobs of the SABnzbd side have the source type \<open>nzb\<close>, while the comparisons ask for \<open>usenet\<close>:
  an NZB task that is known by its authentication identifier only is never found.
\<close>

lemma nzb_auth_id_ignored: "http_FindActiveTask c (source_text SourceTypeNZB) [] queueAuthID [] \<noteq> Inr (Some s)"
proof -
  have "\<not> task_matches rd ''nzb'' [] a [] item" for rd a item
    by (simp add: task_matches_def Let_def EqualFold_def ToLower_def ascii_lower_def)
  then have "find (task_matches rd ''nzb'' [] a []) items = None" for rd a items by (simp add: find_eq_None_iff)
  then show ?thesis by (simp add: http_FindActiveTask_def split: sum.split)
qed

text \<open>
  An item of the queue that has only the generic \<open>id\<close> is read as having that very identifier as
  its identifier in the task list, too.
\<close>

lemma queued_item_takes_own_id:
  assumes "field item ''queued_id'' = None" and "field item ''queue_id'' = None"
    and "list_all (\<lambda>k. field item k = None) (active_id_keys sourceType)"
  shows "tsRemoteID (parseTaskStatus rd sourceType item) = extractQueuedID rd item"
proof -
  have "firstString rd item (ks @ [''id'']) = firstString rd item [''id'']" if "list_all (\<lambda>k. field item k = None) ks" for ks
    using that by (induction ks) simp_all
  from this [OF assms(3)] assms(1,2) show ?thesis
    by (simp add: parseTaskStatus_def Let_def extractActiveID_def extractQueuedID_def split: prod.split)
qed

section \<open>Links\<close>

definition linked :: "api_client \<Rightarrow> string \<Rightarrow> string \<Rightarrow> remote_file \<Rightarrow> download_asset \<Rightarrow> bool" where
  "linked c sourceType remoteID f a \<longleftrightarrow>
     daFileID a = rfFileID f \<and> daSize a = rfSize f \<and> daRelativePath a = asset_path f \<and>
     requestDownloadLink c sourceType remoteID (rfFileID f) False = Inr (daURL a)"

lemma link_files_all: "link_files c t i fs = Inr assets \<Longrightarrow> list_all2 (linked c t i) fs assets"
  by (induction c t i fs arbitrary: assets rule: link_files.induct) (auto simp: linked_def split: sum.splits)

text \<open>
  C37. The links cover the task: when they are resolved, there is one asset per file of the first item,
  in order, each with the file's identifier and size and the link that was requested for it; only a
  task without files is one archive. An error of any request is the error of the whole.
\<close>

theorem links_cover_files:
  assumes "http_GetDownloadLinks c sourceType remoteID = Inr assets"
  shows "remoteID \<noteq> [] \<and> (\<exists>item rest. getRemoteItems c sourceType remoteID = Inr (item # rest) \<and>
    (if extractRemoteFiles (apReader c) item = []
     then \<exists>link. requestDownloadLink c sourceType remoteID [] True = Inr link \<and>
       assets = [\<lparr>daFileID = [], daURL = link, daRelativePath = ''payload.zip'', daSize = 0\<rparr>]
     else list_all2 (linked c sourceType remoteID) (extractRemoteFiles (apReader c) item) assets))"
proof -
  have i: "remoteID \<noteq> []" using assms by (auto simp: http_GetDownloadLinks_def RequireRemoteID_def)
  then obtain item rest where items: "getRemoteItems c sourceType remoteID = Inr (item # rest)"
    using assms by (auto simp: http_GetDownloadLinks_def RequireRemoteID_def split: sum.splits list.splits)
  have a: "(if extractRemoteFiles (apReader c) item = []
     then \<exists>link. requestDownloadLink c sourceType remoteID [] True = Inr link \<and>
       assets = [\<lparr>daFileID = [], daURL = link, daRelativePath = ''payload.zip'', daSize = 0\<rparr>]
     else list_all2 (linked c sourceType remoteID) (extractRemoteFiles (apReader c) item) assets)"
    using assms i items
    by (auto simp: http_GetDownloadLinks_def RequireRemoteID_def Let_def link_files_all split: if_splits sum.splits)
  show ?thesis by (intro conjI i exI, rule items, rule a)
qed

definition sample_linking :: api_client where
  "sample_linking = sample_api
     (\<lambda>q. if prefix ''/api/torrents/mylist'' (wqTarget q) then Answer 200 ''i'' else Answer 200 ''l'')
     (\<lambda>s. Inr \<lparr>evSuccess = True, evError = None, evDetail = [],
        evData = Some (if s = ''i'' then JObject sample_item else JString ''http://cdn/a'')\<rparr>)"

theorem links_cover_files_witness:
  "\<exists>assets. http_GetDownloadLinks sample_linking ''torrent'' ''12'' = Inr assets \<and>
    length assets = 1 \<and> map daRelativePath assets = [''a.mkv'']"
proof -
  have "map_option (map daRelativePath) (case http_GetDownloadLinks sample_linking ''torrent'' ''12'' of Inl _ \<Rightarrow> None | Inr a \<Rightarrow> Some a) = Some [''a.mkv'']"
    by code_simp
  then obtain assets where r: "http_GetDownloadLinks sample_linking ''torrent'' ''12'' = Inr assets" "map daRelativePath assets = [''a.mkv'']"
    by (auto split: sum.splits)
  have items: "getRemoteItems sample_linking ''torrent'' ''12'' = Inr [sample_item]" by code_simp
  have "length (extractRemoteFiles (apReader sample_linking) sample_item) = 1" by code_simp
  moreover from this have "extractRemoteFiles (apReader sample_linking) sample_item \<noteq> []"
    by (metis length_0_conv zero_neq_one)
  then have "list_all2 (linked sample_linking ''torrent'' ''12'') (extractRemoteFiles (apReader sample_linking) sample_item) assets"
  proof -
    assume ne: "extractRemoteFiles (apReader sample_linking) sample_item \<noteq> []"
    from links_cover_files [OF r(1)] obtain item rest where
      i: "getRemoteItems sample_linking ''torrent'' ''12'' = Inr (item # rest)" and
      l: "extractRemoteFiles (apReader sample_linking) item \<noteq> [] \<Longrightarrow>
        list_all2 (linked sample_linking ''torrent'' ''12'') (extractRemoteFiles (apReader sample_linking) item) assets"
      by (metis (full_types))
    have "item = sample_item" using i items by simp
    with l ne show ?thesis by blast
  qed
  ultimately have len: "length assets = 1" by (metis list_all2_lengthD)
  show ?thesis by (intro exI [of _ assets] conjI) (rule r(1), rule len, rule r(2))
qed

end
