(* ===== verification/Compat.thy ===== *)
theory Compat
  imports Complex_Main Job_Model Go_Path
begin

text \<open>
  The projections of a job to what the clients read: a torrent of qBittorrent
  (\<open>internal/compat/qbit.go\<close>), a slot of the queue or the history of SABnzbd
  (\<open>internal/compat/sab.go\<close>). Ratios are rational numbers here; the program rounds them to
  float64, which may move the last digit of a ratio and, for sizes beyond \<open>2^46\<close> bytes, of a
  number of megabytes. \<open>QBitMainData\<close> is a type that nothing uses.
\<close>

section \<open>Bytes and rates\<close>

text \<open>\<open>Time.Sub\<close> saturates at the range of a duration.\<close>

definition time_sub :: "time \<Rightarrow> time \<Rightarrow> int" where
  "time_sub a b = max (- (2 ^ 63)) (min (2 ^ 63 - 1) (a - b))"

text \<open>Done and total bytes, in this order.\<close>

definition projectLocalTransferBytes :: "job \<Rightarrow> int \<times> int" where
  "projectLocalTransferBytes job =
     (if jState job \<in> {StateLocalDownloading, StateLocalVerify, StateCompleted, StateRemovePending, StateFailed}
      then (max (jBytesDone job) 0, max (jBytesTotal job) 0)
      else (0, 0))"

definition localTransferStartedAt :: "job \<Rightarrow> time option" where
  "localTransferStartedAt job =
     (case jLocalDownloadStartedAt job of
        Some t \<Rightarrow> Some t
      | None \<Rightarrow> if jState job \<noteq> StateLocalDownloading then None else Some (jCreatedAt job))"

definition localTransferRate :: "job \<Rightarrow> rat" where
  "localTransferRate job =
     (if jState job \<noteq> StateLocalDownloading then 0
      else let bytes_done = fst (projectLocalTransferBytes job) in
        if bytes_done \<le> 0 then 0
        else case localTransferStartedAt job of
          None \<Rightarrow> 0
        | Some startedAt \<Rightarrow>
            let elapsed = time_sub (jUpdatedAt job) startedAt in
            if elapsed \<le> 0 then 0 else of_int bytes_done / (of_int elapsed / of_int second))"

definition localTransferETA :: "job \<Rightarrow> int" where
  "localTransferETA job =
     (if jState job \<noteq> StateLocalDownloading then 0
      else case projectLocalTransferBytes job of (bytes_done, bytes_total) \<Rightarrow>
        if bytes_done \<le> 0 \<or> bytes_total \<le> bytes_done then 0
        else let rate = localTransferRate job in
          if rate \<le> 0 then 0 else \<lceil>of_int (bytes_total - bytes_done) / rate\<rceil>)"

definition clamp :: "rat \<Rightarrow> rat" where
  "clamp v = (if v < 0 then 0 else if 1 < v then 1 else v)"

section \<open>qBittorrent\<close>

record qbit_category =
  qcName :: string
  qcSavePath :: string

record qbit_transfer_info =
  qtConnectionStatus :: string
  qtDHTNodes :: int
  qtDLInfoData :: int
  qtDLInfoSpeed :: int
  qtDLRateLimit :: int
  qtUPInfoData :: int
  qtUPInfoSpeed :: int
  qtUPRateLimit :: int

record qbit_torrent_info =
  qiAddedOn :: int
  qiAmountLeft :: int
  qiAutoTMM :: bool
  qiAvailability :: rat
  qiCategory :: string
  qiCompleted :: int
  qiCompletionOn :: int
  qiContentPath :: string
  qiDLSpeed :: int
  qiDownloaded :: int
  qiEta :: int
  qiHash :: string
  qiInfohashV1 :: string
  qiMagnetURI :: string
  qiName :: string
  qiPriority :: int
  qiProgress :: rat
  qiRatio :: rat
  qiRatioLimit :: rat
  qiSeedingTime :: int
  qiSavePath :: string
  qiSize :: int
  qiState :: string
  qiTags :: string
  qiTotalSize :: int
  qiUpspeed :: int

definition ProjectQBitCategory :: "string \<Rightarrow> string \<Rightarrow> qbit_category" where
  "ProjectQBitCategory category savePath = \<lparr>qcName = category, qcSavePath = TrimSpace savePath\<rparr>"

definition qbitDLSpeed :: "job \<Rightarrow> int" where
  "qbitDLSpeed job = (if jState job \<noteq> StateLocalDownloading then 0 else \<lfloor>localTransferRate job\<rfloor>)"

definition qbitETA :: "job \<Rightarrow> int" where
  "qbitETA job = (let seconds = localTransferETA job in if seconds \<le> 0 then 0 else seconds)"

definition ProjectQBitTransferInfo :: "job list \<Rightarrow> qbit_transfer_info" where
  "ProjectQBitTransferInfo jobs =
     \<lparr>qtConnectionStatus = ''connected'', qtDHTNodes = 0,
      qtDLInfoData = foldl (\<lambda>n job. wrap64 (n + fst (projectLocalTransferBytes job))) 0 jobs,
      qtDLInfoSpeed = foldl (\<lambda>n job. wrap64 (n + qbitDLSpeed job)) 0 jobs,
      qtDLRateLimit = 0, qtUPInfoData = 0, qtUPInfoSpeed = 0, qtUPRateLimit = 0\<rparr>"

definition qbitPathsForJob :: "job \<Rightarrow> string \<times> string" where
  "qbitPathsForJob job =
     (case (case jCompletedPath job of
              Some p \<Rightarrow> Some (TrimSpace p)
            | None \<Rightarrow> (case jStagingPath job of Some p \<Rightarrow> Some (TrimSpace p) | None \<Rightarrow> None)) of
        None \<Rightarrow> ([], [])
      | Some contentPath \<Rightarrow>
          let savePath = Dir contentPath in
          (if savePath = ''.'' then [] else savePath, contentPath))"

definition projectQBitProgress :: "job \<Rightarrow> rat" where
  "projectQBitProgress job =
     (case projectLocalTransferBytes job of (bytes_done, bytes_total) \<Rightarrow>
        (case jState job of
           StateLocalDownloading \<Rightarrow> if bytes_total = 0 then 0 else clamp (of_int bytes_done / of_int bytes_total)
         | StateLocalVerify \<Rightarrow> 1
         | StateCompleted \<Rightarrow> 1
         | StateRemovePending \<Rightarrow> 1
         | StateRemoteFailed \<Rightarrow> if 0 < bytes_total \<and> 0 < bytes_done then clamp (of_int bytes_done / of_int bytes_total) else 0
         | StateFailed \<Rightarrow> if 0 < bytes_total \<and> 0 < bytes_done then clamp (of_int bytes_done / of_int bytes_total) else 0
         | _ \<Rightarrow> 0))"

definition projectQBitState :: "job \<Rightarrow> string" where
  "projectQBitState job =
     (case jState job of
        StateAccepted \<Rightarrow> ''queuedDL''
      | StateSubmitPending \<Rightarrow> ''queuedDL''
      | StateSubmitRetry \<Rightarrow> ''queuedDL''
      | StateRemoteQueued \<Rightarrow> ''queuedDL''
      | StateRemoteActive \<Rightarrow> ''queuedDL''
      | StateLocalDownloadPending \<Rightarrow> ''queuedDL''
      | StateLocalDownloading \<Rightarrow> if snd (projectLocalTransferBytes job) \<le> 0 then ''queuedDL'' else ''downloading''
      | StateLocalVerify \<Rightarrow> ''checkingResumeData''
      | StateCompleted \<Rightarrow> ''pausedUP''
      | StateRemovePending \<Rightarrow> ''pausedUP''
      | StateRemoteFailed \<Rightarrow> ''error''
      | StateFailed \<Rightarrow> ''error''
      | StateRemoved \<Rightarrow> ''stoppedDL'')"

definition ProjectQBitTorrent :: "job \<Rightarrow> qbit_torrent_info" where
  "ProjectQBitTorrent job =
     (case projectLocalTransferBytes job of (bytes_done, bytes_total) \<Rightarrow>
      case qbitPathsForJob job of (savePath, contentPath) \<Rightarrow>
      let magnetURI = (case jSourceURI job of
            Some u \<Rightarrow> if HasPrefix (ToLower u) ''magnet:'' then u else [] | None \<Rightarrow> [])
      in \<lparr>qiAddedOn = jCreatedAt job div second,
          qiAmountLeft = max (bytes_total - bytes_done) 0,
          qiAutoTMM = False,
          qiAvailability = 1,
          qiCategory = jCategory job,
          qiCompleted = bytes_done,
          qiCompletionOn = (if jState job = StateCompleted then jUpdatedAt job div second else 0),
          qiContentPath = contentPath,
          qiDLSpeed = qbitDLSpeed job,
          qiDownloaded = bytes_done,
          qiEta = qbitETA job,
          qiHash = jPublicID job,
          qiInfohashV1 = jPublicID job,
          qiMagnetURI = magnetURI,
          qiName = jDisplayName job,
          qiPriority = 0,
          qiProgress = projectQBitProgress job,
          qiRatio = 0,
          qiRatioLimit = 0,
          qiSeedingTime = 0,
          qiSavePath = savePath,
          qiSize = max bytes_total bytes_done,
          qiState = projectQBitState job,
          qiTags = join_with '','' (Tags (jMetadata job)),
          qiTotalSize = max bytes_total bytes_done,
          qiUpspeed = 0\<rparr>)"

section \<open>SABnzbd\<close>

record sab_queue_slot =
  sqNzoID :: string
  sqFilename :: string
  sqCat :: string
  sqMB :: string
  sqMBLeft :: string
  sqPercentage :: int
  sqStatus :: string
  sqTimeLeft :: string
  sqPriority :: string
  sqPP :: string
  sqScript :: string

record sab_queue =
  sbVersion :: string
  sbPaused :: bool
  sbNoOfSlots :: string
  sbStart :: int
  sbLimit :: int
  sbFinish :: int
  sbSlots :: "sab_queue_slot list"
  sbStatus :: string

record sab_history_slot =
  shNzoID :: string
  shName :: string
  shCategory :: string
  shStatus :: string
  shFailMessage :: string
  shPath :: string
  shStorage :: string
  shCompleted :: int
  shDownloaded :: int
  shSize :: string

record sab_history =
  hbVersion :: string
  hbNoOfSlots :: string
  hbSlots :: "sab_history_slot list"

definition SABNZOID :: "string \<Rightarrow> string" where
  "SABNZOID publicID = ''TBOX-'' @ publicID"

definition NormalizeSABNZOID :: "string \<Rightarrow> string" where
  "NormalizeSABNZOID v = (if prefix ''TBOX-'' v then drop 5 v else v)"

text \<open>\<open>math.Round\<close>: halves away from zero. A number of megabytes is kept in hundredths.\<close>

definition Round :: "rat \<Rightarrow> int" where
  "Round x = (if 0 \<le> x then \<lfloor>x + 1 / 2\<rfloor> else - \<lfloor>1 / 2 - x\<rfloor>)"

definition bytesToMB :: "int \<Rightarrow> int" where
  "bytesToMB v = Round (of_int v / (1024 * 1024) * 100)"

text \<open>The verb \<open>%.2f\<close> for a number of hundredths.\<close>

definition hundredths :: "int \<Rightarrow> string" where
  "hundredths n =
     (if n < 0 then ''-'' else []) @ digits_of (\<bar>n\<bar> div 100) @ ''.'' @ pad_digits 2 (\<bar>n\<bar> mod 100)"

definition percent :: "int \<Rightarrow> int \<Rightarrow> int" where
  "percent bytes_done bytes_total =
     (if bytes_total \<le> 0 then 0
      else let p = of_int bytes_done / of_int bytes_total * 100 :: rat in
        if p < 0 then 0 else if 100 < p then 100 else Round p)"

definition isSABQueueState :: "job_state \<Rightarrow> bool" where
  "isSABQueueState s \<longleftrightarrow> s \<in> {StateAccepted, StateSubmitPending, StateSubmitRetry, StateRemoteQueued, StateRemoteActive,
     StateLocalDownloadPending, StateLocalDownloading, StateLocalVerify}"

definition isSABHistoryState :: "job_state \<Rightarrow> bool" where
  "isSABHistoryState s \<longleftrightarrow> s \<in> {StateCompleted, StateRemovePending, StateRemoteFailed, StateFailed}"

definition projectSABQueueStatus :: "job \<Rightarrow> int \<Rightarrow> string" where
  "projectSABQueueStatus job bytes_total =
     (case jState job of
        StateLocalDownloading \<Rightarrow> if bytes_total \<le> 0 then ''Queued'' else ''Downloading''
      | StateLocalVerify \<Rightarrow> ''Moving''
      | _ \<Rightarrow> ''Queued'')"

definition projectSABHistoryStatus :: "job_state \<Rightarrow> string" where
  "projectSABHistoryStatus s = (if s = StateCompleted \<or> s = StateRemovePending then ''Completed'' else ''Failed'')"

definition projectSABPP :: "int \<Rightarrow> string" where
  "projectSABPP v = (if v = 0 then ''0'' else if v = 1 then ''R'' else if v = 2 then ''U'' else ''D'')"

definition projectSABTimeLeft :: "job \<Rightarrow> string" where
  "projectSABTimeLeft job =
     (let seconds = localTransferETA job in
      if seconds \<le> 0 then ''0:00:00''
      else itoa (seconds div 3600) @ '':'' @ pad_digits 2 (seconds mod 3600 div 60) @ '':'' @ pad_digits 2 (seconds mod 60))"

definition ProjectSABQueueSlot :: "job \<Rightarrow> sab_queue_slot" where
  "ProjectSABQueueSlot job =
     (case projectLocalTransferBytes job of (bytes_done, bytes_total) \<Rightarrow>
        \<lparr>sqNzoID = SABNZOID (jPublicID job), sqFilename = jDisplayName job, sqCat = jCategory job,
         sqMB = hundredths (bytesToMB bytes_total), sqMBLeft = hundredths (bytesToMB (max (bytes_total - bytes_done) 0)),
         sqPercentage = percent bytes_done bytes_total, sqStatus = projectSABQueueStatus job bytes_total,
         sqTimeLeft = projectSABTimeLeft job, sqPriority = ''Normal'',
         sqPP = projectSABPP (PostProcessing (jMetadata job)), sqScript = ''None''\<rparr>)"

definition ProjectSABHistorySlot :: "job \<Rightarrow> sab_history_slot" where
  "ProjectSABHistorySlot job =
     \<lparr>shNzoID = SABNZOID (jPublicID job), shName = jDisplayName job, shCategory = jCategory job,
      shStatus = projectSABHistoryStatus (jState job), shFailMessage = deref (jErrorMessage job),
      shPath = deref (jStagingPath job), shStorage = deref (jCompletedPath job),
      shCompleted = jUpdatedAt job div second, shDownloaded = jBytesDone job,
      shSize = hundredths (bytesToMB (max (jBytesTotal job) (jBytesDone job))) @ '' MB''\<rparr>"

definition ProjectSABQueue :: "string \<Rightarrow> job list \<Rightarrow> sab_queue" where
  "ProjectSABQueue version jobs =
     (let slots = map ProjectSABQueueSlot (filter (\<lambda>job. isSABQueueState (jState job)) jobs);
          status = (if list_ex (\<lambda>slot. sqStatus slot = ''Downloading'') slots then ''Downloading'' else ''Idle'')
      in \<lparr>sbVersion = version, sbPaused = False, sbNoOfSlots = itoa (int (length slots)), sbStart = 0,
          sbLimit = int (length slots), sbFinish = int (length slots), sbSlots = slots, sbStatus = status\<rparr>)"

definition ProjectSABHistory :: "string \<Rightarrow> job list \<Rightarrow> sab_history" where
  "ProjectSABHistory version jobs =
     (let slots = map ProjectSABHistorySlot (filter (\<lambda>job. isSABHistoryState (jState job)) jobs)
      in \<lparr>hbVersion = version, hbNoOfSlots = itoa (int (length slots)), hbSlots = slots\<rparr>)"

end
