(* ===== verification/Compat_Facts.thy ===== *)
theory Compat_Facts
  imports Compat
begin

text \<open>
  What the clients can rely on in the projections of a job (theory \<open>Compat\<close>).
\<close>

section \<open>Ranges\<close>

definition qbit_states :: "string list" where
  "qbit_states = [''queuedDL'', ''downloading'', ''checkingResumeData'', ''pausedUP'', ''error'', ''stoppedDL'']"

lemma bytes_nonneg: "0 \<le> fst (projectLocalTransferBytes job)" "0 \<le> snd (projectLocalTransferBytes job)"
  by (simp_all add: projectLocalTransferBytes_def)

lemma projectQBitState_known: "projectQBitState job \<in> set qbit_states"
  by (cases "jState job") (simp_all add: projectQBitState_def qbit_states_def)

lemma clamp_range: "0 \<le> clamp v" "clamp v \<le> 1"
  by (simp_all add: clamp_def)

lemma progress_range: "0 \<le> projectQBitProgress job" "projectQBitProgress job \<le> 1"
  using bytes_nonneg [of job]
  by (auto simp: projectQBitProgress_def clamp_range split: prod.split job_state.split)

lemma Round_nonneg: "0 \<le> x \<Longrightarrow> 0 \<le> Round x"
  by (simp add: Round_def)

lemma Round_le: "0 \<le> x \<Longrightarrow> x \<le> of_int n \<Longrightarrow> Round x \<le> n"
proof -
  assume "0 \<le> x" and "x \<le> of_int n"
  then have "\<lfloor>x + 1 / 2\<rfloor> \<le> n" by (simp add: floor_le_iff)
  with \<open>0 \<le> x\<close> show ?thesis by (simp add: Round_def)
qed

lemma Round_of_int: "0 \<le> n \<Longrightarrow> Round (of_int n) = n"
proof -
  assume "0 \<le> n"
  moreover have "\<lfloor>of_int n + 1 / 2 :: rat\<rfloor> = n" by (rule floor_unique) simp_all
  ultimately show ?thesis by (simp add: Round_def)
qed

lemma Round_0: "Round 0 = 0" and Round_100: "Round 100 = 100"
  using Round_of_int [of 0] Round_of_int [of 100] by simp_all

lemma percent_range: "0 \<le> percent d n" "percent d n \<le> 100"
  using Round_nonneg Round_le [of _ 100] by (auto simp: percent_def Let_def not_less)

lemma rate_nonneg: "0 \<le> localTransferRate job"
  by (auto simp: localTransferRate_def Let_def split: option.split)

lemma percent_progress:
  assumes "0 \<le> d" and "0 \<le> n"
  shows "percent d n = Round (100 * (if n = 0 then 0 else clamp (of_int d / of_int n)))"
proof (cases "n = 0")
  case True
  then show ?thesis by (simp add: percent_def Round_0)
next
  case False
  define x :: rat where "x = of_int d / of_int n"
  have x: "0 \<le> x" using assms by (simp add: x_def)
  have c: "clamp x = (if 1 < x then 1 else x)" using x by (simp add: clamp_def)
  have "percent d n = (if 100 < x * 100 then 100 else Round (x * 100))"
    using False assms x by (simp only: percent_def Let_def flip: x_def) simp
  also have "\<dots> = Round (100 * clamp x)" unfolding c by (simp add: Round_100 mult.commute)
  finally show ?thesis using False by (simp only: x_def) simp
qed


definition sample_transfer :: job where
  "sample_transfer = zero_job\<lparr>jState := StateLocalDownloading, jBytesDone := 1, jBytesTotal := 3, jUpdatedAt := 2 * second\<rparr>"


section \<open>The two lists of SABnzbd\<close>

text \<open>Every job that has not been removed is in exactly one of the queue and the history.\<close>

lemma sab_partition: "jState job \<noteq> StateRemoved \<longleftrightarrow> isSABQueueState (jState job) \<noteq> isSABHistoryState (jState job)"
  by (cases "jState job") (simp_all add: isSABQueueState_def isSABHistoryState_def)

lemma nzo_id_round_trip [simp]: "NormalizeSABNZOID (SABNZOID i) = i"
  by (simp add: NormalizeSABNZOID_def SABNZOID_def)

lemma queue_ids: "map sqNzoID (sbSlots (ProjectSABQueue v jobs)) = map (\<lambda>j. SABNZOID (jPublicID j)) (filter (\<lambda>j. isSABQueueState (jState j)) jobs)"
  by (simp add: ProjectSABQueue_def Let_def ProjectSABQueueSlot_def split: prod.split)

lemma history_ids: "map shNzoID (hbSlots (ProjectSABHistory v jobs)) = map (\<lambda>j. SABNZOID (jPublicID j)) (filter (\<lambda>j. isSABHistoryState (jState j)) jobs)"
  by (simp add: ProjectSABHistory_def Let_def ProjectSABHistorySlot_def)

end
