(* ===== verification/Go_Unquote.thy ===== *)
theory Go_Unquote
  imports Layout Codec
begin

text \<open>
  Go's \<open>strconv.Unquote\<close> for an interpreted string literal, which the configuration uses for
  values in double quotes, with the UTF-8 encoding of a code point that its escapes need.
\<close>

section \<open>UTF-8\<close>

text \<open>The length of the code point at the front, or 0 if the bytes there are not one.\<close>

definition rune_length :: "string \<Rightarrow> nat" where
  "rune_length s = (case find (\<lambda>k. k \<le> length s \<and> ValidString (take k s)) [1, 2, 3, 4] of Some k \<Rightarrow> k | None \<Rightarrow> 0)"

definition ValidRune :: "nat \<Rightarrow> bool" where
  "ValidRune r \<longleftrightarrow> r < 0xD800 \<or> 0xDFFF < r \<and> r \<le> 0x10FFFF"

definition encode_rune :: "nat \<Rightarrow> string" where
  "encode_rune r = map char_of
     (if r < 0x80 then [r]
      else if r < 0x800 then [0xC0 + r div 64, 0x80 + r mod 64]
      else if r < 0x10000 then [0xE0 + r div 4096, 0x80 + r div 64 mod 64, 0x80 + r mod 64]
      else [0xF0 + r div 262144, 0x80 + r div 4096 mod 64, 0x80 + r div 64 mod 64, 0x80 + r mod 64])"

definition rune_error :: string where
  "rune_error = encode_rune 0xFFFD"

section \<open>Escapes\<close>

definition simple_escapes :: "(char \<times> nat) list" where
  "simple_escapes = [(CHR ''a'', 7), (CHR ''b'', 8), (CHR ''f'', 12), (CHR ''n'', 10), (CHR ''r'', 13), (CHR ''t'', 9),
     (CHR ''v'', 11), (CHR 0x5C, 0x5C), (CHR 0x22, 0x22)]"

text \<open>A number of exactly \<open>n\<close> digits in a base, and the rest of the text.\<close>

fun read_digits :: "(char \<Rightarrow> nat option) \<Rightarrow> nat \<Rightarrow> nat \<Rightarrow> nat \<Rightarrow> string \<Rightarrow> (nat \<times> string) option" where
  "read_digits value base 0 acc s = Some (acc, s)"
| "read_digits value base (Suc n) acc [] = None"
| "read_digits value base (Suc n) acc (c # s) =
     (case value c of None \<Rightarrow> None | Some d \<Rightarrow> read_digits value base n (acc * base + d) s)"

definition octal_value :: "char \<Rightarrow> nat option" where
  "octal_value c = (let n = byte c in if 48 \<le> n \<and> n \<le> 55 then Some (n - 48) else None)"

text \<open>\<open>strconv.UnquoteChar\<close> with the quote \<open>"\<close>: the bytes of one character, and the rest.\<close>

definition unquote_char :: "string \<Rightarrow> (string \<times> string) option" where
  "unquote_char s =
     (case s of
        [] \<Rightarrow> None
      | c # rest \<Rightarrow>
          if c = CHR 0x22 then None
          else if 0x80 \<le> byte c then
            (let k = rune_length s in if k = 0 then Some (rune_error, rest) else Some (take k s, drop k s))
          else if c \<noteq> CHR 0x5C then Some ([c], rest)
          else case rest of
            [] \<Rightarrow> None
          | e # tail \<Rightarrow>
              (case map_of simple_escapes e of
                 Some n \<Rightarrow> Some ([char_of n], tail)
               | None \<Rightarrow>
                   if e = CHR ''x'' then
                     map_option (\<lambda>(v, t). ([char_of v], t)) (read_digits hex_value 16 2 0 tail)
                   else if e = CHR ''u'' \<or> e = CHR ''U'' then
                     (case read_digits hex_value 16 (if e = CHR ''u'' then 4 else 8) 0 tail of
                        None \<Rightarrow> None
                      | Some (v, t) \<Rightarrow> if ValidRune v then Some (encode_rune v, t) else None)
                   else if octal_value e \<noteq> None then
                     (case read_digits octal_value 8 3 0 rest of
                        None \<Rightarrow> None
                      | Some (v, t) \<Rightarrow> if 255 < v then None else Some ([char_of v], t))
                   else None))"

lemma read_digits_shorter: "read_digits f b n acc s = Some (v, t) \<Longrightarrow> length t + n = length s"
  by (induction f b n acc s rule: read_digits.induct) (auto split: option.splits)

lemma rune_length_le: "rune_length s \<le> length s"
  by (auto simp: rune_length_def find_Some_iff split: option.split)

lemma unquote_char_shorter:
  assumes "unquote_char s = Some (out, rest)"
  shows "length rest < length s"
proof (cases s)
  case Nil
  with assms show ?thesis by (simp add: unquote_char_def)
next
  case (Cons c tail)
  with assms show ?thesis
    by (auto simp: unquote_char_def Let_def rune_length_le dest!: read_digits_shorter
        split: if_splits list.splits option.splits)
qed

section \<open>Literals\<close>

text \<open>The characters up to the closing quote, which must be the last byte.\<close>

function unquote_body :: "string \<Rightarrow> string option" where
  "unquote_body s =
     (if s = [CHR 0x22] then Some []
      else if s = [] \<or> hd s = CHR 0x0A then None
      else case unquote_char s of
        None \<Rightarrow> None
      | Some (out, rest) \<Rightarrow> map_option (append out) (unquote_body rest))"
  by pat_completeness auto
termination
  by (relation "measure length") (auto simp: unquote_char_shorter)

declare unquote_body.simps [simp del]

definition Unquote :: "string \<Rightarrow> string option" where
  "Unquote s = (case s of [] \<Rightarrow> None | c # rest \<Rightarrow> if c = CHR 0x22 then unquote_body rest else None)"

end
