(* ===== verification/Config.thy ===== *)
theory Config
  imports Go_Unquote Go_Time Go_Url
begin

text \<open>
  The configuration (\<open>internal/config/config.go\<close>): the defaults, the settings that come from the
  environment, the file \<open>.env\<close> that fills in what the environment does not set, the derived
  paths, and the validation. The environment is an association list; a duration is a number of
  nanoseconds.
\<close>

section \<open>Settings\<close>

record config =
  cgServerAddress :: string
  cgServerBaseURL :: string
  cgLoggingLevel :: string
  cgDatabasePath :: string
  cgBusyTimeout :: int
  cgDataRoot :: string
  cgStaging :: string
  cgCompleted :: string
  cgPayloads :: string
  cgTorBoxBaseURL :: string
  cgAPIToken :: string
  cgRequestTimeout :: int
  cgDownloadTimeout :: int
  cgCreatePerHour :: int
  cgPollPerMinute :: int
  cgDownloadLinkPerMinute :: int
  cgUserAgent :: string
  cgQBitUsername :: string
  cgQBitPassword :: string
  cgSABAPIKey :: string
  cgSABNZBKey :: string
  cgSessionTTL :: int
  cgQBitVersion :: string
  cgQBitWebAPI :: string
  cgSABVersion :: string
  cgDefaultCategory :: string
  cgSubmitInterval :: int
  cgPollInterval :: int
  cgDownloadInterval :: int
  cgFinalizeInterval :: int
  cgRemoveInterval :: int
  cgPruneInterval :: int
  cgSubmitRetryMin :: int
  cgSubmitRetryMax :: int
  cgRemovedRetention :: int
  cgBatchSize :: int

definition defaultDataRoot :: string where "defaultDataRoot = ''/data''"

definition defaultDatabasePath :: string where "defaultDatabasePath = ''/config/torboxarr.db''"

definition defaultQBitUser :: string where "defaultQBitUser = ''admin''"

definition defaultServerAddr :: string where "defaultServerAddr = '':8085''"

definition minute :: int where "minute = 60 * second"

definition hour :: int where "hour = 60 * minute"

text \<open>A setting, or its default when it is blank.\<close>

definition or_default :: "string \<Rightarrow> string \<Rightarrow> string" where
  "or_default v d = (if TrimSpace v = [] then d else TrimSpace v)"

definition applyDerived :: "config \<Rightarrow> config" where
  "applyDerived c =
     (let root = or_default (cgDataRoot c) defaultDataRoot;
          dbPath = or_default (cgDatabasePath c) defaultDatabasePath;
          c = c\<lparr>cgDataRoot := root, cgDatabasePath := dbPath, cgStaging := Join [root, ''staging''],
                cgCompleted := Join [root, ''completed''], cgPayloads := Join [root, ''payloads'']\<rparr>;
          c = (if TrimSpace (cgQBitUsername c) = [] then c\<lparr>cgQBitUsername := defaultQBitUser\<rparr> else c)
      in if TrimSpace (cgSABNZBKey c) = [] then c\<lparr>cgSABNZBKey := cgSABAPIKey c\<rparr> else c)"

definition defaultConfig :: config where
  "defaultConfig = applyDerived
     \<lparr>cgServerAddress = defaultServerAddr, cgServerBaseURL = ''http://localhost:8085'', cgLoggingLevel = ''INFO'',
      cgDatabasePath = defaultDatabasePath, cgBusyTimeout = 5 * second, cgDataRoot = defaultDataRoot,
      cgStaging = [], cgCompleted = [], cgPayloads = [],
      cgTorBoxBaseURL = ''https://api.torbox.app/v1'', cgAPIToken = [], cgRequestTimeout = 45 * second,
      cgDownloadTimeout = 0, cgCreatePerHour = 60, cgPollPerMinute = 300, cgDownloadLinkPerMinute = 300,
      cgUserAgent = ''torboxarr/1.0'', cgQBitUsername = defaultQBitUser, cgQBitPassword = [],
      cgSABAPIKey = [], cgSABNZBKey = [], cgSessionTTL = 24 * hour,
      cgQBitVersion = ''5.0.0'', cgQBitWebAPI = ''2.11.3'', cgSABVersion = ''4.5.1'', cgDefaultCategory = ''torboxarr'',
      cgSubmitInterval = 5 * second, cgPollInterval = 30 * second, cgDownloadInterval = 5 * second,
      cgFinalizeInterval = 3 * second, cgRemoveInterval = 5 * second, cgPruneInterval = 12 * hour,
      cgSubmitRetryMin = 15 * second, cgSubmitRetryMax = 15 * minute, cgRemovedRetention = 30 * 24 * hour,
      cgBatchSize = 25\<rparr>"

section \<open>The environment\<close>

type_synonym environment = "(string \<times> string) list"

definition Getenv :: "environment \<Rightarrow> string \<Rightarrow> string" where
  "Getenv env key = (case map_of env key of Some v \<Rightarrow> v | None \<Rightarrow> [])"

text \<open>\<open>os.Setenv\<close> refuses a name that is empty or has an equals sign, and NUL bytes.\<close>

definition Setenv :: "environment \<Rightarrow> string \<Rightarrow> string \<Rightarrow> err \<times> environment" where
  "Setenv env key v =
     (if key = [] \<or> CHR ''='' \<in> set key \<or> CHR 0x00 \<in> set key \<or> CHR 0x00 \<in> set v
      then (Some (ErrText ''setenv: invalid argument''), env)
      else (nil, (key, v) # filter (\<lambda>kv. fst kv \<noteq> key) env))"

definition setString :: "environment \<Rightarrow> string \<Rightarrow> string \<Rightarrow> string" where
  "setString env key old = or_default (Getenv env key) old"

definition applyEnv :: "environment \<Rightarrow> config \<Rightarrow> config" where
  "applyEnv env c = c\<lparr>
     cgServerBaseURL := setString env ''TORBOXARR_SERVER_BASE_URL'' (cgServerBaseURL c),
     cgLoggingLevel := setString env ''TORBOXARR_LOG_LEVEL'' (cgLoggingLevel c),
     cgDataRoot := setString env ''TORBOXARR_DATA_ROOT'' (cgDataRoot c),
     cgDatabasePath := setString env ''TORBOXARR_DATABASE_PATH'' (cgDatabasePath c),
     cgAPIToken := setString env ''TORBOXARR_TORBOX_API_TOKEN'' (cgAPIToken c),
     cgQBitPassword := setString env ''TORBOXARR_QBIT_PASSWORD'' (cgQBitPassword c),
     cgSABAPIKey := setString env ''TORBOXARR_SAB_API_KEY'' (cgSABAPIKey c),
     cgSABNZBKey := setString env ''TORBOXARR_SAB_NZB_KEY'' (cgSABNZBKey c)\<rparr>"

section \<open>Validation\<close>

definition isEnvPlaceholder :: "string \<Rightarrow> bool" where
  "isEnvPlaceholder v \<longleftrightarrow> HasPrefix v ''${'' \<and> HasSuffix v ''}''"

definition validateSecret :: "string \<Rightarrow> string \<Rightarrow> err" where
  "validateSecret name v =
     (let v = TrimSpace v in
      if v = [] then Some (ErrText (name @ '' is required''))
      else if isEnvPlaceholder v then Some (ErrText (name @ '' must be resolved before startup''))
      else nil)"

text \<open>The checks in order; the first error is the result.\<close>

fun first_error :: "err list \<Rightarrow> err" where
  "first_error [] = nil"
| "first_error (e # es) = (case e of Some x \<Rightarrow> Some x | None \<Rightarrow> first_error es)"

definition required :: "string \<Rightarrow> string \<Rightarrow> err" where
  "required name v = (if v = [] then Some (ErrText (name @ '' is required'')) else nil)"

definition Validate :: "config \<Rightarrow> err" where
  "Validate c = first_error
     [required ''server.address'' (cgServerAddress c), required ''server.base_url'' (cgServerBaseURL c),
      required ''database.path'' (cgDatabasePath c), required ''data.root'' (cgDataRoot c),
      required ''data.staging'' (cgStaging c), required ''data.completed'' (cgCompleted c),
      required ''auth.qbit_username'' (cgQBitUsername c),
      validateSecret ''torbox.api_token'' (cgAPIToken c), validateSecret ''auth.qbit_password'' (cgQBitPassword c),
      validateSecret ''auth.sab_api_key'' (cgSABAPIKey c), validateSecret ''auth.sab_nzb_key'' (cgSABNZBKey c)]"

section \<open>The file .env\<close>

definition parseDotEnvValue :: "string \<Rightarrow> go_error + string" where
  "parseDotEnvValue v =
     (case v of
        [] \<Rightarrow> Inr []
      | c # _ \<Rightarrow>
          if c = CHR 0x22 then
            (case Unquote v of
               None \<Rightarrow> Inl (ErrWrap ''invalid quoted value'' (ErrText ''invalid syntax''))
             | Some parsed \<Rightarrow> Inr parsed)
          else if c = CHR 0x27 then
            (if length v < 2 \<or> last v \<noteq> CHR 0x27 then Inl (ErrText ''invalid single-quoted value'')
             else Inr (butlast (tl v)))
          else Inr v)"

text \<open>
  \<open>bufio.Scanner\<close>: the lines of the text without their line ends, up to one that does not fit
  its buffer.
\<close>

definition maxToken :: int where "maxToken = 65536"

definition drop_cr :: "string \<Rightarrow> string" where
  "drop_cr l = (if l \<noteq> [] \<and> last l = CHR 0x0D then butlast l else l)"

definition raw_lines :: "string \<Rightarrow> string list" where
  "raw_lines s = (let ls = split_on (CHR 0x0A) s in if last ls = [] then butlast ls else ls)"

definition scan_lines :: "string \<Rightarrow> string list" where
  "scan_lines s = map drop_cr (takeWhile (\<lambda>l. int (length l) < maxToken) (raw_lines s))"

definition scan_error :: "string \<Rightarrow> err \<Rightarrow> err" where
  "scan_error s readErr =
     (if list_all (\<lambda>l. int (length l) < maxToken) (raw_lines s) then readErr else Some (ErrText ''bufio.Scanner: token too long''))"

text \<open>One line: nothing, or a setting; then the rest of the loop.\<close>

definition at_line :: "string \<Rightarrow> nat \<Rightarrow> string" where
  "at_line path lineNo = path @ '':'' @ itoa (int lineNo)"

definition load_line :: "string \<Rightarrow> nat \<Rightarrow> environment \<Rightarrow> string \<Rightarrow> err \<times> environment" where
  "load_line path lineNo env text =
     (let line = TrimSpace text in
      if line = [] \<or> HasPrefix line ''#'' then (nil, env)
      else
        let line = (if HasPrefix line ''export '' then TrimSpace (drop 7 line) else line) in
        if CHR ''='' \<notin> set line then (Some (ErrText (''parse '' @ at_line path lineNo @ '': missing '' @ [CHR 0x27, CHR ''='', CHR 0x27])), env)
        else case cut (CHR ''='') line of (key, v) \<Rightarrow>
          let key = TrimSpace key; v = TrimSpace v in
          if key = [] then (Some (ErrText (''parse '' @ at_line path lineNo @ '': empty key'')), env)
          else if map_of env key \<noteq> None then (nil, env)
          else case parseDotEnvValue v of
            Inl e \<Rightarrow> (Some (ErrWrap (''parse '' @ at_line path lineNo) e), env)
          | Inr parsed \<Rightarrow>
              (case Setenv env key parsed of
                 (Some e, env) \<Rightarrow> (Some (ErrWrap (''set '' @ key @ '' from '' @ at_line path lineNo) e), env)
               | (None, env) \<Rightarrow> (nil, env)))"

fun load_lines :: "string \<Rightarrow> nat \<Rightarrow> environment \<Rightarrow> string list \<Rightarrow> err \<times> environment" where
  "load_lines path lineNo env [] = (nil, env)"
| "load_lines path lineNo env (text # rest) =
     (case load_line path lineNo env text of
        (Some e, env) \<Rightarrow> (Some e, env)
      | (None, env) \<Rightarrow> load_lines path (Suc lineNo) env rest)"

text \<open>The file: not there, not to be opened, or a text and the error that reading it ended with.\<close>

datatype dotenv = NoDotEnv | Unopenable go_error | DotEnv string err

definition loadDotEnv :: "string \<Rightarrow> dotenv \<Rightarrow> environment \<Rightarrow> err \<times> environment" where
  "loadDotEnv path source env =
     (case source of
        NoDotEnv \<Rightarrow> (nil, env)
      | Unopenable e \<Rightarrow> (Some (ErrWrap (''open '' @ path) e), env)
      | DotEnv text readErr \<Rightarrow>
          (case load_lines path 1 env (scan_lines text) of
             (Some e, env) \<Rightarrow> (Some e, env)
           | (None, env) \<Rightarrow> (map_option (ErrWrap (''scan '' @ path)) (scan_error text readErr), env)))"

section \<open>Loading\<close>

definition Load :: "dotenv \<Rightarrow> environment \<Rightarrow> (go_error + config) \<times> environment" where
  "Load source env =
     (let cfg = defaultConfig in
      case loadDotEnv ''.env'' source env of
        (Some e, env) \<Rightarrow> (Inl e, env)
      | (None, env) \<Rightarrow>
          let cfg = applyDerived (applyEnv env cfg) in
          (case Validate cfg of Some e \<Rightarrow> (Inl e, env) | None \<Rightarrow> (Inr cfg, env)))"

section \<open>What a loaded configuration has\<close>

lemma first_error_nil: "first_error es = nil \<longleftrightarrow> (\<forall>e\<in>set es. e = nil)"
  by (induction es) (auto split: option.split)

text \<open>A secret that passes: not blank, and not a placeholder that nobody replaced.\<close>

definition secret_ok :: "string \<Rightarrow> bool" where
  "secret_ok v \<longleftrightarrow> TrimSpace v \<noteq> [] \<and> \<not> isEnvPlaceholder (TrimSpace v)"

lemma validateSecret_nil [simp]: "validateSecret name v = nil \<longleftrightarrow> secret_ok v"
  by (simp add: validateSecret_def secret_ok_def Let_def)

lemma Validate_secrets:
  "Validate c = nil \<Longrightarrow> secret_ok (cgAPIToken c) \<and> secret_ok (cgQBitPassword c) \<and> secret_ok (cgSABAPIKey c) \<and> secret_ok (cgSABNZBKey c)"
  by (simp only: Validate_def first_error_nil) simp

text \<open>The file only adds settings.\<close>

definition extends_env :: "environment \<Rightarrow> environment \<Rightarrow> bool" where
  "extends_env env env' \<longleftrightarrow> (\<forall>k v. map_of env k = Some v \<longrightarrow> map_of env' k = Some v)"

lemma extends_env_refl [simp]: "extends_env env env"
  by (simp add: extends_env_def)

lemma extends_env_trans: "extends_env a b \<Longrightarrow> extends_env b c \<Longrightarrow> extends_env a c"
  by (simp add: extends_env_def)

lemma Setenv_extends: "map_of env key = None \<Longrightarrow> extends_env env (snd (Setenv env key v))"
  by (auto simp: Setenv_def extends_env_def map_of_filter_key [where P = "\<lambda>k. k \<noteq> key"])

lemma load_line_extends: "extends_env env (snd (load_line path n env text))"
proof -
  have set: "extends_env env e'" if "map_of env key = None" "Setenv env key v = (r, e')" for key v r e'
    using Setenv_extends [OF that(1), of v] that(2) by simp
  show ?thesis by (auto simp: load_line_def Let_def intro: set split: prod.splits sum.splits option.splits)
qed

lemma load_lines_extends: "extends_env env (snd (load_lines path n env texts))"
proof (induction texts arbitrary: n env)
  case (Cons x rest)
  obtain r env1 where l: "load_line path n env x = (r, env1)" by fastforce
  with load_line_extends [of env path n x] have "extends_env env env1" by simp
  with Cons [of env1 "Suc n"] l show ?case by (auto intro: extends_env_trans split: option.split)
qed simp

lemma loadDotEnv_extends: "extends_env env (snd (loadDotEnv path source env))"
proof (cases source)
  case (DotEnv body readErr)
  obtain r env1 where "load_lines path 1 env (scan_lines body) = (r, env1)" by fastforce
  with load_lines_extends [of env path 1 "scan_lines body"] DotEnv show ?thesis
    by (simp add: loadDotEnv_def split: option.split)
qed (simp_all add: loadDotEnv_def)

lemma Load_cases:
  assumes "Load source env = (Inr cfg, env')"
  shows "cfg = applyDerived (applyEnv env' defaultConfig) \<and> Validate cfg = nil \<and> extends_env env env'"
proof -
  obtain r where l: "loadDotEnv ''.env'' source env = (r, env')"
    using assms by (auto simp: Load_def Let_def split: prod.splits option.splits)
  then have "extends_env env env'" using loadDotEnv_extends [of env "''.env''" source] by simp
  with assms l show ?thesis by (auto simp: Load_def Let_def split: option.splits)
qed

lemma default_secrets: "cgAPIToken defaultConfig = [] \<and> cgQBitPassword defaultConfig = [] \<and>
    cgSABAPIKey defaultConfig = [] \<and> cgSABNZBKey defaultConfig = []"
  by (simp add: defaultConfig_def applyDerived_def Let_def)

lemma derived_paths: "cgStaging (applyDerived c) = Join [cgDataRoot (applyDerived c), ''staging''] \<and>
    cgCompleted (applyDerived c) = Join [cgDataRoot (applyDerived c), ''completed''] \<and>
    cgPayloads (applyDerived c) = Join [cgDataRoot (applyDerived c), ''payloads'']"
  by (simp add: applyDerived_def Let_def)

lemma derived_secrets: "cgAPIToken (applyDerived c) = cgAPIToken c \<and> cgQBitPassword (applyDerived c) = cgQBitPassword c \<and>
    cgSABAPIKey (applyDerived c) = cgSABAPIKey c \<and>
    cgSABNZBKey (applyDerived c) = (if TrimSpace (cgSABNZBKey c) = [] then cgSABAPIKey c else cgSABNZBKey c)"
  by (simp add: applyDerived_def Let_def)

lemma setString_blank: "setString env key [] = TrimSpace (Getenv env key)"
  by (simp add: setString_def or_default_def)

lemma sibling_dirs:
  assumes "IsAbs root" and "plain_comp a" "slash \<notin> set a" "plain_comp b" "slash \<notin> set b" "a \<noteq> b"
  shows "\<not> prefix (clean_comps (Join [root, a])) (clean_comps (Join [root, b]))"
  using assms by (simp add: Join_component)


definition sample_environment :: environment where
  "sample_environment = [(''TORBOXARR_TORBOX_API_TOKEN'', ''tok''), (''TORBOXARR_QBIT_PASSWORD'', '' pw '')]"

definition sample_dotenv :: string where
  "sample_dotenv = ''# keys'' @ [CHR 0x0A] @ ''export TORBOXARR_SAB_API_KEY = '' @ [CHR 0x22] @ ''a'' @ [CHR 0x5C] @ ''x62'' @ [CHR 0x22, CHR 0x0D, CHR 0x0A] @
     ''TORBOXARR_TORBOX_API_TOKEN=other''"

definition sample_environment' :: environment where
  "sample_environment' = (''TORBOXARR_SAB_API_KEY'', ''ab'') # sample_environment"

definition sample_config :: config where
  "sample_config = applyDerived (applyEnv sample_environment' defaultConfig)"

lemma sample_load: "Load (DotEnv sample_dotenv nil) sample_environment = (Inr sample_config, sample_environment')"
proof -
  have "loadDotEnv ''.env'' (DotEnv sample_dotenv nil) sample_environment = (nil, sample_environment')" by code_simp
  moreover have "Validate sample_config = nil" by code_simp
  ultimately show ?thesis by (simp only: Load_def Let_def prod.case option.case flip: sample_config_def)
qed


end
