(* ===== verification/Api_Common.thy ===== *)
theory Api_Common
  imports Api_Submission Compat
begin

text \<open>
  What the handlers of the API share (\<open>internal/api\<close>): requests and responses, the lenient readers
  of form values (\<open>sab.go\<close>, \<open>qbit.go\<close>), and the overlay of the transfer progress
  (\<open>progress.go\<close>).

  A request is what \<open>net/http\<close> makes of the bytes on the wire: the parsed query and form body with
  the error that parsing them ends with, the media type, and the parts of a multipart body. Which
  of them \<open>FormValue\<close> sees, and in which order, is modelled here.
\<close>

section \<open>Requests\<close>

record upload =
  upKey :: string
  upFilename :: string
  upOpen :: "go_error + string \<times> err"

record request =
  rqMethod :: string
  rqPath :: string
  rqQuery :: "url_values \<times> err"
  rqContentType :: string
  rqMediaType :: string
  rqPost :: "url_values \<times> err"
  rqMultipart :: "go_error + url_values \<times> upload list"
  rqCookie :: "string option"

text \<open>
  \<open>ParseForm\<close>: the body of a request that writes, then the query; the first error is reported,
  once, and a later call finds the form there. \<open>ParseMultipartForm\<close> appends the values of the parts.
\<close>

definition query :: "request \<Rightarrow> string \<Rightarrow> string" where
  "query rq key = Get (fst (rqQuery rq)) key"

definition has_body :: "request \<Rightarrow> bool" where
  "has_body rq \<longleftrightarrow> rqMethod rq \<in> {''POST'', ''PUT'', ''PATCH''}"

definition ParseForm :: "request \<Rightarrow> err" where
  "ParseForm rq =
     (case (if has_body rq then snd (rqPost rq) else nil) of Some e \<Rightarrow> Some e | None \<Rightarrow> snd (rqQuery rq))"

definition ParseMultipartForm :: "request \<Rightarrow> err" where
  "ParseMultipartForm rq = (case rqMultipart rq of Inl e \<Rightarrow> Some e | Inr _ \<Rightarrow> ParseForm rq)"

record form =
  fmForm :: url_values
  fmPost :: url_values
  fmFiles :: "upload list"

definition parsed_form :: "request \<Rightarrow> form" where
  "parsed_form rq =
     (let post = (if has_body rq then fst (rqPost rq) else []) in
      \<lparr>fmForm = post @ fst (rqQuery rq), fmPost = post, fmFiles = []\<rparr>)"

definition parsed_multipart :: "request \<Rightarrow> form" where
  "parsed_multipart rq =
     (case rqMultipart rq of
        Inl e \<Rightarrow> parsed_form rq
      | Inr (vs, ups) \<Rightarrow>
          \<lparr>fmForm = fmForm (parsed_form rq) @ vs, fmPost = fmPost (parsed_form rq) @ vs, fmFiles = ups\<rparr>)"

definition FormValue :: "form \<Rightarrow> string \<Rightarrow> string" where
  "FormValue fm key = Get (fmForm fm) key"

definition PostFormValue :: "form \<Rightarrow> string \<Rightarrow> string" where
  "PostFormValue fm key = Get (fmPost fm) key"

definition multipartFiles :: "form \<Rightarrow> string list \<Rightarrow> upload list" where
  "multipartFiles fm keys = concat (map (\<lambda>key. filter (\<lambda>u. upKey u = key) (fmFiles fm)) keys)"

section \<open>Responses\<close>

record sab_category =
  scName :: string
  scDir :: string

datatype payload =
    NoBody
  | PlainText string
  | HttpError string
  | HtmlPage string
  | JHealth time
  | JError string
  | JFailed string
  | JVersion string
  | JAuth
  | JConfig string string "sab_category list"
  | JCategories "string list"
  | JScripts "string list"
  | JAdded "string list"
  | JQueue sab_queue
  | JHistory sab_history
  | JDeleted "string list"
  | JPreferences string
  | JCategoryMap "(string \<times> qbit_category) list"
  | JTransfer qbit_transfer_info
  | JTorrents "qbit_torrent_info list"

record response =
  rsStatus :: int
  rsCookie :: "cookie option"
  rsAllow :: string
  rsBody :: payload

definition reply :: "int \<Rightarrow> payload \<Rightarrow> response" where
  "reply status body = \<lparr>rsStatus = status, rsCookie = None, rsAllow = [], rsBody = body\<rparr>"

text \<open>
  A handler gets the random source for each submission it makes, the time, the state and the
  request.
\<close>

type_synonym state = "store \<times> fs"

type_synonym randoms = "nat \<Rightarrow> nat \<Rightarrow> go_error + string"

type_synonym handler = "randoms \<Rightarrow> time \<Rightarrow> state \<Rightarrow> request \<Rightarrow> response \<times> state"

section \<open>Readers of values\<close>

fun firstNonEmpty :: "string list \<Rightarrow> string" where
  "firstNonEmpty [] = []"
| "firstNonEmpty (v # vs) = (if TrimSpace v \<noteq> [] then TrimSpace v else firstNonEmpty vs)"

definition pick :: "string list \<Rightarrow> string" where
  "pick vs = firstNonEmpty vs"

definition split_list :: "char \<Rightarrow> string \<Rightarrow> string list" where
  "split_list sep v =
     filter (\<lambda>item. item \<noteq> [] \<and> item \<noteq> ''all'') (map TrimSpace (split_on sep (TrimSpace v)))"

definition splitCSV :: "string \<Rightarrow> string list" where
  "splitCSV v = split_list (CHR '','') v"

definition splitPipe :: "string \<Rightarrow> string list" where
  "splitPipe v = split_list (CHR ''|'') v"

definition parseBool :: "string \<Rightarrow> bool" where
  "parseBool v \<longleftrightarrow> ToLower (TrimSpace v) \<in> {''1'', ''true'', ''yes'', ''on''}"

text \<open>\<open>fmt.Sscanf\<close> with \<open>%d\<close>: a sign, the digits that follow, and whatever comes after them.\<close>

definition scan_int :: "string \<Rightarrow> int option" where
  "scan_int s =
     (let sign = (if s \<noteq> [] \<and> hd s \<in> set ''+-'' then take 1 s else []);
          digits = takeWhile (\<lambda>c. digit c \<noteq> None) (drop (length sign) s)
      in if digits = [] then None else ParseInt (sign @ digits))"

definition parseInt :: "string \<Rightarrow> int \<Rightarrow> int" where
  "parseInt v fallback =
     (if TrimSpace v = [] then fallback
      else case scan_int (TrimSpace v) of Some n \<Rightarrow> n | None \<Rightarrow> fallback)"

text \<open>\<open>strings.FieldsFunc\<close> at line ends.\<close>

definition lines_of :: "string \<Rightarrow> string list" where
  "lines_of s = filter (\<lambda>l. l \<noteq> []) (concat (map (split_on (CHR 0x0D)) (split_on (CHR 0x0A) s)))"

section \<open>Transfer progress\<close>

definition needsLocalTransferOverlay :: "job_state \<Rightarrow> bool" where
  "needsLocalTransferOverlay s \<longleftrightarrow> s \<in> {StateLocalDownloadPending, StateLocalDownloading, StateLocalVerify, StateCompleted,
     StateRemovePending, StateFailed}"

record overlay =
  ovTotal :: int
  ovDone :: int
  ovStartedAt :: time
  ovUpdatedAt :: time

definition overlay_part :: "overlay \<Rightarrow> transfer_part \<Rightarrow> overlay" where
  "overlay_part ov part =
     \<lparr>ovTotal = wrap64 (ovTotal ov + pContentLength part),
      ovDone = wrap64 (ovDone ov + pBytesDone part),
      ovStartedAt = (if IsZero (ovStartedAt ov) \<or> pCreatedAt part < ovStartedAt ov then pCreatedAt part else ovStartedAt ov),
      ovUpdatedAt = (if ovUpdatedAt ov < pUpdatedAt part then pUpdatedAt part else ovUpdatedAt ov)\<rparr>"

definition overlay_of :: "transfer_part list \<Rightarrow> overlay" where
  "overlay_of parts = foldl overlay_part \<lparr>ovTotal = 0, ovDone = 0, ovStartedAt = zero_time, ovUpdatedAt = zero_time\<rparr> parts"

definition with_overlay :: "store \<Rightarrow> job \<Rightarrow> job" where
  "with_overlay st job =
     (if \<not> needsLocalTransferOverlay (jState job) then job
      else let parts = ListTransferParts st (jID job) in
        if parts = [] then job
        else let ov = overlay_of parts in
          job\<lparr>jBytesTotal := ovTotal ov, jBytesDone := ovDone ov,
              jLocalDownloadStartedAt :=
                (if \<not> IsZero (ovStartedAt ov) then Some (ovStartedAt ov) else jLocalDownloadStartedAt job),
              jUpdatedAt := (if jUpdatedAt job < ovUpdatedAt ov then ovUpdatedAt ov else jUpdatedAt job)\<rparr>)"

definition withLocalTransferProgress :: "store \<Rightarrow> job list \<Rightarrow> job list" where
  "withLocalTransferProgress st jobs = map (with_overlay st) jobs"

text \<open>\<open>html.EscapeString\<close>.\<close>

definition EscapeString :: "string \<Rightarrow> string" where
  "EscapeString s = concat (map (\<lambda>c.
     if c = CHR ''&'' then ''&amp;'' else if c = CHR ''<'' then ''&lt;'' else if c = CHR ''>'' then ''&gt;''
     else if c = CHR 0x22 then ''&#34;'' else if c = CHR 0x27 then ''&#39;'' else [c]) s)"

text \<open>The entries of a directory that are directories, by trimmed name.\<close>

definition directory_names :: "(string \<times> bool) list \<Rightarrow> string list" where
  "directory_names entries = filter (\<lambda>n. n \<noteq> []) (map (\<lambda>e. TrimSpace (fst e)) (filter snd entries))"

end
