(* ===== verification/Api_Sab.thy ===== *)
theory Api_Sab
  imports Api_Common
begin

text \<open>
  The SABnzbd side of the API (\<open>internal/api/sab.go\<close>): one handler per mode, and the dispatch that
  checks the key before it reads a body. A value of the form goes before one of the query.
\<close>

section \<open>Categories\<close>

definition category_of :: "string \<Rightarrow> string \<Rightarrow> sab_category" where
  "category_of name dir = \<lparr>scName = name, scDir = dir\<rparr>"

definition defaultSABCategories :: "server \<Rightarrow> sab_category list" where
  "defaultSABCategories srv =
     (let defaultCategory = TrimSpace (vDefaultCategory srv);
          categories = [category_of ''*'' [], category_of ''movies'' ''movies'', category_of ''tv'' ''tv'',
            category_of ''audio'' ''audio'', category_of ''software'' ''software'']
      in if defaultCategory = [] \<or> defaultCategory = ''*'' then categories
         else categories @ [category_of defaultCategory defaultCategory])"

text \<open>The closure \<open>add\<close>: the first category of a name stays.\<close>

definition add_category :: "sab_category list \<Rightarrow> sab_category \<Rightarrow> sab_category list" where
  "add_category seen c =
     (let name = TrimSpace (scName c) in
      if name = [] \<or> list_ex (\<lambda>x. scName x = name) seen then seen
      else seen @ [category_of name (TrimSpace (scDir c))])"

definition sabCategoryConfigs :: "server \<Rightarrow> state \<Rightarrow> sab_category list" where
  "sabCategoryConfigs srv s =
     (let jobs = ListVisibleClientJobs (fst s) ClientKindSAB [] 1000;
          names = (case ReadDir (snd s) (Completed (vLayout srv)) of
             Inl e \<Rightarrow> [] | Inr entries \<Rightarrow> directory_names entries);
          seen = foldl add_category []
            (defaultSABCategories srv @ map (\<lambda>n. category_of n n) names @
             map (\<lambda>job. category_of (jCategory job) (jCategory job)) jobs)
      in filter (\<lambda>c. scName c = ''*'') seen @ sort_key scName (filter (\<lambda>c. scName c \<noteq> ''*'') seen))"

definition sabCategoryNames :: "server \<Rightarrow> state \<Rightarrow> string list" where
  "sabCategoryNames srv s = map scName (sabCategoryConfigs srv s)"

definition handleSABGetConfig :: "server \<Rightarrow> state \<Rightarrow> response" where
  "handleSABGetConfig srv s =
     reply 200 (JConfig (Staging (vLayout srv)) (Completed (vLayout srv)) (sabCategoryConfigs srv s))"

definition handleSABGetCats :: "server \<Rightarrow> state \<Rightarrow> response" where
  "handleSABGetCats srv s = reply 200 (JCategories (sabCategoryNames srv s))"

definition handleSABGetScripts :: response where
  "handleSABGetScripts = reply 200 (JScripts [''None''])"

definition both :: "form \<Rightarrow> request \<Rightarrow> string \<Rightarrow> string list" where
  "both fm rq key = [FormValue fm key, query rq key]"

definition handleSABSetConfig :: "server \<Rightarrow> form \<Rightarrow> state \<Rightarrow> request \<Rightarrow> response \<times> state" where
  "handleSABSetConfig srv fm s rq =
     (if ToLower (TrimSpace (firstNonEmpty (both fm rq ''section''))) \<noteq> ''categories''
      then (reply 400 (JError ''unsupported section''), s)
      else
        let name = ToLower (TrimSpace (firstNonEmpty (both fm rq ''keyword'' @ both fm rq ''name''))) in
        if name = [] then (reply 400 (JError ''category name is required''), s)
        else
          let dir = TrimSpace (firstNonEmpty (both fm rq ''dir''));
              dir = (if name \<noteq> ''*'' \<and> dir = [] then name else dir)
          in if dir = [] then (handleSABGetConfig srv s, s)
             else
               let path = Join [Completed (vLayout srv), dir] in
               (case MkdirAll (snd s) path of
                  (Some e, fs) \<Rightarrow> (reply 500 (JError (Error (path_error ''mkdir'' path e))), fst s, fs)
                | (None, fs) \<Rightarrow> (handleSABGetConfig srv (fst s, fs), fst s, fs)))"

definition category_line :: "server \<Rightarrow> sab_category \<Rightarrow> string" where
  "category_line srv c =
     ''<li><strong>'' @ EscapeString (scName c) @ ''</strong>'' @
     (if scDir c = [] then '' - default path''
      else '' - '' @ EscapeString (Join [Completed (vLayout srv), scDir c])) @ ''</li>''"

text \<open>The page as \<open>html\<close>: the fixed texts around the list.\<close>

definition page_head :: string where
  "page_head =
     ''<!doctype html><html><head><meta charset='' @ [CHR 0x22] @ ''utf-8'' @ [CHR 0x22] @ ''><title>SABnzbd Categories</title></head><body>'' @
     ''<h1>SABnzbd Categories</h1>'' @
     ''<p>This compatibility view exists so Sonarr's SABnzbd help link does not 404. Category validation uses <code>mode=get_config</code>, not this page.</p>'' @
     ''<p>Current categories:</p><ul>''"

definition page_hint :: string where
  "page_hint = ''</code> or call <code>/sabnzbd/api?mode=set_config&amp;section=categories&amp;name=YOUR_CATEGORY&amp;apikey=...</code>.</p>''"

definition category_page :: "server \<Rightarrow> state \<Rightarrow> string" where
  "category_page srv s =
     page_head @ concat (map (category_line srv) (sabCategoryConfigs srv s)) @ ''</ul>'' @
     ''<p>To add a custom category, create a subfolder under <code>'' @ EscapeString (Completed (vLayout srv)) @ page_hint @
     ''</body></html>''"

definition handleSABConfigCategories :: "server \<Rightarrow> handler" where
  "handleSABConfigCategories srv rnd now s rq =
     (if rqPath rq \<noteq> ''/config/categories'' \<and> rqPath rq \<noteq> ''/config/categories/''
      then (reply 404 (HttpError ''404 page not found''), s)
      else if rqMethod rq \<noteq> ''GET''
      then ((reply 405 (HttpError ''Method Not Allowed''))\<lparr>rsAllow := ''GET''\<rparr>, s)
      else (reply 200 (HtmlPage (category_page srv s)), s))"

section \<open>Submissions\<close>

definition nzb_metadata :: "form \<Rightarrow> request \<Rightarrow> submission_metadata" where
  "nzb_metadata fm rq = no_metadata\<lparr>PostProcessing := parseInt (firstNonEmpty (both fm rq ''pp'')) (- 1),
     Password := firstNonEmpty (both fm rq ''password'')\<rparr>"

definition nzb_link :: "form \<Rightarrow> request \<Rightarrow> submission_request" where
  "nzb_link fm rq =
     \<lparr>srSourceType = SourceTypeNZB, srClientKind = ClientKindSAB, srCategory = firstNonEmpty (both fm rq ''cat''),
      srDisplayName = firstNonEmpty (both fm rq ''nzbname'' @ both fm rq ''title''),
      srSourceURI = firstNonEmpty (both fm rq ''name'' @ both fm rq ''url''),
      srInfoHash = [], srPayloadName = [], srPayloadBody = None, srMetadata = nzb_metadata fm rq\<rparr>"

definition handleSABAddURL :: "server \<Rightarrow> form \<Rightarrow> handler" where
  "handleSABAddURL srv fm rnd now s rq =
     (case enqueueSubmission srv (rnd 0) now s (nzb_link fm rq) of
        (Inl e, s) \<Rightarrow> (reply 500 (JFailed (Error e)), s)
      | (Inr (job, _), s) \<Rightarrow> (reply 200 (JAdded [SABNZOID (jPublicID job)]), s))"

text \<open>The submission of one uploaded file; \<open>None\<close> when it could not be opened or was not accepted.\<close>

definition submit_upload :: "server \<Rightarrow> randoms \<Rightarrow> time \<Rightarrow> (upload \<Rightarrow> submission_request) \<Rightarrow> nat \<Rightarrow> state \<Rightarrow> upload \<Rightarrow>
    job option \<times> state" where
  "submit_upload srv rnd now request_of k s u =
     (case upOpen u of
        Inl e \<Rightarrow> (None, s)
      | Inr body \<Rightarrow>
          (case enqueueSubmission srv (rnd k) now s ((request_of u)\<lparr>srPayloadBody := Some body\<rparr>) of
             (Inl e, s) \<Rightarrow> (None, s)
           | (Inr (job, _), s) \<Rightarrow> (Some job, s)))"

fun submit_uploads :: "server \<Rightarrow> randoms \<Rightarrow> time \<Rightarrow> (upload \<Rightarrow> submission_request) \<Rightarrow> nat \<Rightarrow> state \<Rightarrow> upload list \<Rightarrow>
    job list \<times> state" where
  "submit_uploads srv rnd now request_of k s [] = ([], s)"
| "submit_uploads srv rnd now request_of k s (u # us) =
     (case submit_upload srv rnd now request_of k s u of (r, s) \<Rightarrow>
      case submit_uploads srv rnd now request_of (Suc k) s us of (jobs, s) \<Rightarrow>
        ((case r of Some job \<Rightarrow> job # jobs | None \<Rightarrow> jobs), s))"

definition nzb_upload :: "form \<Rightarrow> request \<Rightarrow> upload \<Rightarrow> submission_request" where
  "nzb_upload fm rq u =
     (let jobName = firstNonEmpty (both fm rq ''nzbname'') in
      \<lparr>srSourceType = SourceTypeNZB, srClientKind = ClientKindSAB, srCategory = firstNonEmpty (both fm rq ''cat''),
       srDisplayName = (if jobName \<noteq> [] then jobName else upFilename u),
       srSourceURI = [], srInfoHash = [], srPayloadName = upFilename u, srPayloadBody = None,
       srMetadata = (nzb_metadata fm rq)\<lparr>UploadedFilename := upFilename u, OriginalFilename := upFilename u\<rparr>\<rparr>)"

definition handleSABAddFile :: "server \<Rightarrow> form \<Rightarrow> handler" where
  "handleSABAddFile srv fm rnd now s rq =
     (case submit_uploads srv rnd now (nzb_upload fm rq) 0 s (multipartFiles fm [''nzbfile'', ''name'', ''file'']) of
        (jobs, s) \<Rightarrow>
          if jobs = [] then (reply 500 (JFailed ''no nzb files accepted''), s)
          else (reply 200 (JAdded (map (\<lambda>job. SABNZOID (jPublicID job)) jobs)), s))"

section \<open>Lists and deletions\<close>

definition sab_jobs :: "form \<Rightarrow> store \<Rightarrow> request \<Rightarrow> job list" where
  "sab_jobs fm st rq =
     (let category = TrimSpace (firstNonEmpty (both fm rq ''cat'' @ both fm rq ''category''));
          category = (if category = ''*'' then [] else category)
      in withLocalTransferProgress st (ListVisibleClientJobs st ClientKindSAB category 1000))"

definition handleSABQueue :: "server \<Rightarrow> form \<Rightarrow> state \<Rightarrow> request \<Rightarrow> response" where
  "handleSABQueue srv fm s rq = reply 200 (JQueue (ProjectSABQueue (vSABVersion srv) (sab_jobs fm (fst s) rq)))"

definition handleSABHistory :: "server \<Rightarrow> form \<Rightarrow> state \<Rightarrow> request \<Rightarrow> response" where
  "handleSABHistory srv fm s rq = reply 200 (JHistory (ProjectSABHistory (vSABVersion srv) (sab_jobs fm (fst s) rq)))"

text \<open>Removals one after the other; an error is logged and the loop goes on. The errors are kept.\<close>

fun mark_all :: "time \<Rightarrow> store \<Rightarrow> string list \<Rightarrow> err list \<times> store" where
  "mark_all now st [] = ([], st)"
| "mark_all now st (i # ids) =
     (case markRemovePending now st i of (e, st) \<Rightarrow>
      case mark_all now st ids of (es, st) \<Rightarrow> (e # es, st))"

definition handleSABDeleteFromQueue :: "form \<Rightarrow> time \<Rightarrow> state \<Rightarrow> request \<Rightarrow> response \<times> state" where
  "handleSABDeleteFromQueue fm now s rq =
     (let ids = splitCSV (firstNonEmpty (both fm rq ''value'')) in
      (reply 200 (JDeleted ids), snd (mark_all now (fst s) (map NormalizeSABNZOID ids)), snd s))"

definition handleSABDeleteFromHistory :: "form \<Rightarrow> time \<Rightarrow> state \<Rightarrow> request \<Rightarrow> response \<times> state" where
  "handleSABDeleteFromHistory fm now s rq =
     (let ids = splitCSV (firstNonEmpty (both fm rq ''value'')) in
      (reply 200 (JDeleted ids), snd (mark_all now (fst s) (map NormalizeSABNZOID ids)), snd s))"

section \<open>Dispatch\<close>

definition is_multipart :: "request \<Rightarrow> bool" where
  "is_multipart rq \<longleftrightarrow> HasPrefix (rqContentType rq) ''multipart/''"

text \<open>The mode and the key of the query; the form fills in what is missing, unless it is multipart.\<close>

definition query_mode :: "request \<Rightarrow> string" where
  "query_mode rq = ToLower (TrimSpace (query rq ''mode''))"

definition query_key :: "request \<Rightarrow> string" where
  "query_key rq = firstNonEmpty [query rq ''apikey'', query rq ''nzbkey'']"

definition early_form :: "request \<Rightarrow> bool" where
  "early_form rq \<longleftrightarrow> (query_mode rq = [] \<or> query_key rq = []) \<and> \<not> is_multipart rq"

definition sab_mode :: "request \<Rightarrow> string" where
  "sab_mode rq = (if early_form rq \<and> query_mode rq = [] then ToLower (TrimSpace (FormValue (parsed_form rq) ''mode'')) else query_mode rq)"

definition sab_key :: "request \<Rightarrow> string" where
  "sab_key rq =
     (if early_form rq \<and> query_key rq = []
      then firstNonEmpty [FormValue (parsed_form rq) ''apikey'', FormValue (parsed_form rq) ''nzbkey'']
      else query_key rq)"

definition body_modes :: "string list" where
  "body_modes = [''addurl'', ''addfile'', ''queue'', ''history'', ''set_config'']"

definition body_error :: "request \<Rightarrow> string option" where
  "body_error rq =
     (if sab_mode rq \<notin> set body_modes then None
      else if is_multipart rq then (if ParseMultipartForm rq = nil then None else Some ''invalid multipart body'')
      else if early_form rq \<or> ParseForm rq = nil then None
      else Some ''invalid form body'')"

definition sab_form :: "request \<Rightarrow> form" where
  "sab_form rq = (if is_multipart rq then parsed_multipart rq else parsed_form rq)"

definition handleSABAPI :: "server \<Rightarrow> handler" where
  "handleSABAPI srv rnd now s rq =
     (let mode = sab_mode rq in
      if \<not> Allow (vKeys srv) mode (sab_key rq) then (reply 403 (JError ''API Key Incorrect''), s)
      else case body_error rq of
        Some e \<Rightarrow> (reply 400 (JError e), s)
      | None \<Rightarrow>
          let fm = sab_form rq; name = ToLower (TrimSpace (firstNonEmpty (both fm rq ''name''))) in
          if mode = ''version'' then (reply 200 (JVersion (vSABVersion srv)), s)
          else if mode = ''auth'' then (reply 200 JAuth, s)
          else if mode = ''get_config'' then (handleSABGetConfig srv s, s)
          else if mode = ''get_cats'' then (handleSABGetCats srv s, s)
          else if mode = ''get_scripts'' then (handleSABGetScripts, s)
          else if mode = ''set_config'' then handleSABSetConfig srv fm s rq
          else if mode = ''addurl'' then handleSABAddURL srv fm rnd now s rq
          else if mode = ''addfile'' then handleSABAddFile srv fm rnd now s rq
          else if mode = ''queue'' then
            (if name = ''delete'' then handleSABDeleteFromQueue fm now s rq else (handleSABQueue srv fm s rq, s))
          else if mode = ''history'' then
            (if name = ''delete'' then handleSABDeleteFromHistory fm now s rq else (handleSABHistory srv fm s rq, s))
          else (reply 400 (JError ''unsupported mode''), s))"

end
