(* ===== verification/Api_Qbit.thy ===== *)
theory Api_Qbit
  imports Api_Sab
begin

text \<open>
  The qBittorrent side of the API (\<open>internal/api/qbit.go\<close>): sessions, application data,
  categories, additions, the list of torrents and deletions.
\<close>

section \<open>Sessions and application data\<close>

definition qbitCookieSecure :: "server \<Rightarrow> bool" where
  "qbitCookieSecure srv =
     (case vParse srv (TrimSpace (vBaseURL srv)) of None \<Rightarrow> False | Some u \<Rightarrow> EqualFold (uScheme u) ''https'')"

definition handleQBitLogin :: "server \<Rightarrow> handler" where
  "handleQBitLogin srv rnd now s rq =
     (if ParseForm rq \<noteq> nil then (reply 400 (HttpError ''Fails.''), s)
      else
        let fm = parsed_form rq in
        case Login (vSessions srv) (rnd 0) now (fst s) (PostFormValue fm ''username'') (PostFormValue fm ''password'') of
          (Inl e, st) \<Rightarrow> (reply 200 (HttpError ''Fails.''), st, snd s)
        | (Inr sid, st) \<Rightarrow>
            ((reply 200 (PlainText ''Ok.''))\<lparr>rsCookie := Some (SetQBitCookie sid (qbitCookieSecure srv))\<rparr>, st, snd s))"

definition handleQBitLogout :: "server \<Rightarrow> handler" where
  "handleQBitLogout srv rnd now s rq =
     ((reply 200 (PlainText ''Ok.''))\<lparr>rsCookie := Some (ClearQBitCookie (qbitCookieSecure srv))\<rparr>,
      (case rqCookie rq of Some sid \<Rightarrow> Logout (fst s) sid | None \<Rightarrow> fst s), snd s)"

definition handleQBitVersion :: "server \<Rightarrow> handler" where
  "handleQBitVersion srv rnd now s rq = (reply 200 (PlainText (vQBitVersion srv)), s)"

definition handleQBitWebAPIVersion :: "server \<Rightarrow> handler" where
  "handleQBitWebAPIVersion srv rnd now s rq = (reply 200 (PlainText (vQBitWebAPI srv)), s)"

definition handleQBitPreferences :: "server \<Rightarrow> handler" where
  "handleQBitPreferences srv rnd now s rq = (reply 200 (JPreferences (Completed (vLayout srv))), s)"

definition handleQBitDefaultSavePath :: "server \<Rightarrow> handler" where
  "handleQBitDefaultSavePath srv rnd now s rq = (reply 200 (PlainText (Completed (vLayout srv))), s)"

section \<open>Categories\<close>

text \<open>The map under construction as an association list with distinct keys; JSON prints it by key.\<close>

definition category_at :: "server \<Rightarrow> string \<Rightarrow> string \<times> qbit_category" where
  "category_at srv category = (category, ProjectQBitCategory category (Join [Completed (vLayout srv), category]))"

definition qbitCategories :: "server \<Rightarrow> state \<Rightarrow> go_error + (string \<times> qbit_category) list" where
  "qbitCategories srv s =
     (let dir = Completed (vLayout srv) in
      case (case ReadDir (snd s) dir of
              Inl e \<Rightarrow> if e = ENOENT then Inr [] else Inl (path_error ''open'' dir e)
            | Inr entries \<Rightarrow> Inr entries) of
        Inl e \<Rightarrow> Inl e
      | Inr entries \<Rightarrow>
          let jobs = map jCategory (ListVisibleClientJobs (fst s) ClientKindQBit [] 1000);
              names = remdups (directory_names entries @ jobs);
              names = (if names = [] then [vDefaultCategory srv] else names)
          in Inr (sort_key fst (map (category_at srv) names)))"

definition handleQBitCategories :: "server \<Rightarrow> handler" where
  "handleQBitCategories srv rnd now s rq =
     (case qbitCategories srv s of
        Inl e \<Rightarrow> (reply 500 (HttpError (Error e)), s)
      | Inr categories \<Rightarrow> (reply 200 (JCategoryMap categories), s))"

definition handleQBitCreateCategory :: "server \<Rightarrow> handler" where
  "handleQBitCreateCategory srv rnd now s rq =
     (case ParseForm rq of
        Some e \<Rightarrow> (reply 400 (HttpError (Error e)), s)
      | None \<Rightarrow>
          let category = TrimSpace (PostFormValue (parsed_form rq) ''category'') in
          if category = [] then (reply 400 (HttpError ''category is required''), s)
          else
            let savePath = TrimSpace (PostFormValue (parsed_form rq) ''savePath'');
                savePath = (if savePath = [] then Join [Completed (vLayout srv), category] else savePath)
            in (case MkdirAll (snd s) savePath of
                  (Some e, fs) \<Rightarrow> (reply 500 (HttpError (Error (path_error ''mkdir'' savePath e))), fst s, fs)
                | (None, fs) \<Rightarrow> (reply 200 NoBody, fst s, fs)))"

section \<open>Lists\<close>

definition handleQBitTransferInfo :: "server \<Rightarrow> handler" where
  "handleQBitTransferInfo srv rnd now s rq =
     (reply 200 (JTransfer (ProjectQBitTransferInfo
        (withLocalTransferProgress (fst s) (ListVisibleClientJobs (fst s) ClientKindQBit [] 1000)))), s)"

definition handleQBitInfo :: "server \<Rightarrow> handler" where
  "handleQBitInfo srv rnd now s rq =
     (let category = TrimSpace (query rq ''category'');
          jobs = withLocalTransferProgress (fst s) (ListVisibleClientJobs (fst s) ClientKindQBit category 1000);
          jobs = sort_key jCreatedAt (filterJobsByPublicIDs jobs (splitPipe (query rq ''hashes'')))
      in (reply 200 (JTorrents (map ProjectQBitTorrent jobs)), s))"

section \<open>Additions and deletions\<close>

definition torrent_metadata :: "form \<Rightarrow> submission_metadata" where
  "torrent_metadata fm = no_metadata\<lparr>
     SavePath := PostFormValue fm ''savepath'', Rename := TrimSpace (PostFormValue fm ''rename''),
     Tags := splitCSV (PostFormValue fm ''tags''), SkipChecking := parseBool (PostFormValue fm ''skip_checking''),
     Paused := parseBool (PostFormValue fm ''paused''), RootFolder := parseBool (PostFormValue fm ''root_folder'')\<rparr>"

definition torrent_link :: "server \<Rightarrow> form \<Rightarrow> string \<Rightarrow> submission_request" where
  "torrent_link srv fm line =
     (let infoHash = extractInfoHash (vParse srv) line; rename = TrimSpace (PostFormValue fm ''rename'') in
      \<lparr>srSourceType = SourceTypeTorrent, srClientKind = ClientKindQBit, srCategory = TrimSpace (PostFormValue fm ''category''),
       srDisplayName = (if rename = [] then firstNonEmpty [magnetName (vParse srv) line, infoHash, line] else rename),
       srSourceURI = line, srInfoHash = infoHash, srPayloadName = [], srPayloadBody = None, srMetadata = torrent_metadata fm\<rparr>)"

definition torrent_upload :: "form \<Rightarrow> upload \<Rightarrow> submission_request" where
  "torrent_upload fm u =
     \<lparr>srSourceType = SourceTypeTorrent, srClientKind = ClientKindQBit, srCategory = TrimSpace (PostFormValue fm ''category''),
      srDisplayName = pick [TrimSpace (PostFormValue fm ''rename''), upFilename u],
      srSourceURI = [], srInfoHash = [], srPayloadName = upFilename u, srPayloadBody = None,
      srMetadata = (torrent_metadata fm)\<lparr>UploadedFilename := upFilename u, OriginalFilename := upFilename u\<rparr>\<rparr>"

text \<open>The loop over the links: the number of submissions that were accepted.\<close>

fun submit_links :: "server \<Rightarrow> randoms \<Rightarrow> time \<Rightarrow> form \<Rightarrow> nat \<Rightarrow> state \<Rightarrow> string list \<Rightarrow> nat \<times> state" where
  "submit_links srv rnd now fm k s [] = (0, s)"
| "submit_links srv rnd now fm k s (line # lines) =
     (case enqueueSubmission srv (rnd k) now s (torrent_link srv fm line) of (r, s) \<Rightarrow>
      case submit_links srv rnd now fm (Suc k) s lines of (n, s) \<Rightarrow>
        ((case r of Inl e \<Rightarrow> n | Inr _ \<Rightarrow> Suc n), s))"

definition link_lines :: "form \<Rightarrow> string list" where
  "link_lines fm =
     filter (\<lambda>l. l \<noteq> []) (map TrimSpace (lines_of (TrimSpace (PostFormValue fm ''urls''))))"

definition qbit_form :: "request \<Rightarrow> go_error + form" where
  "qbit_form rq =
     (if rqMediaType rq = ''multipart/form-data''
      then (case ParseMultipartForm rq of Some e \<Rightarrow> Inl e | None \<Rightarrow> Inr (parsed_multipart rq))
      else (case ParseForm rq of Some e \<Rightarrow> Inl e | None \<Rightarrow> Inr (parsed_form rq)))"

definition handleQBitAdd :: "server \<Rightarrow> handler" where
  "handleQBitAdd srv rnd now s rq =
     (case qbit_form rq of
        Inl e \<Rightarrow> (reply 400 (HttpError (Error e)), s)
      | Inr fm \<Rightarrow>
          (case submit_links srv rnd now fm 0 s (link_lines fm) of (n, s) \<Rightarrow>
           case submit_uploads srv rnd now (torrent_upload fm) (length (link_lines fm)) s (multipartFiles fm [''torrents'']) of (jobs, s) \<Rightarrow>
             (reply 200 (PlainText (if n + length jobs = 0 then ''Fails.'' else ''Ok.'')), s)))"

definition handleQBitDelete :: "server \<Rightarrow> handler" where
  "handleQBitDelete srv rnd now s rq =
     (case ParseForm rq of
        Some e \<Rightarrow> (reply 400 (HttpError (Error e)), s)
      | None \<Rightarrow>
          (case mark_all now (fst s) (splitPipe (PostFormValue (parsed_form rq) ''hashes'')) of
             (es, st) \<Rightarrow>
               if es \<noteq> [] \<and> nil \<notin> set es then (reply 500 (HttpError ''Internal Server Error''), st, snd s)
               else (reply 200 NoBody, st, snd s)))"

end
