(* ===== verification/Api_Router.thy ===== *)
theory Api_Router
  imports Api_Qbit
begin

text \<open>
  The routes of the server (\<open>internal/api/router.go\<close>): which handler a path has, which method it
  takes, and which handlers stand behind the session check. The mux finds patterns by the clean
  path; how it redirects other spellings of a path is left out.
\<close>

definition requireMethod :: "string \<Rightarrow> handler \<Rightarrow> handler" where
  "requireMethod verb serve rnd now s rq =
     (if rqMethod rq \<noteq> verb then ((reply 405 (HttpError ''Method Not Allowed''))\<lparr>rsAllow := verb\<rparr>, s)
      else serve rnd now s rq)"

definition getOnly :: "handler \<Rightarrow> handler" where
  "getOnly serve = requireMethod ''GET'' serve"

definition postOnly :: "handler \<Rightarrow> handler" where
  "postOnly serve = requireMethod ''POST'' serve"

definition qbitProtected :: "handler \<Rightarrow> handler" where
  "qbitProtected serve rnd now s rq =
     Middleware (\<lambda>st. serve rnd now (st, snd s) rq) (reply 403 (HttpError ''Forbidden''), s) (fst s) now (rqCookie rq)"

definition handleHealth :: handler where
  "handleHealth rnd now s rq = (reply 200 (JHealth now), s)"

definition routes :: "server \<Rightarrow> (string \<times> handler) list" where
  "routes srv =
     [(''/healthz'', getOnly handleHealth),
      (''/api/v2/auth/login'', postOnly (handleQBitLogin srv)),
      (''/api/v2/auth/logout'', postOnly (handleQBitLogout srv)),
      (''/api/v2/app/version'', getOnly (qbitProtected (handleQBitVersion srv))),
      (''/api/v2/app/webapiVersion'', getOnly (qbitProtected (handleQBitWebAPIVersion srv))),
      (''/api/v2/app/preferences'', getOnly (qbitProtected (handleQBitPreferences srv))),
      (''/api/v2/app/defaultSavePath'', getOnly (qbitProtected (handleQBitDefaultSavePath srv))),
      (''/api/v2/torrents/add'', postOnly (qbitProtected (handleQBitAdd srv))),
      (''/api/v2/torrents/info'', getOnly (qbitProtected (handleQBitInfo srv))),
      (''/api/v2/torrents/delete'', postOnly (qbitProtected (handleQBitDelete srv))),
      (''/api/v2/torrents/categories'', getOnly (qbitProtected (handleQBitCategories srv))),
      (''/api/v2/torrents/createCategory'', postOnly (qbitProtected (handleQBitCreateCategory srv))),
      (''/api/v2/transfer/info'', getOnly (qbitProtected (handleQBitTransferInfo srv))),
      (''/api'', handleSABAPI srv),
      (''/sabnzbd/api'', handleSABAPI srv),
      (''/config/categories'', handleSABConfigCategories srv),
      (''/config/categories/'', handleSABConfigCategories srv)]"

definition Router :: "server \<Rightarrow> handler" where
  "Router srv rnd now s rq =
     (case map_of (routes srv) (rqPath rq) of
        Some serve \<Rightarrow> serve rnd now s rq
      | None \<Rightarrow>
          if HasPrefix (rqPath rq) ''/config/categories/'' then handleSABConfigCategories srv rnd now s rq
          else (reply 404 (HttpError ''404 page not found''), s))"

end
