(* ===== verification/Api_Facts.thy ===== *)
theory Api_Facts
  imports Api_Router Submission_Facts Compat_Facts
begin

text \<open>
  What the requests of clients do to the database and the file tree: additions store new jobs and
  leave every other row alone, deletions only mark jobs, and nothing at all happens without the
  right credentials.
\<close>

section \<open>The state of a job\<close>

definition state_of :: "store \<Rightarrow> string \<Rightarrow> job_state option" where
  "state_of st k = map_option jState (GetJobByID st k)"

text \<open>The effect of additions, and of deletions, on the states of all jobs.\<close>

definition adds :: "store \<Rightarrow> store \<Rightarrow> bool" where
  "adds st st' \<longleftrightarrow> (audited st \<longrightarrow> audited st') \<and>
     (\<forall>k row. GetJobByID st k = Some row \<longrightarrow> GetJobByID st' k = Some row) \<and>
     (\<forall>k. GetJobByID st k = None \<longrightarrow> state_of st' k \<in> {None, Some StateSubmitPending})"

definition marks :: "string set \<Rightarrow> store \<Rightarrow> store \<Rightarrow> bool" where
  "marks pids st st' \<longleftrightarrow> (audited st \<longrightarrow> audited st') \<and>
     (\<forall>k. GetJobByID st' k = GetJobByID st k \<or>
       (\<exists>row row'. GetJobByID st k = Some row \<and> jState row \<notin> {StateRemoved, StateRemovePending} \<and> jPublicID row \<in> pids \<and>
          GetJobByID st' k = Some row' \<and> jState row' = StateRemovePending \<and> jPublicID row' = jPublicID row))"

lemma adds_refl [simp]: "adds st st"
  by (simp add: adds_def state_of_def)

lemma adds_trans: "adds a b \<Longrightarrow> adds b c \<Longrightarrow> adds a c"
proof -
  assume ab: "adds a b" and bc: "adds b c"
  have "state_of c k \<in> {None, Some StateSubmitPending}" if n: "GetJobByID a k = None" for k
  proof (cases "GetJobByID b k")
    case None
    with bc show ?thesis by (simp add: adds_def)
  next
    case (Some row)
    moreover from this have "GetJobByID c k = Some row" using bc by (simp add: adds_def)
    moreover have "state_of b k \<in> {None, Some StateSubmitPending}" using ab n by (simp add: adds_def)
    ultimately show ?thesis by (simp add: state_of_def)
  qed
  with ab bc show ?thesis by (simp add: adds_def)
qed

lemma marks_refl [simp]: "marks pids st st"
  by (simp add: marks_def)

lemma marks_mono: "marks A st st' \<Longrightarrow> A \<subseteq> B \<Longrightarrow> marks B st st'"
  unfolding marks_def by blast

lemma marks_trans:
  assumes ab: "marks A a b" and bc: "marks B b c"
  shows "marks (A \<union> B) a c"
proof -
  have "GetJobByID c k = GetJobByID a k \<or>
      (\<exists>row row'. GetJobByID a k = Some row \<and> jState row \<notin> {StateRemoved, StateRemovePending} \<and> jPublicID row \<in> A \<union> B \<and>
         GetJobByID c k = Some row' \<and> jState row' = StateRemovePending \<and> jPublicID row' = jPublicID row)" for k
  proof (cases "GetJobByID b k = GetJobByID a k")
    case True
    with bc show ?thesis unfolding marks_def by (metis UnI2)
  next
    case False
    with ab obtain row row' where r: "GetJobByID a k = Some row" "jState row \<notin> {StateRemoved, StateRemovePending}"
        "jPublicID row \<in> A" "GetJobByID b k = Some row'" "jState row' = StateRemovePending" "jPublicID row' = jPublicID row"
      unfolding marks_def by blast
    have "GetJobByID c k = GetJobByID b k \<or> (\<exists>q. GetJobByID b k = Some q \<and> jState q \<noteq> StateRemovePending)"
      using bc unfolding marks_def by blast
    with r(4,5) have "GetJobByID c k = Some row'" by auto
    with r show ?thesis by blast
  qed
  with ab bc show ?thesis by (simp add: marks_def)
qed

section \<open>Removals\<close>

lemma markRemovePending_marks:
  assumes "audited st"
  shows "marks {pid} st (snd (markRemovePending now st pid))"
proof (cases "GetJobByPublicID st pid")
  case None
  then show ?thesis by (simp add: markRemovePending_def)
next
  case (Some job)
  show ?thesis
  proof (cases "jState job = StateRemoved \<or> jState job = StateRemovePending")
    case True
    with Some show ?thesis by (simp add: markRemovePending_def)
  next
    case False
    let ?job = "job\<lparr>jDeleteRequested := True, jNextRunAt := Some now, jUpdatedAt := now\<rparr>"
    let ?u = "UpdateJobState st now ?job StateRemovePending ''remove requested via Arr-compatible API''"
    have wf: "store_wf st" using assms by (simp add: audited_def)
    note row = GetJobByPublicID_row [OF wf Some]
    have "markRemovePending now st pid = returning ?u"
      by (simp only: markRemovePending_def Some option.case False if_False)
    then have u: "snd (markRemovePending now st pid) = snd (snd ?u)" by (simp only: snd_returning)
    have sy: "synced st ?job" by (rule audit_writes.may_write_cong [of st job]) (simp_all add: synced_def row)
    have a: "audited (snd (snd ?u))" by (rule audit_writes.update_state_keeps_store [OF assms sy]) simp
    have others: "GetJobByID (snd (snd ?u)) k = GetJobByID st k" if "jID job \<noteq> k" for k
      using that by (simp add: store_simps)
    have own: "snd (snd ?u) = st \<or> (\<exists>row. GetJobByID (snd (snd ?u)) (jID job) = Some row \<and> jState row = StateRemovePending \<and>
        jPublicID row = jPublicID job)"
    proof (cases "fst (UpdateJob st (?job\<lparr>jState := StateRemovePending, jUpdatedAt := now\<rparr>)) = nil")
      case True
      then show ?thesis using row by (simp add: store_simps)
    next
      case False
      then have "snd (snd ?u) = st" unfolding UpdateJobState_store Let_def by (rule if_not_P)
      then show ?thesis ..
    qed
    have "GetJobByID (snd (snd ?u)) k = GetJobByID st k \<or>
       (\<exists>row row'. GetJobByID st k = Some row \<and> jState row \<notin> {StateRemoved, StateRemovePending} \<and> jPublicID row \<in> {pid} \<and>
          GetJobByID (snd (snd ?u)) k = Some row' \<and> jState row' = StateRemovePending \<and> jPublicID row' = jPublicID row)" for k
      using others [of k] own row False by (cases "k = jID job") auto
    with a show ?thesis unfolding marks_def u by blast
  qed
qed

lemma mark_all_marks: "audited st \<Longrightarrow> marks (set ids) st (snd (mark_all now st ids))"
proof (induction ids arbitrary: st)
  case (Cons i ids)
  let ?m = "markRemovePending now st i"
  have 1: "marks {i} st (snd ?m)" by (rule markRemovePending_marks [OF Cons.prems])
  then have "audited (snd ?m)" using Cons.prems by (simp add: marks_def)
  from Cons.IH [OF this] have "marks (set ids) (snd ?m) (snd (mark_all now (snd ?m) ids))" .
  with 1 have "marks ({i} \<union> set ids) st (snd (mark_all now (snd ?m) ids))" by (rule marks_trans)
  then show ?case by (simp add: case_prod_unfold)
qed simp

section \<open>Additions\<close>

lemma enqueue_adds:
  assumes "audited st"
  shows "adds st (fst (snd (enqueueSubmission srv read now (st, fs) req)))"
proof -
  have wf: "store_wf st" using assms by (simp add: audited_def)
  show ?thesis
  proof (rule enqueue_cases [OF wf, of srv read now fs req])
    fix i ref digest fs1 job
    assume job: "job = new_job srv now req i (submission_category srv req) (submission_key srv req digest) ref"
      and c: "fst (CreateJob st now job) = nil"
      and e: "enqueueSubmission srv read now (st, fs) req =
         (Inr (job\<lparr>jNextRunAt := Some now, jState := StateSubmitPending, jUpdatedAt := now\<rparr>, False),
          snd (snd (UpdateJobState (snd (CreateJob st now job)) now (job\<lparr>jNextRunAt := Some now\<rparr>) StateSubmitPending
            ''queued for remote submission'')), fs1)"
    let ?st = "snd (snd (UpdateJobState (snd (CreateJob st now job)) now (job\<lparr>jNextRunAt := Some now\<rparr>) StateSubmitPending
            ''queued for remote submission''))"
    have a: "active job" by (simp add: active_def active_states_def job)
    have none: "GetJobByID st (jID job) = None"
      by (rule CreateJob_cases [OF wf, of now job]) (use c in \<open>simp_all add: job_exists_iff_find\<close>)
    note rows = stored_row [OF wf c a, of "Some now" StateSubmitPending "''queued for remote submission''"]
    have "synced (snd (CreateJob st now job)) (job\<lparr>jNextRunAt := Some now\<rparr>)"
      by (rule audit_writes.may_write_cong [OF CreateJob_audited(2) [OF assms c]]) simp_all
    then have aud: "audited ?st"
      by (intro audit_writes.update_state_keeps_store CreateJob_audited(1) [OF assms]) simp_all
    have keep: "GetJobByID ?st k = Some row" if "GetJobByID st k = Some row" for k row
      using that none unfolding rows by auto
    have new: "state_of ?st k \<in> {None, Some StateSubmitPending}" if "GetJobByID st k = None" for k
      using that unfolding rows state_of_def by simp
    show ?thesis unfolding e adds_def fst_conv snd_conv using aud keep new by blast
  qed simp_all
qed

lemma submit_upload_adds:
  assumes "audited (fst s)"
  shows "adds (fst s) (fst (snd (submit_upload srv rnd now f k s u)))"
proof (cases "upOpen u")
  case (Inl e)
  then show ?thesis by (simp add: submit_upload_def)
next
  case (Inr body)
  with enqueue_adds [of "fst s" srv "rnd k" now "snd s" "(f u)\<lparr>srPayloadBody := Some body\<rparr>"] assms
  show ?thesis by (auto simp: submit_upload_def split: prod.splits sum.splits)
qed

lemma submit_uploads_adds: "audited (fst s) \<Longrightarrow> adds (fst s) (fst (snd (submit_uploads srv rnd now f k s us)))"
proof (induction us arbitrary: s k)
  case (Cons u us)
  obtain r s1 where u: "submit_upload srv rnd now f k s u = (r, s1)" by (rule prod.exhaust)
  with submit_upload_adds [OF Cons.prems, of srv rnd now f k u] have 1: "adds (fst s) (fst s1)" by simp
  with Cons.prems have "audited (fst s1)" by (simp add: adds_def)
  note 2 = Cons.IH [OF this, of "Suc k"]
  show ?case using adds_trans [OF 1 2] by (simp add: u case_prod_unfold)
qed simp

lemma submit_links_adds: "audited (fst s) \<Longrightarrow> adds (fst s) (fst (snd (submit_links srv rnd now fm k s ls)))"
proof (induction ls arbitrary: s k)
  case (Cons l ls)
  obtain r s1 where u: "enqueueSubmission srv (rnd k) now s (torrent_link srv fm l) = (r, s1)" by (rule prod.exhaust)
  with enqueue_adds [of "fst s" srv "rnd k" now "snd s" "torrent_link srv fm l"] Cons.prems
  have 1: "adds (fst s) (fst s1)" by simp
  with Cons.prems have "audited (fst s1)" by (simp add: adds_def)
  note 2 = Cons.IH [OF this, of "Suc k"]
  show ?case using adds_trans [OF 1 2] by (simp add: u case_prod_unfold)
qed simp

section \<open>The routes\<close>

lemma same_rows_adds:
  assumes "sJobs st' = sJobs st" and "audited st \<Longrightarrow> audited st'"
  shows "adds st st'"
  using assms by (simp add: adds_def state_of_def GetJobByID_def)

lemma audited_sessions:
  assumes "audited st" and "store_wf st'" and "sJobs st' = sJobs st" and "sEvents st' = sEvents st"
  shows "audited st'"
  using assms by (simp add: audited_def audit_ok_def events_of_def)

lemma Login_frame:
  "sJobs (snd (Login m read now st u p)) = sJobs st" "sParts (snd (Login m read now st u p)) = sParts st"
  "sEvents (snd (Login m read now st u p)) = sEvents st"
  by (auto simp: Login_def CreateQBitSession_def split: sum.split)

lemma Login_wf: "store_wf st \<Longrightarrow> store_wf (snd (Login m read now st u p))"
proof -
  assume "store_wf st"
  note w = session_writes_wf(1) [OF this]
  have "snd (Login m read now st u p) = st \<or> (\<exists>sid. snd (Login m read now st u p) = snd (CreateQBitSession st now sid u (now + smTTL m)))"
    by (auto simp: Login_def split: sum.split prod.split option.split) (metis snd_conv)+
  with w \<open>store_wf st\<close> show ?thesis by metis
qed

lemma Logout_frame:
  "sJobs (Logout st sid) = sJobs st" "sParts (Logout st sid) = sParts st"
  "sEvents (Logout st sid) = sEvents st" "store_wf st \<Longrightarrow> store_wf (Logout st sid)"
  using session_writes_wf [of st] by (simp_all add: Logout_def DeleteQBitSession_def)

text \<open>Every request has the effect of additions or of deletions.\<close>

definition client_effect :: "store \<Rightarrow> store \<Rightarrow> bool" where
  "client_effect st st' \<longleftrightarrow> adds st st' \<or> marks UNIV st st'"

lemma client_effect_refl [simp]: "client_effect st st"
  by (simp add: client_effect_def)

lemma login_effect: "audited (fst s) \<Longrightarrow> client_effect (fst s) (fst (snd (handleQBitLogin srv rnd now s rq)))"
proof -
  assume a: "audited (fst s)"
  let ?l = "Login (vSessions srv) (rnd 0) now (fst s) (PostFormValue (parsed_form rq) ''username'') (PostFormValue (parsed_form rq) ''password'')"
  note f = Login_frame [of "vSessions srv" "rnd 0" now "fst s" "PostFormValue (parsed_form rq) ''username''" "PostFormValue (parsed_form rq) ''password''"]
  have "audited (snd ?l)" using a by (intro audited_sessions [OF a _ f(1,3)] Login_wf) (simp add: audited_def)
  then have "adds (fst s) (snd ?l)" by (intro same_rows_adds f(1))
  then show ?thesis
    by (auto simp: handleQBitLogin_def client_effect_def Let_def split: prod.splits sum.splits)
qed

lemma logout_effect: "audited (fst s) \<Longrightarrow> client_effect (fst s) (fst (snd (handleQBitLogout srv rnd now s rq)))"
proof -
  assume a: "audited (fst s)"
  have "adds (fst s) (Logout (fst s) sid)" for sid
    using a Logout_frame [of "fst s" sid] by (intro same_rows_adds audited_sessions [OF a]) (simp_all add: audited_def)
  then show ?thesis by (simp add: handleQBitLogout_def client_effect_def split: option.split)
qed

lemma qbit_add_effect: "audited (fst s) \<Longrightarrow> client_effect (fst s) (fst (snd (handleQBitAdd srv rnd now s rq)))"
proof (cases "qbit_form rq")
  case (Inr fm)
  assume a: "audited (fst s)"
  obtain n s1 where l: "submit_links srv rnd now fm 0 s (link_lines fm) = (n, s1)" by (rule prod.exhaust)
  with submit_links_adds [OF a, of srv rnd now fm 0 "link_lines fm"] have 1: "adds (fst s) (fst s1)" by simp
  with a have "audited (fst s1)" by (simp add: adds_def)
  from adds_trans [OF 1 submit_uploads_adds [OF this]] show ?thesis
    by (simp add: handleQBitAdd_def Inr l client_effect_def case_prod_unfold)
qed (simp add: handleQBitAdd_def)

lemma qbit_delete_effect: "audited (fst s) \<Longrightarrow> client_effect (fst s) (fst (snd (handleQBitDelete srv rnd now s rq)))"
  using marks_mono [OF mark_all_marks subset_UNIV]
  by (auto simp: handleQBitDelete_def client_effect_def case_prod_unfold split: option.split)

lemma sab_add_effect:
  "audited (fst s) \<Longrightarrow> client_effect (fst s) (fst (snd (handleSABAddURL srv fm rnd now s rq)))"
  "audited (fst s) \<Longrightarrow> client_effect (fst s) (fst (snd (handleSABAddFile srv fm rnd now s rq)))"
proof -
  assume a: "audited (fst s)"
  have e: "adds (fst s) (fst (snd (enqueueSubmission srv read now s req)))" for read req
    using enqueue_adds [OF a, of srv read now "snd s" req] by simp
  show "client_effect (fst s) (fst (snd (handleSABAddURL srv fm rnd now s rq)))"
    using e [of "rnd 0" "nzb_link fm rq"] by (auto simp: handleSABAddURL_def client_effect_def split: prod.split sum.split)
  show "client_effect (fst s) (fst (snd (handleSABAddFile srv fm rnd now s rq)))"
    using submit_uploads_adds [OF a] by (simp add: handleSABAddFile_def client_effect_def case_prod_unfold)
qed

lemma sab_delete_effect:
  "audited (fst s) \<Longrightarrow> client_effect (fst s) (fst (snd (handleSABDeleteFromQueue fm now s rq)))"
  "audited (fst s) \<Longrightarrow> client_effect (fst s) (fst (snd (handleSABDeleteFromHistory fm now s rq)))"
  using marks_mono [OF mark_all_marks subset_UNIV]
  by (simp_all add: handleSABDeleteFromQueue_def handleSABDeleteFromHistory_def client_effect_def Let_def)

lemma set_config_store: "fst (snd (handleSABSetConfig srv fm s rq)) = fst s"
  by (simp add: handleSABSetConfig_def Let_def split: prod.split option.split)

lemma create_category_store: "fst (snd (handleQBitCreateCategory srv rnd now s rq)) = fst s"
  by (simp add: handleQBitCreateCategory_def Let_def split: prod.split option.split)

lemma sab_effect: "audited (fst s) \<Longrightarrow> client_effect (fst s) (fst (snd (handleSABAPI srv rnd now s rq)))"
  by (simp add: handleSABAPI_def Let_def set_config_store sab_add_effect sab_delete_effect split: option.split)

lemma categories_page_state: "snd (handleSABConfigCategories srv rnd now s rq) = s"
  by (simp add: handleSABConfigCategories_def)

lemma readers_state:
  "snd (handleQBitVersion srv rnd now s rq) = s" "snd (handleQBitWebAPIVersion srv rnd now s rq) = s"
  "snd (handleQBitPreferences srv rnd now s rq) = s" "snd (handleQBitDefaultSavePath srv rnd now s rq) = s"
  "snd (handleQBitInfo srv rnd now s rq) = s" "snd (handleQBitTransferInfo srv rnd now s rq) = s"
  "snd (handleQBitCategories srv rnd now s rq) = s" "snd (handleHealth rnd now s rq) = s"
  by (simp_all add: handleQBitVersion_def handleQBitWebAPIVersion_def handleQBitPreferences_def handleQBitDefaultSavePath_def
      handleQBitInfo_def handleQBitTransferInfo_def handleQBitCategories_def handleHealth_def Let_def split: sum.split)

lemma qbitProtected_cases:
  "qbitProtected serve rnd now s rq =
     (if (\<exists>sid. rqCookie rq = Some sid \<and> sid \<noteq> [] \<and> Valid (fst s) now sid) then serve rnd now s rq
      else (reply 403 (HttpError ''Forbidden''), s))"
  by (simp add: qbitProtected_def Middleware_def split: option.split)

text \<open>What holds of the answer of every route, and of the answer when there is none, holds of the router's.\<close>

lemma Router_routes:
  assumes "list_all (\<lambda>(p, serve). rqPath rq = p \<longrightarrow> P (serve rnd now s rq)) (routes srv)"
    and "P (handleSABConfigCategories srv rnd now s rq)" and "P (reply 404 (HttpError ''404 page not found''), s)"
  shows "P (Router srv rnd now s rq)"
proof (cases "map_of (routes srv) (rqPath rq)")
  case None
  with assms(2,3) show ?thesis by (simp add: Router_def)
next
  case (Some serve)
  from map_of_SomeD [OF Some] assms(1) have "P (serve rnd now s rq)" by (auto simp: list_all_iff)
  with Some show ?thesis by (simp add: Router_def)
qed

lemma Router_effect: "audited (fst s) \<Longrightarrow> client_effect (fst s) (fst (snd (Router srv rnd now s rq)))"
proof (rule Router_routes [where P = "\<lambda>out. client_effect (fst s) (fst (snd out))"])
  assume a: "audited (fst s)"
  have by_verb: "client_effect (fst s) (fst (snd (requireMethod v f rnd now s rq)))"
    if "client_effect (fst s) (fst (snd (f rnd now s rq)))" for v and f :: handler
    using that by (simp add: requireMethod_def)
  have by_session: "client_effect (fst s) (fst (snd (qbitProtected f rnd now s rq)))"
    if "client_effect (fst s) (fst (snd (f rnd now s rq)))" for f :: handler
    using that by (simp add: qbitProtected_cases)
  show "list_all (\<lambda>(p, serve). rqPath rq = p \<longrightarrow> client_effect (fst s) (fst (snd (serve rnd now s rq)))) (routes srv)"
    unfolding routes_def list.pred_inject prod.case getOnly_def postOnly_def
    by (intro conjI list.pred_inject(1) impI by_verb by_session login_effect [OF a] logout_effect [OF a] qbit_add_effect [OF a]
        qbit_delete_effect [OF a] sab_effect [OF a]) (simp_all only: readers_state create_category_store categories_page_state client_effect_refl)
qed (simp_all add: categories_page_state)

end
