(* ===== verification/Api_Access.thy ===== *)
theory Api_Access
  imports Api_Facts
begin

text \<open>
  Access control of the API: what a request without credentials can do, and what one with
  credentials does to the jobs it names.
\<close>

section \<open>Credentials\<close>

definition has_session :: "state \<Rightarrow> time \<Rightarrow> request \<Rightarrow> bool" where
  "has_session s now rq \<longleftrightarrow> (case rqCookie rq of None \<Rightarrow> False | Some sid \<Rightarrow> sid \<noteq> [] \<and> Valid (fst s) now sid)"

definition has_key :: "server \<Rightarrow> request \<Rightarrow> bool" where
  "has_key srv rq \<longleftrightarrow> TrimSpace (sab_key rq) \<noteq> [] \<and> TrimSpace (sab_key rq) \<in> {saApiKey (vKeys srv), saNzbKey (vKeys srv)}"

text \<open>Bodies that show nothing of a job: errors, the state of the server, its versions, the help page.\<close>

fun public_body :: "payload \<Rightarrow> bool" where
  "public_body NoBody = True"
| "public_body (PlainText t) = (t = ''Ok.'')"
| "public_body (HttpError e) = True"
| "public_body (HtmlPage p) = True"
| "public_body (JHealth t) = True"
| "public_body (JError e) = True"
| "public_body (JVersion v) = True"
| "public_body JAuth = True"
| "public_body _ = False"

definition session_paths :: "string list" where
  "session_paths = [''/api/v2/auth/login'', ''/api/v2/auth/logout'']"

text \<open>The answer to a request without credentials.\<close>

definition turned_away :: "state \<Rightarrow> request \<Rightarrow> response \<times> state \<Rightarrow> bool" where
  "turned_away s rq out \<longleftrightarrow>
     snd (snd out) = snd s \<and> sJobs (fst (snd out)) = sJobs (fst s) \<and> sParts (fst (snd out)) = sParts (fst s) \<and>
     sEvents (fst (snd out)) = sEvents (fst s) \<and>
     (snd out = s \<or> rqPath rq \<in> set session_paths \<and> rqMethod rq = ''POST'') \<and> public_body (rsBody (fst out))"

lemma turned_away_same [simp]: "turned_away s rq (resp, s) \<longleftrightarrow> public_body (rsBody resp)"
  by (simp add: turned_away_def)

lemma public_reply [simp]: "rsBody (reply status body) = body"
  by (simp add: reply_def)

lemma login_turned_away:
  "rqPath rq \<in> set session_paths \<Longrightarrow> rqMethod rq = ''POST'' \<Longrightarrow> turned_away s rq (handleQBitLogin srv rnd now s rq)"
  using Login_frame [of "vSessions srv" "rnd 0" now "fst s" "PostFormValue (parsed_form rq) ''username''" "PostFormValue (parsed_form rq) ''password''"]
  by (auto simp: handleQBitLogin_def turned_away_def Let_def split: prod.split sum.split)

lemma logout_turned_away:
  "rqPath rq \<in> set session_paths \<Longrightarrow> rqMethod rq = ''POST'' \<Longrightarrow> turned_away s rq (handleQBitLogout srv rnd now s rq)"
  using Logout_frame [of "fst s"] by (simp add: handleQBitLogout_def turned_away_def split: option.split)

lemma protected_turned_away: "\<not> has_session s now rq \<Longrightarrow> turned_away s rq (qbitProtected serve rnd now s rq)"
  by (auto simp: qbitProtected_cases has_session_def)

lemma method_turned_away:
  "(rqMethod rq = v \<Longrightarrow> turned_away s rq (serve rnd now s rq)) \<Longrightarrow> turned_away s rq (requireMethod v serve rnd now s rq)"
  by (simp add: requireMethod_def)

definition keyed_modes :: "string list" where
  "keyed_modes = [''get_config'', ''get_cats'', ''get_scripts'', ''set_config'', ''addurl'', ''addfile'', ''queue'', ''history'']"

lemma keyed_modes_need_key: "m \<in> set keyed_modes \<Longrightarrow> Allow a m key \<Longrightarrow> TrimSpace key \<noteq> [] \<and> TrimSpace key \<in> {saApiKey a, saNzbKey a}"
proof -
  have "list_all (\<lambda>m. ToLower (TrimSpace m) \<notin> {''version'', ''auth''}) keyed_modes" by code_simp
  then show "m \<in> set keyed_modes \<Longrightarrow> Allow a m key \<Longrightarrow> TrimSpace key \<noteq> [] \<and> TrimSpace key \<in> {saApiKey a, saNzbKey a}"
    unfolding list_all_iff Allow_iff by blast
qed

lemma sab_turned_away: "\<not> has_key srv rq \<Longrightarrow> turned_away s rq (handleSABAPI srv rnd now s rq)"
proof (cases "Allow (vKeys srv) (sab_mode rq) (sab_key rq)")
  case True
  assume "\<not> has_key srv rq"
  then have "sab_mode rq \<notin> set keyed_modes" using keyed_modes_need_key [OF _ True] by (auto simp: has_key_def)
  with True show ?thesis by (simp add: handleSABAPI_def keyed_modes_def Let_def split: option.split)
qed (simp add: handleSABAPI_def)


definition sample_rq :: "string \<Rightarrow> string \<Rightarrow> url_values \<Rightarrow> request" where
  "sample_rq verb path q =
     \<lparr>rqMethod = verb, rqPath = path, rqQuery = (q, nil), rqContentType = [], rqMediaType = [], rqPost = ([], nil),
      rqMultipart = Inl (ErrText ''not multipart''), rqCookie = None\<rparr>"


end
