(* ===== verification/Api_Delete.thy ===== *)
theory Api_Delete
  imports Api_Access
begin

text \<open>
  From the list a client reads to the deletion it asks for: the identifiers of the SABnzbd lists,
  sent back in a delete request, reach exactly the jobs they were shown for.
\<close>

section \<open>One mark\<close>

lemma mark_active:
  assumes "audited st" and "GetJobByPublicID st pid = Some job" and "active job" and "jState job \<noteq> StateRemovePending"
  shows "state_of (snd (markRemovePending now st pid)) (jID job) = Some StateRemovePending"
proof -
  let ?job = "job\<lparr>jDeleteRequested := True, jNextRunAt := Some now, jUpdatedAt := now\<rparr>"
  let ?next = "?job\<lparr>jState := StateRemovePending, jUpdatedAt := now\<rparr>"
  have wf: "store_wf st" using assms(1) by (simp add: audited_def)
  note row = GetJobByPublicID_row [OF wf assms(2)]
  have s: "\<not> (jState job = StateRemoved \<or> jState job = StateRemovePending)"
    using assms(3,4) by (auto simp: active_iff)
  have "fst (UpdateJob st ?next) = nil"
  proof (rule ccontr)
    assume "fst (UpdateJob st ?next) \<noteq> nil"
    then obtain x where x: "x \<in> set (sJobs st)" "jID x \<noteq> jID job" "active x" "jSubmissionKey x = jSubmissionKey job"
      by (auto simp: UpdateJob_ok_iff key_taken_def list_ex_iff)
    then have "jID x = jID job"
      using assms(3) GetJobByID_SomeD [OF row(1)] by (intro keys_uniqueD [OF store_wfD(3) [OF wf]]) auto
    with x(2) show False by simp
  qed
  moreover have "markRemovePending now st pid =
      returning (UpdateJobState st now ?job StateRemovePending ''remove requested via Arr-compatible API'')"
    by (simp only: markRemovePending_def assms(2) option.case s if_False)
  ultimately show ?thesis using row(1) by (simp add: state_of_def store_simps)
qed

lemma state_after_marks:
  "marks pids st st' \<Longrightarrow> state_of st' k = state_of st k \<or>
   state_of st' k = Some StateRemovePending \<and> (\<exists>s. state_of st k = Some s \<and> s \<notin> {StateRemoved, StateRemovePending})"
  unfolding marks_def state_of_def by (metis option.map(2))

lemma marks_public_id:
  "marks pids st st' \<Longrightarrow> GetJobByID st k = Some row \<Longrightarrow> \<exists>row'. GetJobByID st' k = Some row' \<and> jPublicID row' = jPublicID row \<and>
     (jState row' = jState row \<or> jState row' = StateRemovePending)"
  unfolding marks_def by (metis option.inject)

lemma GetJobByPublicID_found:
  "store_wf st \<Longrightarrow> GetJobByID st k = Some row \<Longrightarrow> GetJobByPublicID st (jPublicID row) = Some row"
  using store_wfD(2) [of st] find_unique [of jPublicID "sJobs st" row "jPublicID row"] GetJobByID_SomeD [of st k row]
  by (simp add: GetJobByPublicID_def)

lemma mark_all_active:
  "audited st \<Longrightarrow> GetJobByID st k = Some row \<Longrightarrow> active row \<Longrightarrow> jPublicID row \<in> set ids \<Longrightarrow>
   state_of (snd (mark_all now st ids)) k = Some StateRemovePending"
proof (induction ids arbitrary: st row)
  case (Cons i ids)
  let ?st = "snd (markRemovePending now st i)"
  have m: "marks {i} st ?st" by (rule markRemovePending_marks [OF Cons.prems(1)])
  then have a: "audited ?st" using Cons.prems(1) by (simp add: marks_def)
  have all: "snd (mark_all now st (i # ids)) = snd (mark_all now ?st ids)" by (simp add: case_prod_unfold)
  note rest = state_after_marks [OF mark_all_marks [OF a, of ids now], of k]
  obtain row' where row': "GetJobByID ?st k = Some row'" "jPublicID row' = jPublicID row"
      "jState row' = jState row \<or> jState row' = StateRemovePending"
    using marks_public_id [OF m Cons.prems(2)] by blast
  show ?case
  proof (cases "jPublicID row \<in> set ids")
    case True
    have "active row'" using row'(3) Cons.prems(3) by (auto simp: active_iff)
    from Cons.IH [OF a row'(1) this] True row'(2) show ?thesis unfolding all by simp
  next
    case False
    then have i: "jPublicID row = i" using Cons.prems(4) by simp
    have "jID row = k" using GetJobByID_SomeD [OF Cons.prems(2)] by simp
    moreover have "GetJobByPublicID st i = Some row"
      using GetJobByPublicID_found [OF _ Cons.prems(2)] Cons.prems(1) i by (simp add: audited_def)
    ultimately have "state_of ?st k = Some StateRemovePending"
    proof (cases "jState row = StateRemovePending")
      case True
      then have "state_of st k = Some StateRemovePending" using Cons.prems(2) by (simp add: state_of_def)
      with state_after_marks [OF m, of k] show ?thesis by auto
    next
      case False
      assume "jID row = k" and "GetJobByPublicID st i = Some row"
      with mark_active [OF Cons.prems(1) this(2) Cons.prems(3) False, of now] show ?thesis by simp
    qed
    with rest show ?thesis unfolding all by auto
  qed
qed simp

section \<open>The round trip of the identifiers\<close>

lemma nzo_printable: "\<forall>c\<in>set i. printable c \<and> c \<noteq> CHR '','' \<Longrightarrow> \<forall>c\<in>set (SABNZOID i). printable c \<and> c \<noteq> CHR '',''"
proof -
  have "list_all (\<lambda>c. printable c \<and> c \<noteq> CHR '','') ''TBOX-''" by code_simp
  then show "\<forall>c\<in>set i. printable c \<and> c \<noteq> CHR '','' \<Longrightarrow> \<forall>c\<in>set (SABNZOID i). printable c \<and> c \<noteq> CHR '',''"
    by (auto simp: SABNZOID_def list_all_iff)
qed

lemma set_join_with: "set (join_with s xs) \<subseteq> set s \<union> \<Union> (set ` set xs)"
  by (induction s xs rule: join_with.induct) auto

lemma splitCSV_ids:
  assumes "\<forall>i\<in>set pids. \<forall>c\<in>set i. printable c \<and> c \<noteq> CHR '',''"
  shows "splitCSV (join_with '','' (map SABNZOID pids)) = map SABNZOID pids"
proof (cases "pids = []")
  case True
  then show ?thesis by (simp add: splitCSV_def split_list_def)
next
  case False
  let ?ids = "map SABNZOID pids"
  have p: "\<forall>x\<in>set ?ids. \<forall>c\<in>set x. printable c \<and> c \<noteq> CHR '',''" using assms nzo_printable by auto
  have comma: "printable (CHR '','')" by code_simp
  have "\<forall>c\<in>set (join_with '','' ?ids). printable c"
    using set_join_with [of "'',''" ?ids] p comma by fastforce
  then have t: "TrimSpace (join_with '','' ?ids) = join_with '','' ?ids" by (rule TrimSpace_printable)
  have s: "split_on (CHR '','') (join_with '','' ?ids) = ?ids"
    using p False by (intro split_on_join) auto
  have m: "map TrimSpace ?ids = ?ids" using p by (intro map_idI TrimSpace_printable) blast
  have f: "\<forall>x\<in>set ?ids. x \<noteq> [] \<and> x \<noteq> ''all''" by (auto simp: SABNZOID_def)
  show ?thesis unfolding splitCSV_def split_list_def t s m using f by (simp add: filter_id_conv del: set_map)
qed

text \<open>
  C22. A client deletes what it was shown: when the identifiers of jobs, as the queue and the history
  print them, come back in a delete request with a valid key, the answer repeats them, no file is
  touched, no job without one of the identifiers changes, and every job with one that is active is
  pending removal afterwards; of the others, only failed jobs can be marked.
\<close>

theorem deletion_reaches_listed:
  assumes "audited (fst s)" and "has_key srv rq" and "sab_mode rq \<in> {''queue'', ''history''}" and "body_error rq = None"
    and "ToLower (TrimSpace (firstNonEmpty (both (sab_form rq) rq ''name''))) = ''delete''"
    and "firstNonEmpty (both (sab_form rq) rq ''value'') = join_with '','' (map SABNZOID pids)"
    and "\<forall>i\<in>set pids. \<forall>c\<in>set i. printable c \<and> c \<noteq> CHR '',''"
    and "handleSABAPI srv rnd now s rq = (resp, s')"
  shows "rsBody resp = JDeleted (map SABNZOID pids) \<and> snd s' = snd s \<and> audited (fst s') \<and>
    (\<forall>k row. GetJobByID (fst s) k = Some row \<longrightarrow>
       (if jPublicID row \<notin> set pids \<or> jState row \<in> {StateRemoved, StateRemovePending} then GetJobByID (fst s') k = Some row
        else if active row then state_of (fst s') k = Some StateRemovePending
        else state_of (fst s') k \<in> {Some (jState row), Some StateRemovePending}))"
proof -
  have allow: "Allow (vKeys srv) (sab_mode rq) (sab_key rq)" using assms(2) by (simp add: Allow_iff has_key_def)
  have norm: "map NormalizeSABNZOID (map SABNZOID pids) = pids" by (simp add: o_def)
  have out: "handleSABAPI srv rnd now s rq =
      (reply 200 (JDeleted (map SABNZOID pids)), snd (mark_all now (fst s) pids), snd s)"
    using assms(3-6) splitCSV_ids [OF assms(7)] norm
    by (auto simp: handleSABAPI_def allow Let_def handleSABDeleteFromQueue_def handleSABDeleteFromHistory_def)
  have m: "marks (set pids) (fst s) (snd (mark_all now (fst s) pids))" by (rule mark_all_marks [OF assms(1)])
  have aud: "audited (snd (mark_all now (fst s) pids))" using m assms(1) by (simp add: marks_def)
  have rows: "if jPublicID row \<notin> set pids \<or> jState row \<in> {StateRemoved, StateRemovePending}
        then GetJobByID (snd (mark_all now (fst s) pids)) k = Some row
        else if active row then state_of (snd (mark_all now (fst s) pids)) k = Some StateRemovePending
        else state_of (snd (mark_all now (fst s) pids)) k \<in> {Some (jState row), Some StateRemovePending}"
    if r: "GetJobByID (fst s) k = Some row" for k row
  proof -
    have "GetJobByID (snd (mark_all now (fst s) pids)) k = Some row"
      if "jPublicID row \<notin> set pids \<or> jState row \<in> {StateRemoved, StateRemovePending}"
      using m that r unfolding marks_def by (metis option.inject)
    moreover have "state_of (snd (mark_all now (fst s) pids)) k = Some StateRemovePending" if "active row" "jPublicID row \<in> set pids"
      by (rule mark_all_active [OF assms(1) r that])
    moreover have "state_of (snd (mark_all now (fst s) pids)) k \<in> {Some (jState row), Some StateRemovePending}"
      using state_after_marks [OF m, of k] r by (auto simp: state_of_def)
    ultimately show ?thesis by auto
  qed
  have e: "resp = reply 200 (JDeleted (map SABNZOID pids))" "s' = (snd (mark_all now (fst s) pids), snd s)"
    using assms(8) unfolding out by simp_all
  show ?thesis unfolding e fst_conv snd_conv public_reply
    by (intro conjI allI impI refl aud rows)
qed

theorem deletion_reaches_listed_witness:
  "\<exists>resp s'. handleSABAPI sample_server (\<lambda>_ _. Inr ''ab'') 5 (sample_failed, sample_tree)
      (sample_rq ''GET'' ''/api'' [(''mode'', ''queue''), (''name'', ''delete''), (''value'', ''TBOX-pb''), (''apikey'', ''k1'')]) = (resp, s') \<and>
     rsBody resp = JDeleted [''TBOX-pb''] \<and> state_of (fst s') ''b'' = Some StateRemovePending"
proof -
  let ?s = "(sample_failed, sample_tree)"
  let ?rq = "sample_rq ''GET'' ''/api'' [(''mode'', ''queue''), (''name'', ''delete''), (''value'', ''TBOX-pb''), (''apikey'', ''k1'')]"
  let ?out = "handleSABAPI sample_server (\<lambda>_ _. Inr ''ab'') 5 ?s ?rq"
  have a: "audited (fst ?s)"
    unfolding sample_failed_def fst_conv by (intro CreateJob_audited(1) empty_store_audited)
  have k: "has_key sample_server ?rq" by code_simp
  have mode: "sab_mode ?rq = ''queue''" by code_simp
  have be: "body_error ?rq = None" by code_simp
  have nm: "ToLower (TrimSpace (firstNonEmpty (both (sab_form ?rq) ?rq ''name''))) = ''delete''" by code_simp
  have val: "firstNonEmpty (both (sab_form ?rq) ?rq ''value'') = join_with '','' (map SABNZOID [''pb''])" by code_simp
  have pr: "\<forall>i\<in>set [''pb'']. \<forall>c\<in>set i. printable c \<and> c \<noteq> CHR '',''" by code_simp
  have "map_option (\<lambda>j. (jPublicID j, jState j)) (GetJobByID sample_failed ''b'') = Some (''pb'', StateRemoteActive)" by code_simp
  then obtain row where row: "GetJobByID (fst ?s) ''b'' = Some row" "jPublicID row = ''pb''" "jState row = StateRemoteActive" by auto
  have act: "active row" using row(3) by (simp add: active_iff)
  have run: "?out = (fst ?out, snd ?out)" by simp
  have "sab_mode ?rq \<in> {''queue'', ''history''}" using mode by simp
  from deletion_reaches_listed [OF a k this be nm val pr run] row act
  have "rsBody (fst ?out) = JDeleted (map SABNZOID [''pb'']) \<and> state_of (fst (snd ?out)) ''b'' = Some StateRemovePending"
    by (auto split: if_splits)
  then show ?thesis by (intro exI [of _ "fst ?out"] exI [of _ "snd ?out"]) (simp add: SABNZOID_def)
qed

end
