(* ===== verification/Pipeline.thy ===== *)
theory Pipeline
  imports Api_Access Orchestrator Submitter Poller Downloader_Facts Finalizer Remover
begin

text \<open>
  The program as a whole: clients, the rounds of the six workers and restarts take turns on one
  database and one file tree. The state machine that the README draws is the abstract specification
  of a job's life; every step refines it.

  A round of a worker is one step here. The program interleaves rounds with requests; a worker
  writes the snapshot it claimed, so a request that falls into its round may be overwritten: see
  \<open>stale_write_loses_removal\<close>.
\<close>

section \<open>Steps\<close>

datatype actor = Client | SubmitRound | PollRound | DownloadRound | FinalizeRound | RemoveRound | PruneRound | Restart

inductive step :: "server \<Rightarrow> orchestrator \<Rightarrow> state \<Rightarrow> actor \<Rightarrow> state \<Rightarrow> bool" for srv :: server and orc :: orchestrator where
  request: "Router srv rnd now s rq = (resp, s') \<Longrightarrow> step srv orc s Client s'"
| submit: "step srv orc s SubmitRound (runSubmitter orc tb now r (fst s), snd s)"
| poll: "step srv orc s PollRound (runPoller orc tb now r (fst s), snd s)"
| download: "step srv orc s DownloadRound (runDownloader orc tb http now clock s)"
| finalize: "step srv orc s FinalizeRound (runFinalizer orc now s)"
| remove: "step srv orc s RemoveRound (runRemover orc now s)"
| prune: "step srv orc s PruneRound (runPruner orc now (fst s), snd s)"
| restart: "step srv orc s Restart (snd (reconcileStartup orc now s))"

inductive_cases stepE: "step srv orc s a s'"

section \<open>The state machine\<close>

text \<open>Where a job may go from a state, by who acts.\<close>

definition allowed :: "actor \<Rightarrow> job_state \<Rightarrow> job_state set" where
  "allowed a s =
     (case a of
        Client \<Rightarrow> if s \<in> {StateRemoved, StateRemovePending} then {} else {StateRemovePending}
      | SubmitRound \<Rightarrow> if s \<in> {StateSubmitPending, StateSubmitRetry}
          then {StateSubmitRetry, StateRemoteFailed, StateRemoteActive, StateRemoteQueued} else {}
      | PollRound \<Rightarrow> if s \<in> {StateRemoteQueued, StateRemoteActive}
          then {StateRemoteActive, StateLocalDownloadPending, StateRemoteFailed} else {}
      | DownloadRound \<Rightarrow> if s \<in> {StateLocalDownloadPending, StateLocalDownloading}
          then {StateFailed, StateLocalDownloading, StateLocalVerify} else {}
      | FinalizeRound \<Rightarrow> if s = StateLocalVerify then {StateFailed, StateLocalDownloading, StateCompleted} else {}
      | RemoveRound \<Rightarrow> if s = StateRemovePending then {StateFailed, StateRemoved} else {}
      | PruneRound \<Rightarrow> {}
      | Restart \<Rightarrow> if s \<in> {StateRemoteFailed, StateRemoved, StateFailed} then {}
          else if s \<in> {StateLocalDownloadPending, StateLocalDownloading} then {StateLocalVerify, StateCompleted}
          else {StateCompleted})"

text \<open>
  One move of the machine; \<open>None\<close> is a job that is not there. A job comes into being pending
  submission, and goes only when it has been removed.
\<close>

fun move :: "actor \<Rightarrow> job_state option \<Rightarrow> job_state option \<Rightarrow> bool" where
  "move a None None = True"
| "move a None (Some t) = (a = Client \<and> t = StateSubmitPending)"
| "move a (Some s) None = (a = PruneRound \<and> s = StateRemoved)"
| "move a (Some s) (Some t) = (t = s \<or> t \<in> allowed a s)"

section \<open>Rows neither come nor go in a round\<close>

interpretation present: write_contract "\<lambda>st. job_exists st k = v" "\<lambda>_ _. True" "\<lambda>_. True" "\<lambda>_. True"
  for k :: string and v :: bool
proof unfold_locales
  fix st now s m e st' and job job' :: job
  assume *: "job_exists st k = v" "UpdateJobState st now job s m = (e, job', st')"
  then show "job_exists st' k = v \<and> (e = nil \<longrightarrow> True)"
    by (simp add: UpdateJobState_storeI(1) [OF *(2)] store_simps)
qed (simp_all add: store_simps)

lemma mark_claimed_id [simp]: "jID (mark_claimed w now ids r) = jID r"
  by (simp add: mark_claimed_def)

lemma round_present:
  assumes "audited st" and c: "ClaimJobsDue st w states now n = (jobs, store_of s)"
    and keep: "\<And>s j. jState j \<in> set states \<Longrightarrow> job_exists (store_of (f s j)) k = job_exists (store_of s) k"
    and frame: "\<And>s j k. jID j \<noteq> k \<Longrightarrow> jState j \<in> set states \<Longrightarrow> GetJobByID (store_of (f s j)) k = GetJobByID (store_of s) k"
  shows "job_exists (store_of (for_each f s jobs)) k = job_exists st k"
proof -
  note b = ClaimJobsDue_batch [OF assms(1) c]
  have "store_of s = snd (ClaimJobsDue st w states now n)" using c by simp
  then have "job_exists (store_of s) k = job_exists st k"
    using job_exists_map [of "mark_claimed w now ids" for ids] by (simp add: ClaimJobsDue_store mark_claimed_id)
  with b(2,4) show ?thesis
    by (intro present.for_each_keeps [where store_of = store_of and states = "set states", OF _ frame]) (auto simp: keep)
qed

lemma moves_refine:
  assumes "moves S T st st'" and "job_exists st' k = job_exists st k" and "\<And>s t. s \<in> S \<Longrightarrow> t \<in> T \<Longrightarrow> t \<in> allowed a s"
  shows "move a (state_of st k) (state_of st' k)"
proof (cases "GetJobByID st k")
  case None
  with assms(2) have "GetJobByID st' k = None" by (simp add: job_exists_iff_find)
  with None show ?thesis by (simp add: state_of_def)
next
  case (Some row)
  with assms(2) obtain row' where row': "GetJobByID st' k = Some row'" by (auto simp: job_exists_iff_find)
  have "state_in st' k (if jState row \<in> S then insert (jState row) T else {jState row})"
    using assms(1) Some by (simp add: moves_def)
  with row' assms(3) [of "jState row"] Some show ?thesis by (auto simp: state_of_def state_in_def split: if_splits)
qed

section \<open>Each round\<close>

lemma runSubmitter_present: "audited st \<Longrightarrow> job_exists (runSubmitter orc tb now r st) k = job_exists st k"
proof -
  assume a: "audited st"
  obtain jobs st' where c: "ClaimJobsDue st ''submitter'' [StateSubmitPending, StateSubmitRetry] now (BatchSize (oWorkers orc)) = (jobs, st')"
    by fastforce
  have "job_exists (for_each (\<lambda>st job. ReleaseJobClaim (snd (processSubmitJob orc (tb job) now (r job) st job)) (jID job)) st' jobs) k =
      job_exists st k"
    by (rule round_present [where store_of = "\<lambda>st. st", OF a c])
       (simp add: store_simps present.processSubmitJob_keeps, rule release_frame, rule submit_frame, simp_all)
  then show ?thesis by (simp add: runSubmitter_def c)
qed

lemma runPoller_present: "audited st \<Longrightarrow> job_exists (runPoller orc tb now r st) k = job_exists st k"
proof -
  assume a: "audited st"
  obtain jobs st' where c: "ClaimJobsDue st ''poller'' [StateRemoteQueued, StateRemoteActive] now (BatchSize (oWorkers orc)) = (jobs, st')"
    by fastforce
  have "job_exists (for_each (\<lambda>st job. ReleaseJobClaim (snd (processPollJob orc (tb job) now (r job) st job)) (jID job)) st' jobs) k =
      job_exists st k"
    by (rule round_present [where store_of = "\<lambda>st. st", OF a c])
       (simp add: store_simps present.processPollJob_keeps, rule release_frame, rule poll_frame, simp_all)
  then show ?thesis by (simp add: runPoller_def c)
qed

lemma runDownloader_present: "audited st \<Longrightarrow> job_exists (fst (runDownloader orc tb http now clock (st, fs))) k = job_exists st k"
proof -
  assume a: "audited st"
  obtain jobs st' where c: "ClaimJobsDue st ''downloader'' [StateLocalDownloadPending, StateLocalDownloading] now (BatchSize (oWorkers orc)) = (jobs, fst (st', fs))"
    by fastforce
  have "job_exists (fst (for_each (download_step orc tb http clock) (st', fs) jobs)) k = job_exists st k"
    by (rule round_present [where store_of = fst, OF a c])
       (simp add: download_step_store store_simps present.processDownloadJob_keeps, simp only: download_step_store, rule release_frame, rule download_frame, simp_all)
  with c show ?thesis by (simp add: runDownloader_def)
qed

lemma runFinalizer_present: "audited st \<Longrightarrow> job_exists (fst (runFinalizer orc now (st, fs))) k = job_exists st k"
proof -
  assume a: "audited st"
  obtain jobs st' where c: "ClaimJobsDue st ''finalizer'' [StateLocalVerify] now (BatchSize (oWorkers orc)) = (jobs, fst (st', fs))"
    by fastforce
  have "job_exists (fst (for_each (finalize_step orc now) (st', fs) jobs)) k = job_exists st k"
    by (rule round_present [where store_of = fst, OF a c])
       (simp add: finalize_step_store store_simps present.processFinalizeJob_keeps, simp only: finalize_step_store, rule release_frame, rule finalize_frame, simp_all)
  with c show ?thesis by (simp add: runFinalizer_def)
qed

lemma runRemover_present: "audited st \<Longrightarrow> job_exists (fst (runRemover orc now (st, fs))) k = job_exists st k"
proof -
  assume a: "audited st"
  obtain jobs st' where c: "ClaimJobsDue st ''remover'' [StateRemovePending] now (BatchSize (oWorkers orc)) = (jobs, fst (st', fs))"
    by fastforce
  have "job_exists (fst (for_each (remove_step orc now) (st', fs) jobs)) k = job_exists st k"
    by (rule round_present [where store_of = fst, OF a c])
       (simp add: remove_step_store store_simps present.processRemoveJob_keeps, simp only: remove_step_store, rule release_frame, rule remove_frame, simp_all)
  with c show ?thesis by (simp add: runRemover_def)
qed

lemma runPruner_facts:
  assumes "audited st"
  shows "audited (runPruner orc now st)" and "move PruneRound (state_of st k) (state_of (runPruner orc now st) k)"
proof -
  let ?st1 = "snd (DeleteRemovedOlderThan st (now - RemovedRetention (oWorkers orc)))"
  have p: "runPruner orc now st = snd (PruneExpiredQBitSessions ?st1 now)"
    by (simp add: runPruner_def Let_def split: prod.split)
  have a1: "audited ?st1" by (rule DeleteRemovedOlderThan_audited [OF assms])
  then show a: "audited (runPruner orc now st)" unfolding p
    by (intro audited_sessions [OF a1] session_writes_wf) (simp_all add: audited_def PruneExpiredQBitSessions_def)
  have set: "set (sJobs (runPruner orc now st)) = {j \<in> set (sJobs st). \<not> prunable (now - RemovedRetention (oWorkers orc)) j}"
    unfolding p by (auto simp: DeleteRemovedOlderThan_def PruneExpiredQBitSessions_def delete_jobs_def)
  have d: "distinct (map jID (sJobs st))" "distinct (map jID (sJobs (runPruner orc now st)))"
    using a assms by (auto simp: audited_def dest: store_wfD(1))
  show "move PruneRound (state_of st k) (state_of (runPruner orc now st) k)"
  proof (cases "GetJobByID (runPruner orc now st) k")
    case None
    show ?thesis
    proof (cases "GetJobByID st k")
      case (Some row)
      then have row: "row \<in> set (sJobs st)" "jID row = k" using GetJobByID_SomeD by auto
      have "row \<notin> set (sJobs (runPruner orc now st))" using GetJobByID_unique [OF d(2), of row] None row(2) by auto
      then have "jState row = StateRemoved" using row(1) unfolding set prunable_def by simp
      with Some None show ?thesis by (simp add: state_of_def)
    qed (simp add: state_of_def None)
  next
    case (Some row)
    then have "row \<in> set (sJobs st)" "jID row = k" using GetJobByID_SomeD [OF Some] unfolding set by auto
    then have "GetJobByID st k = Some row" using GetJobByID_unique [OF d(1)] by auto
    with Some show ?thesis by (simp add: state_of_def)
  qed
qed

lemma restart_facts:
  assumes "audited st"
  shows "move Restart (state_of st k) (state_of (fst (snd (reconcileStartup orc now (st, fs)))) k)"
proof -
  let ?r = "reconcileStartup orc now (st, fs)"
  have r: "?r = (fst ?r, fst (snd ?r), snd (snd ?r))" by simp
  have jobs: "fst (snd ?r) = for_each (reconcile_job orc now fs) (ReleaseAllClaims st) (ListOpenJobs (ReleaseAllClaims st))"
    by (simp add: reconcileStartup_def Let_def split: prod.split)
  show ?thesis
  proof (cases "GetJobByID st k")
    case None
    have a: "store_wf (ReleaseAllClaims st)" using ReleaseAllClaims_audited [OF assms] by (simp add: audited_def)
    have "job_exists (fst (snd ?r)) k = job_exists (ReleaseAllClaims st) k" unfolding jobs
      by (rule present.for_each_keeps [where store_of = "\<lambda>s. s" and states = UNIV])
         (simp_all add: present.reconcile_job_keeps reconcile_frame ListOpenJobs_batch(1) [OF a])
    also have "\<dots> = job_exists st k" by (simp add: ReleaseAllClaims_def job_exists_map unclaimed_def)
    finally show ?thesis using None by (simp add: job_exists_iff_find state_of_def)
  next
    case (Some job)
    note s = startup_row [OF assms r Some]
    from s(1) obtain row where row: "GetJobByID (fst (snd ?r)) k = Some row" "reconciled fs (ListTransferParts st k) job row" by blast
    show ?thesis
    proof (cases "jState job \<in> {StateRemoteFailed, StateRemoved, StateFailed}")
      case True
      with s(3) row(1) Some show ?thesis by (simp add: state_in_def state_of_def)
    next
      case False
      with row Some show ?thesis by (auto simp: state_of_def reconciled_def allowed_def)
    qed
  qed
qed

lemma client_move:
  assumes "client_effect st st'"
  shows "move Client (state_of st k) (state_of st' k)"
proof (cases "adds st st'")
  case True
  show ?thesis
  proof (cases "GetJobByID st k")
    case None
    with True have "state_of st' k \<in> {None, Some StateSubmitPending}" by (simp add: adds_def)
    with None show ?thesis by (auto simp: state_of_def)
  next
    case (Some row)
    with True have "GetJobByID st' k = Some row" by (simp add: adds_def)
    with Some show ?thesis by (simp add: state_of_def)
  qed
next
  case False
  then have m: "marks UNIV st st'" using assms by (simp add: client_effect_def)
  then consider "GetJobByID st' k = GetJobByID st k" | row row' where "GetJobByID st k = Some row"
      "jState row \<notin> {StateRemoved, StateRemovePending}" "GetJobByID st' k = Some row'" "jState row' = StateRemovePending"
    unfolding marks_def by blast
  then show ?thesis
  proof cases
    case 1
    then have "state_of st' k = state_of st k" by (simp add: state_of_def)
    then show ?thesis by (cases "state_of st k") simp_all
  next
    case 2
    then show ?thesis by (simp add: state_of_def allowed_def)
  qed
qed

lemma client_effect_audited: "client_effect st st' \<Longrightarrow> audited st \<Longrightarrow> audited st'"
  by (auto simp: client_effect_def adds_def marks_def)

lemma step_refines:
  assumes "step srv orc s a s'" and "audited (fst s)"
  shows "audited (fst s') \<and> move a (state_of (fst s) k) (state_of (fst s') k)"
proof -
  obtain st fs where s: "s = (st, fs)" by (rule prod.exhaust)
  have st: "audited st" using assms(2) s by simp
  from assms(1) show ?thesis
  proof (cases rule: step.cases)
    case (request rnd now rq resp)
    with Router_effect [OF assms(2), of srv rnd now rq] have "client_effect (fst s) (fst s')" by simp
    with client_move client_effect_audited assms(2) request(1) show ?thesis by blast
  next
    case submit
    then show ?thesis using runSubmitter_facts [OF st] moves_refine [OF runSubmitter_facts(2) [OF st] runSubmitter_present [OF st]]
      by (simp add: s allowed_def)
  next
    case poll
    then show ?thesis using runPoller_facts [OF st] moves_refine [OF runPoller_facts(2) [OF st] runPoller_present [OF st]]
      by (simp add: s allowed_def)
  next
    case download
    then show ?thesis using runDownloader_facts [OF st] moves_refine [OF runDownloader_facts(2) [OF st] runDownloader_present [OF st]]
      by (simp add: s allowed_def)
  next
    case finalize
    then show ?thesis using runFinalizer_facts [OF st] moves_refine [OF runFinalizer_facts(2) [OF st] runFinalizer_present [OF st]]
      by (simp add: s allowed_def)
  next
    case remove
    then show ?thesis using runRemover_facts [OF st] moves_refine [OF runRemover_facts(2) [OF st] runRemover_present [OF st]]
      by (simp add: s allowed_def)
  next
    case prune
    then show ?thesis using runPruner_facts [OF st] by (simp add: s)
  next
    case restart
    then show ?thesis using restart_facts [OF st] reconcile_audited [OF st] by (simp add: s)
  qed
qed

section \<open>Runs\<close>

text \<open>A run of the program from a state, and the run of the machine that one job sees of it.\<close>

fun program_run :: "server \<Rightarrow> orchestrator \<Rightarrow> state \<Rightarrow> (actor \<times> state) list \<Rightarrow> bool" where
  "program_run srv orc s [] = True"
| "program_run srv orc s ((a, s') # tr) = (step srv orc s a s' \<and> program_run srv orc s' tr)"

fun machine_run :: "job_state option \<Rightarrow> (actor \<times> job_state option) list \<Rightarrow> bool" where
  "machine_run x [] = True"
| "machine_run x ((a, y) # tr) = (move a x y \<and> machine_run y tr)"

definition seen_by :: "string \<Rightarrow> (actor \<times> state) list \<Rightarrow> (actor \<times> job_state option) list" where
  "seen_by k tr = map (\<lambda>(a, s). (a, state_of (fst s) k)) tr"

lemma seen_by_simps [simp]:
  "seen_by k [] = []" "seen_by k ((a, s) # tr) = (a, state_of (fst s) k) # seen_by k tr"
  "seen_by k (xs @ ys) = seen_by k xs @ seen_by k ys"
  by (simp_all add: seen_by_def)

lemma run_refines:
  "program_run srv orc s tr \<Longrightarrow> audited (fst s) \<Longrightarrow>
   machine_run (state_of (fst s) k) (seen_by k tr) \<and> (\<forall>(a, t)\<in>set tr. audited (fst t))"
proof (induction tr arbitrary: s)
  case (Cons x tr)
  obtain a s' where x: "x = (a, s')" by (rule prod.exhaust)
  with Cons.prems have st: "step srv orc s a s'" "program_run srv orc s' tr" by simp_all
  from step_refines [OF st(1) Cons.prems(2), of k] Cons.IH [OF st(2)] show ?case by (auto simp: x)
qed simp

text \<open>The last time a run of the machine enters a state.\<close>

lemma machine_run_snoc:
  "machine_run x (tr @ [(a, y)]) \<longleftrightarrow> machine_run x tr \<and> move a (last (x # map snd tr)) y"
  by (induction x tr rule: machine_run.induct) auto

lemma last_entry:
  "machine_run x tr \<Longrightarrow> last (x # map snd tr) = t \<Longrightarrow> x \<noteq> t \<Longrightarrow>
   \<exists>before a after. tr = before @ (a, t) # after \<and> last (x # map snd before) \<noteq> t \<and>
     move a (last (x # map snd before)) t \<and> (\<forall>p\<in>set after. snd p = t)"
proof (induction tr rule: rev_induct)
  case (snoc p tr)
  obtain a y where p: "p = (a, y)" by (rule prod.exhaust)
  with snoc.prems have y: "y = t" and m: "machine_run x tr" "move a (last (x # map snd tr)) t"
    by (simp_all add: machine_run_snoc)
  show ?case
  proof (cases "last (x # map snd tr) = t")
    case True
    from snoc.IH [OF m(1) True snoc.prems(3)] obtain before b after where
      "tr = before @ (b, t) # after" "last (x # map snd before) \<noteq> t" "move b (last (x # map snd before)) t" "\<forall>p\<in>set after. snd p = t"
      by blast
    then show ?thesis by (intro exI [of _ before] exI [of _ b] exI [of _ "after @ [p]"]) (simp add: p y)
  next
    case False
    with m(2) show ?thesis by (intro exI [of _ tr] exI [of _ a] exI [of _ "[]"]) (simp add: p y)
  qed
qed simp

definition last_state :: "state \<Rightarrow> (actor \<times> state) list \<Rightarrow> state" where
  "last_state s tr = last (s # map snd tr)"

lemma last_seen: "last (state_of (fst s) k # map snd (seen_by k tr)) = state_of (fst (last_state s tr)) k"
  by (induction tr arbitrary: s) (auto simp: last_state_def)

text \<open>Who takes a job into a state, and from where.\<close>

definition entered_rightly :: "job_state \<Rightarrow> actor \<Rightarrow> job_state option \<Rightarrow> bool" where
  "entered_rightly t a x =
     (case t of
        StateAccepted \<Rightarrow> False
      | StateSubmitPending \<Rightarrow> a = Client \<and> x = None
      | StateSubmitRetry \<Rightarrow> a = SubmitRound \<and> x = Some StateSubmitPending
      | StateRemoteQueued \<Rightarrow> a = SubmitRound \<and> x \<in> {Some StateSubmitPending, Some StateSubmitRetry}
      | StateRemoteActive \<Rightarrow> (a, x) \<in> {(SubmitRound, Some StateSubmitPending), (SubmitRound, Some StateSubmitRetry), (PollRound, Some StateRemoteQueued)}
      | StateLocalDownloadPending \<Rightarrow> a = PollRound \<and> x \<in> {Some StateRemoteQueued, Some StateRemoteActive}
      | StateLocalDownloading \<Rightarrow> (a, x) \<in> {(DownloadRound, Some StateLocalDownloadPending), (FinalizeRound, Some StateLocalVerify)}
      | StateLocalVerify \<Rightarrow> a \<in> {DownloadRound, Restart} \<and> x \<in> {Some StateLocalDownloadPending, Some StateLocalDownloading}
      | StateCompleted \<Rightarrow> a = FinalizeRound \<and> x = Some StateLocalVerify \<or> a = Restart
      | StateRemovePending \<Rightarrow> a = Client
      | StateRemoved \<Rightarrow> a = RemoveRound \<and> x = Some StateRemovePending
      | StateRemoteFailed \<Rightarrow> a \<in> {SubmitRound, PollRound}
      | StateFailed \<Rightarrow> a \<in> {DownloadRound, FinalizeRound, RemoveRound})"

lemma move_entered: "move a x (Some t) \<Longrightarrow> x \<noteq> Some t \<Longrightarrow> entered_rightly t a x"
  by (cases x; cases a; cases t) (auto simp: allowed_def entered_rightly_def split: if_splits)

section \<open>A run from the first request to the last file\<close>

text \<open>
  A client adds a link, the submitter creates the task, the poller finds it ready, the downloader
  gets five bytes, the finalizer moves them to the completed directory.
\<close>

definition whole_http :: http_client where
  "whole_http = \<lparr>hcNewRequest = \<lambda>_. nil,
     hcDo = \<lambda>_ _. Inr \<lparr>rsStatusCode = 200, rsContentLength = 5, rsContentRange = [], rsETag = [],
       rsReads = [''abc'', ''de''], rsEnd = nil\<rparr>\<rparr>"

definition ready_service :: torbox_client where
  "ready_service = (links_to ''f.mkv'')\<lparr>
     CreateUsenetTask := \<lambda>_. Inr (Some \<lparr>crRemoteID = ''7'', crQueuedID = [], crQueueAuthID = [], crRemoteHash = [], crDisplayName = []\<rparr>),
     GetTaskStatus := \<lambda>_ _. Inr (Some sample_status)\<rparr>"

definition add_request :: request where
  "add_request = sample_rq ''GET'' ''/api'' [(''mode'', ''addurl''), (''apikey'', ''k1''), (''name'', ''http://n/x.nzb''),
     (''nzbname'', ''Show''), (''cat'', ''tv'')]"

definition run_0 :: state where
  "run_0 = (empty_store, sample_tree)"

definition run_1 :: state where
  "run_1 = snd (Router sample_server (\<lambda>_ _. Inr ''ab'') (7 * second) run_0 add_request)"

definition run_2 :: state where
  "run_2 = (runSubmitter sample_orc (\<lambda>_. ready_service) (8 * second) (\<lambda>_. 0) (fst run_1), snd run_1)"

definition run_3 :: state where
  "run_3 = (runPoller sample_orc (\<lambda>_. ready_service) (60 * second) (\<lambda>_. 0) (fst run_2), snd run_2)"

definition run_4 :: state where
  "run_4 = runDownloader sample_orc (\<lambda>_. ready_service) (\<lambda>_. whole_http) (61 * second) (\<lambda>_ _. 61 * second) run_3"

definition run_5 :: state where
  "run_5 = runFinalizer sample_orc (62 * second) run_4"

definition sample_run :: "(actor \<times> state) list" where
  "sample_run = [(Client, run_1), (SubmitRound, run_2), (PollRound, run_3), (DownloadRound, run_4), (FinalizeRound, run_5)]"

lemma sample_run_ok: "program_run sample_server sample_orc run_0 sample_run"
  unfolding sample_run_def program_run.simps
proof (intro conjI TrueI)
  show "step sample_server sample_orc run_0 Client run_1" unfolding run_1_def by (rule step.request [OF prod.collapse [symmetric]])
  show "step sample_server sample_orc run_1 SubmitRound run_2" unfolding run_2_def by (rule step.submit)
  show "step sample_server sample_orc run_2 PollRound run_3" unfolding run_3_def by (rule step.poll)
  show "step sample_server sample_orc run_3 DownloadRound run_4" unfolding run_4_def by (rule step.download)
  show "step sample_server sample_orc run_4 FinalizeRound run_5" unfolding run_5_def by (rule step.finalize)
qed

lemma run_0_facts: "audited (fst run_0)" "state_of (fst run_0) k = None"
  by (simp_all add: run_0_def empty_store_audited) (simp add: state_of_def GetJobByID_def empty_store_def)

text \<open>The kernel evaluates the whole run: the job is completed and its file is in place.\<close>

lemma sample_run_completes:
  "(state_of (fst run_5) ''6162'', node_at (snd run_5) [''data'', ''completed'', ''tv'', ''Show-6162'', ''f.mkv'']) =
     (Some StateCompleted, Some (FileNode ''abcde''))"
  by code_simp

text \<open>
  Interleaving below the level of rounds loses updates: a removal that a client requests while the
  poller works on the job is overwritten by the snapshot that the poller holds.
\<close>

lemma stale_write_loses_removal:
  "state_of (snd (markRemovePending 3 (sample_store StateRemoteActive) ''p'')) ''0a1b'' = Some StateRemovePending \<and>
   map_option (\<lambda>row. (jState row, jDeleteRequested row)) (GetJobByID (snd (processPollJob sample_orc silent 5 0
     (snd (markRemovePending 3 (sample_store StateRemoteActive) ''p'')) (sample_job StateRemoteActive))) ''0a1b'') =
     Some (StateRemoteActive, False)"
  by code_simp

section \<open>Properties\<close>





end
