(* ===== verification/Go_Parse_Time.thy ===== *)
theory Go_Parse_Time
  imports Go_Time "HOL-Library.Monad_Syntax"
begin

text \<open>
  Reading the stored instants back: \<open>parseTime\<close> of \<open>internal/store/store.go\<close>, which is
  \<open>time.Parse\<close> for the layout \<open>2006-01-02T15:04:05.999999999Z07:00\<close>. The parser below accepts what
  Go's does: an hour of one digit, a fraction after a comma and of any length, an offset from UTC.
  What \<open>formatTime\<close> writes is read back as the same instant.
\<close>

section \<open>The parser\<close>

text \<open>Each part takes its beginning off the text; \<open>None\<close> is an error.\<close>

definition getnum :: "bool \<Rightarrow> string \<Rightarrow> (int \<times> string) option" where
  "getnum fixed s =
     (case s of
        [] \<Rightarrow> None
      | c # r \<Rightarrow>
          (case digit c of
             None \<Rightarrow> None
           | Some a \<Rightarrow>
               (case r of
                  [] \<Rightarrow> if fixed then None else Some (a, r)
                | c' # r' \<Rightarrow>
                    (case digit c' of
                       None \<Rightarrow> if fixed then None else Some (a, r)
                     | Some b \<Rightarrow> Some (a * 10 + b, r')))))"

definition year_number :: "string \<Rightarrow> (int \<times> string) option" where
  "year_number s =
     (if length s < 4 then None else map_option (\<lambda>y. (y, drop 4 s)) (parse_digits 0 (take 4 s)))"

definition skip :: "char \<Rightarrow> string \<Rightarrow> string option" where
  "skip c s = (case s of [] \<Rightarrow> None | x # r \<Rightarrow> if x = c then Some r else None)"

definition in_range :: "int \<Rightarrow> int \<Rightarrow> int \<times> string \<Rightarrow> (int \<times> string) option" where
  "in_range lo hi p = (if lo \<le> fst p \<and> fst p \<le> hi then Some p else None)"

text \<open>The fraction in nanoseconds: nothing when there is none; digits after the ninth are dropped.\<close>

definition fraction :: "string \<Rightarrow> int \<times> string" where
  "fraction s =
     (case s of
        c # d # r \<Rightarrow>
          if c \<in> set ''.,'' \<and> digit d \<noteq> None
          then let ds = takeWhile (\<lambda>x. digit x \<noteq> None) (d # r); used = take 9 ds in
            ((case parse_digits 0 used of Some n \<Rightarrow> n * 10 ^ (9 - length used) | None \<Rightarrow> 0), drop (length ds) (d # r))
          else (0, s)
      | _ \<Rightarrow> (0, s))"

text \<open>The offset of the zone, in seconds.\<close>

definition zone_offset :: "string \<Rightarrow> (int \<times> string) option" where
  "zone_offset s =
     (if HasPrefix s ''Z'' then Some (0, tl s)
      else if length s < 6 \<or> s ! 3 \<noteq> CHR '':'' then None
      else do {
        (hr, _) \<leftarrow> getnum True (take 2 (drop 1 s)) \<bind> in_range 0 24;
        (mm, _) \<leftarrow> getnum True (take 2 (drop 4 s)) \<bind> in_range 0 60;
        if hd s = CHR ''+'' then Some ((hr * 60 + mm) * 60, drop 6 s)
        else if hd s = CHR ''-'' then Some (- ((hr * 60 + mm) * 60), drop 6 s)
        else None
      })"

text \<open>The day number of a date, and the instant of a date and a time of day in UTC.\<close>

definition days_of :: "int \<times> int \<times> int \<Rightarrow> int" where
  "days_of ymd = (case ymd of (y, m, d) \<Rightarrow>
     365 * (y - 1) + (y - 1) div 4 - (y - 1) div 100 + (y - 1) div 400 +
     sum_list (take (nat (m - 1)) (month_lengths y)) + d - 1)"

definition instant :: "int \<times> int \<times> int \<Rightarrow> int \<Rightarrow> int \<Rightarrow> time" where
  "instant ymd secs ns = ((days_of ymd - epoch_days) * 86400 + secs) * second + ns"

definition date_part :: "string \<Rightarrow> ((int \<times> int \<times> int) \<times> string) option" where
  "date_part s = do {
     (y, s) \<leftarrow> year_number s;
     s \<leftarrow> skip (CHR ''-'') s;
     (m, s) \<leftarrow> getnum True s \<bind> in_range 1 12;
     s \<leftarrow> skip (CHR ''-'') s;
     (d, s) \<leftarrow> getnum True s;
     Some ((y, m, d), s)
   }"

definition clock_part :: "string \<Rightarrow> (int \<times> string) option" where
  "clock_part s = do {
     (hh, s) \<leftarrow> getnum False s \<bind> in_range 0 23;
     s \<leftarrow> skip (CHR '':'') s;
     (mm, s) \<leftarrow> getnum True s \<bind> in_range 0 59;
     s \<leftarrow> skip (CHR '':'') s;
     (ss, s) \<leftarrow> getnum True s \<bind> in_range 0 59;
     Some (hh * 3600 + mm * 60 + ss, s)
   }"

definition month_days :: "int \<Rightarrow> int \<Rightarrow> int" where
  "month_days y m = month_lengths y ! nat (m - 1)"

definition Parse_RFC3339 :: "string \<Rightarrow> time option" where
  "Parse_RFC3339 s = do {
     ((y, m, d), s) \<leftarrow> date_part s;
     s \<leftarrow> skip (CHR ''T'') s;
     (secs, s) \<leftarrow> clock_part s;
     let (ns, s) = fraction s;
     (off, s) \<leftarrow> zone_offset s;
     if s \<noteq> [] \<or> d < 1 \<or> month_days y m < d then None
     else Some (instant (y, m, d) secs ns - off * second)
   }"

definition parseTime :: "(string \<Rightarrow> string) \<Rightarrow> string \<Rightarrow> go_error + time" where
  "parseTime quote v =
     (case Parse_RFC3339 v of
        Some t \<Rightarrow> Inr t
      | None \<Rightarrow> Inl (ErrWrap (''parse time '' @ quote v) (ErrText (''parsing time '' @ quote v))))"

lemma parse_examples:
  "Parse_RFC3339 ''2024-02-29T12:30:45.5Z'' = Some (1709209845 * second + 500000000)"
  "Parse_RFC3339 ''2024-02-29T14:30:45,500+02:00'' = Some (1709209845 * second + 500000000)"
  "Parse_RFC3339 ''1969-12-31T9:59:59.9999999999-14:00'' = Some (second - 1 - 2 * second + second)"
  "Parse_RFC3339 ''2023-02-29T00:00:00Z'' = None"
  "Parse_RFC3339 ''2024-02-29T24:00:00Z'' = None"
  "Parse_RFC3339 ''2024-02-29T12:30:45.5Z '' = None"
  "Parse_RFC3339 '''' = None"
  by code_simp+

section \<open>Parts of a text\<close>

text \<open>A part that is printed in front of a rest is read back, and the rest is left.\<close>

locale part_of_text =
  fixes wr :: "'a \<Rightarrow> string" and parse :: "string \<Rightarrow> ('a \<times> string) option" and ok :: "'a \<Rightarrow> bool"
  assumes part: "ok x \<Longrightarrow> parse (wr x @ rest) = Some (x, rest)"
begin

lemma step: "ok x \<Longrightarrow> parse (wr x @ rest) \<bind> f = f (x, rest)"
  by (simp add: part)

lemma whole: "ok x \<Longrightarrow> parse (wr x) = Some (x, [])"
  using part [of x "[]"] by simp

lemma injective: "ok x \<Longrightarrow> ok y \<Longrightarrow> wr x = wr y \<Longrightarrow> x = y"
  by (metis whole option.inject prod.inject)

end

lemma digit_char [simp]: "0 \<le> n \<Longrightarrow> n < 10 \<Longrightarrow> digit (char_of (48 + n)) = Some n"
  by (simp add: digit_def Let_def mod_pos_pos_trivial)

lemma fixed_digits_digit: "c \<in> set (fixed_digits w n) \<Longrightarrow> digit c \<noteq> None"
  by (induction w arbitrary: n) auto

lemma parse_digits_append:
  "parse_digits a (x @ y) = (case parse_digits a x of None \<Rightarrow> None | Some b \<Rightarrow> parse_digits b y)"
  by (induction x arbitrary: a) (auto split: option.split)

lemma parse_fixed_digits: "0 \<le> n \<Longrightarrow> n < 10 ^ w \<Longrightarrow> parse_digits 0 (fixed_digits w n) = Some n"
proof (induction w arbitrary: n)
  case (Suc w)
  then have "parse_digits 0 (fixed_digits w (n div 10)) = Some (n div 10)" by auto
  then show ?case by (simp add: parse_digits_append)
qed simp

lemma parse_zeros: "parse_digits a (replicate k (CHR ''0'')) = Some (a * 10 ^ k)"
proof -
  have z: "digit (CHR ''0'') = Some 0" by code_simp
  show ?thesis by (induction k arbitrary: a) (simp_all add: z ac_simps)
qed

interpretation two_digits: part_of_text "pad_digits 2" "getnum fixed" "\<lambda>n. 0 \<le> n \<and> n < 100" for fixed
proof (unfold_locales)
  fix n :: int and rest assume n: "0 \<le> n \<and> n < 100"
  then have p: "pad_digits 2 n = [char_of (48 + n div 10 mod 10), char_of (48 + n mod 10)]"
    using pad_digits_fixed [of n 1] by (simp add: numeral_eq_Suc)
  from n have "n div 10 mod 10 = n div 10" by (intro mod_pos_pos_trivial) auto
  with n show "getnum fixed (pad_digits 2 n @ rest) = Some (n, rest)"
    unfolding p by (simp add: getnum_def)
qed

interpretation year_text: part_of_text "pad_digits 4" year_number "\<lambda>y. 0 \<le> y \<and> y < 10000"
proof (unfold_locales)
  fix y :: int and rest assume y: "0 \<le> y \<and> y < 10000"
  then have p: "pad_digits 4 y = fixed_digits 4 y" using pad_digits_fixed [of y 3] by (simp add: numeral_eq_Suc)
  from y have "parse_digits 0 (fixed_digits 4 y) = Some y" by (intro parse_fixed_digits) auto
  then show "year_number (pad_digits 4 y @ rest) = Some (y, rest)" unfolding p by (simp add: year_number_def)
qed

lemma skip_Cons [simp]: "skip c (c # s) = Some s"
  by (simp add: skip_def)


section \<open>The round trip\<close>

lemma month_day_inverse:
  "month_day ls n = (m, k) \<Longrightarrow> 0 \<le> n \<Longrightarrow> n < sum_list ls \<Longrightarrow> \<forall>l\<in>set ls. 0 < l \<Longrightarrow>
     0 \<le> m \<and> 0 \<le> k \<and> k < ls ! nat m \<and> sum_list (take (nat m) ls) + k = n"
proof (induction ls arbitrary: n m k)
  case (Cons l ls)
  show ?case
  proof (cases "n < l")
    case True
    with Cons.prems show ?thesis by auto
  next
    case False
    obtain a b where a: "month_day ls (n - l) = (a, b)" by force
    have "0 \<le> a \<and> 0 \<le> b \<and> b < ls ! nat a \<and> sum_list (take (nat a) ls) + b = n - l"
      by (rule Cons.IH [OF a]) (use Cons.prems False in auto)
    moreover have "m = a + 1" "k = b" using Cons.prems(1) False a by auto
    ultimately show ?thesis by (simp add: nat_add_distrib)
  qed
qed simp

lemma days_of_civil:
  assumes c: "civil d = (y, m, k)" and "0 \<le> d"
  shows "days_of (y, m, k) = d" and "k \<le> month_days y m"
proof -
  obtain n where y: "year_yday d = (y, n)" using c by (auto simp: civil_def Let_def split: prod.splits)
  obtain m' k' where md: "month_day (month_lengths y) n = (m', k')" by force
  have mk: "m = m' + 1" "k = k' + 1" using c y md by (auto simp: civil_def)
  note b = year_yday_bounds [OF y assms(2)]
  note inv = month_day_inverse [OF md b(2,3) month_lengths_pos(1)]
  show "k \<le> month_days y m" using inv mk by (simp add: month_days_def)
  obtain a b1 where s1: "radix_step 3 36524 (d mod 146097) = (a, b1)" by force
  obtain e f where s2: "radix_step 24 1461 b1 = (e, f)" by force
  obtain g h where s3: "radix_step 3 365 f = (g, h)" by force
  have r: "0 \<le> d mod 146097" "d mod 146097 \<le> 36524 * (3 + 1)"
    by (auto intro: order_trans [OF less_imp_le [OF pos_mod_bound]])
  note B1 = radix_step_bounds [OF s1 r(1) _ _ r(2), simplified]
  have u: "b1 \<le> 1461 * (24 + 1)" using B1(5) by simp
  note B2 = radix_step_bounds [OF s2 B1(3) _ _ u(1), simplified]
  have v: "f \<le> 365 * (3 + 1)" using B2(7) B1(5) by simp
  note B3 = radix_step_bounds [OF s3 B2(3) _ _ v(1), simplified]
  define q where "q = d div 146097"
  have Y: "y - 1 = g + 4 * (e + 25 * (a + 4 * q))" and n: "n = h"
    using y by (simp_all add: year_yday_def Let_def s1 s2 s3 q_def)
  have div4: "(y - 1) div 4 = e + 25 * (a + 4 * q)" unfolding Y using B3(1,2) by simp
  have "(y - 1) div 100 = (y - 1) div 4 div 25" using zdiv_zmult2_eq [of 25 "y - 1" 4] by simp
  then have div100: "(y - 1) div 100 = a + 4 * q" unfolding div4 using B2(1,2) by simp
  have "(y - 1) div 400 = (y - 1) div 100 div 4" using zdiv_zmult2_eq [of 4 "y - 1" 100] by simp
  then have div400: "(y - 1) div 400 = q" unfolding div100 using B1(1,2) by simp
  have "d = 146097 * q + d mod 146097" by (simp add: q_def)
  then have d: "d = 146097 * q + 36524 * a + 1461 * e + 365 * g + n" using B1(4) B2(4) B3(4) n by simp
  have "nat (m - 1) = nat m'" using mk by simp
  then show "days_of (y, m, k) = d"
    unfolding days_of_def prod.case div4 div100 div400 using inv mk d Y by simp
qed

lemma fraction_text_read:
  assumes "0 \<le> ns" and "ns < second"
  shows "fraction (fraction_text ns @ ''Z'') = (ns, ''Z'')"
proof (cases "ns = 0")
  case True
  then show ?thesis by (simp add: fraction_text_def fraction_def)
next
  case False
  define u where "u = rev (dropWhile (\<lambda>c. c = CHR ''0'') (rev (fixed_digits 9 ns)))"
  define z where "z = takeWhile (\<lambda>c. c = CHR ''0'') (rev (fixed_digits 9 ns))"
  have split: "fixed_digits 9 ns = u @ rev z"
    unfolding u_def z_def by (simp only: rev_append [symmetric] takeWhile_dropWhile_id rev_rev_ident)
  have zero: "z = replicate (length z) (CHR ''0'')"
    by (rule replicate_eqI) (auto simp: z_def dest: set_takeWhileD)
  have len: "length u + length z = 9" using arg_cong [OF split, of length] by simp
  have all: "parse_digits 0 (u @ replicate (length z) (CHR ''0'')) = Some ns"
    using parse_fixed_digits [of ns 9] assms split zero rev_replicate [of "length z" "CHR ''0''"] by simp
  then obtain n where n: "parse_digits 0 u = Some n" "n * 10 ^ length z = ns"
    by (auto simp: parse_digits_append parse_zeros split: option.splits)
  have "u \<noteq> []" using n False by auto
  then obtain d r where u: "u = d # r" by (cases u) auto
  have dig: "\<forall>c\<in>set u. digit c \<noteq> None" using fixed_digits_digit [of _ 9 ns] split by simp
  have Z: "digit (CHR ''Z'') = None" by code_simp
  have tw: "takeWhile (\<lambda>x. digit x \<noteq> None) (u @ ''Z'') = u"
    using dig Z by (simp add: takeWhile_append2 takeWhile_append)
  have lz: "9 - length u = length z" and tk: "take 9 u = u" using len by simp_all
  have written: "fraction_text ns @ ''Z'' = CHR ''.'' # d # (r @ ''Z'')"
    using False unfolding fraction_text_def u_def [symmetric] u by simp
  have dd: "digit d \<noteq> None" "CHR ''.'' \<in> set ''.,''" using dig u by auto
  have ds: "takeWhile (\<lambda>x. digit x \<noteq> None) (d # (r @ ''Z'')) = u" "d # (r @ ''Z'') = u @ ''Z''"
    using tw u by simp_all
  have "fraction (CHR ''.'' # d # (r @ ''Z'')) =
      (case parse_digits 0 (take 9 u) of Some n \<Rightarrow> n * 10 ^ (9 - length (take 9 u)) | None \<Rightarrow> 0, drop (length u) (u @ ''Z''))"
    unfolding fraction_def list.case ds(1) Let_def using dd ds(2) by (simp only: simp_thms if_True)
  then show ?thesis unfolding written tk lz using n by simp
qed

text \<open>The parts of the text of an instant.\<close>

lemma date_part_read:
  assumes "civil d = (y, m, k)" and "0 \<le> d" and "d < 3652059"
  shows "date_part (date_text (civil d) @ rest) = Some ((y, m, k), rest)"
proof -
  note b = civil_bounds [OF assms(1,2)] and y = civil_year_le [OF assms]
  have r: "in_range 1 12 (m, s) = Some (m, s)" for s using b by (simp add: in_range_def)
  show ?thesis using b y
    by (simp add: date_part_def date_text_def assms(1) year_text.part two_digits.part r)
qed

lemma clock_part_read:
  assumes "0 \<le> s" and "s < 86400"
  shows "clock_part (clock_text s @ rest) = Some (s, rest)"
proof -
  have "s div 3600 \<le> 86399 div 3600" using assms by (intro zdiv_mono1) simp_all
  then have b: "0 \<le> s div 3600" "s div 3600 \<le> 23" using assms by simp_all
  have m: "x mod 60 \<le> 59" for x :: int using pos_mod_bound [of 60 x] by simp
  have "s div 60 = s div 60 div 60 * 60 + s div 60 mod 60" by simp
  moreover have "s div 60 div 60 = s div 3600" using zdiv_zmult2_eq [of 60 s 60] by simp
  moreover have "s = s div 60 * 60 + s mod 60" by simp
  ultimately have "s div 3600 * 3600 + s div 60 mod 60 * 60 + s mod 60 = s" by linarith
  with b m show ?thesis
    by (simp add: clock_part_def clock_text_def two_digits.part in_range_def)
qed

lemma parse_formatTime:
  assumes "time_ok t"
  shows "Parse_RFC3339 (formatTime t) = Some t"
proof -
  define secs where "secs = t div second"
  define d where "d = secs div 86400 + epoch_days"
  note b = time_ok_days [OF assms, folded secs_def, folded d_def]
  obtain y m k where c: "civil d = (y, m, k)" by (rule civil_cases)
  note days = days_of_civil [OF c b(1)] and cb = civil_bounds [OF c b(1)]
  have clock: "0 \<le> secs mod 86400" "secs mod 86400 < 86400" by simp_all
  have fr: "fraction (fraction_text (t mod second) @ ''Z'') = (t mod second, ''Z'')"
    by (rule fraction_text_read) simp_all
  have "(d - epoch_days) * 86400 + secs mod 86400 = secs" by (simp add: d_def)
  then have "instant (y, m, k) (secs mod 86400) (t mod second) = t"
    by (simp add: instant_def days(1) secs_def)
  moreover have "zone_offset ''Z'' = Some (0, [])" by code_simp
  ultimately show ?thesis
    unfolding formatTime_def seconds_text_def secs_def [symmetric] d_def [symmetric] append_assoc
    using clock cb days(2)
    by (simp add: Parse_RFC3339_def date_part_read [OF c b] clock_part_read fr)
qed

lemma formatTime_injective: "time_ok a \<Longrightarrow> time_ok b \<Longrightarrow> formatTime a = formatTime b \<Longrightarrow> a = b"
  by (metis parse_formatTime option.inject)

end
