(* ===== verification/Store_Rows.thy ===== *)
theory Store_Rows
  imports Store_Facts Go_Parse_Time Torbox_Json
begin

text \<open>
  The rows behind the store (\<open>internal/store/store.go\<close>, \<open>internal/store/migrations\<close>): the columns a
  job and a transfer part are written to, the scans that read them back, and the SQL statements
  over the columns. \<open>Store\<close> keeps the jobs themselves; this theory shows that its operations are
  what the statements do to the rows, and that the scans return what was written.

  A column of a table is a field of the row: TEXT is a string, INTEGER an integer, a column that may
  be NULL an option. The metadata column holds the JSON of a structure whose members with zero
  values are left out; how \<open>encoding/json\<close> prints a value and reads it again, and how \<open>%q\<close> quotes a
  text, are parameters.
\<close>

section \<open>The metadata column\<close>

record row_codec =
  jcMarshal :: "json \<Rightarrow> string"
  jcUnmarshal :: "string \<Rightarrow> json option"
  jcQuote :: "string \<Rightarrow> string"

definition omit_string :: "string \<Rightarrow> string \<Rightarrow> json_object" where
  "omit_string key v = (if v = [] then [] else [(key, JString v)])"

definition omit_strings :: "string \<Rightarrow> string list \<Rightarrow> json_object" where
  "omit_strings key vs = (if vs = [] then [] else [(key, JArray (map JString vs))])"

definition omit_bool :: "string \<Rightarrow> bool \<Rightarrow> json_object" where
  "omit_bool key b = (if b then [(key, JBool True)] else [])"

definition omit_int :: "string \<Rightarrow> int \<Rightarrow> json_object" where
  "omit_int key n = (if n = 0 then [] else [(key, JNumber (n, 0))])"

definition metadata_json :: "submission_metadata \<Rightarrow> json" where
  "metadata_json m = JObject
     (omit_string ''save_path'' (SavePath m) @ omit_string ''rename'' (Rename m) @ omit_strings ''tags'' (Tags m) @
      omit_bool ''skip_checking'' (SkipChecking m) @ omit_bool ''paused'' (Paused m) @ omit_bool ''root_folder'' (RootFolder m) @
      omit_string ''password'' (Password m) @ omit_int ''post_processing'' (PostProcessing m) @
      omit_bool ''as_queued'' (AsQueued m) @ omit_bool ''add_only_if_cached'' (AddOnlyIfCached m) @
      omit_string ''uploaded_filename'' (UploadedFilename m) @ omit_string ''original_filename'' (OriginalFilename m))"

text \<open>
  Reading the structure: members in order, names in any letter case, unknown names passed over;
  \<open>null\<close> leaves a member as it is, a value of another type is an error.
\<close>

definition as_string :: "string \<Rightarrow> json \<Rightarrow> string option" where
  "as_string old v = (case v of JNull \<Rightarrow> Some old | JString s \<Rightarrow> Some s | _ \<Rightarrow> None)"

definition as_bool :: "bool \<Rightarrow> json \<Rightarrow> bool option" where
  "as_bool old v = (case v of JNull \<Rightarrow> Some old | JBool b \<Rightarrow> Some b | _ \<Rightarrow> None)"

definition as_int :: "int \<Rightarrow> json \<Rightarrow> int option" where
  "as_int old v = (case v of JNull \<Rightarrow> Some old | JNumber x \<Rightarrow> if snd x = 0 \<and> int64_ok (fst x) then Some (fst x) else None | _ \<Rightarrow> None)"

definition as_strings :: "json \<Rightarrow> string list option" where
  "as_strings v = (case v of JNull \<Rightarrow> Some [] | JArray vs \<Rightarrow> those (map (as_string []) vs) | _ \<Rightarrow> None)"

definition assign :: "string \<Rightarrow> json \<Rightarrow> submission_metadata \<Rightarrow> submission_metadata option" where
  "assign key v m =
     (let named = EqualFold key in
      if named ''save_path'' then map_option (\<lambda>x. m\<lparr>SavePath := x\<rparr>) (as_string (SavePath m) v)
      else if named ''rename'' then map_option (\<lambda>x. m\<lparr>Rename := x\<rparr>) (as_string (Rename m) v)
      else if named ''tags'' then map_option (\<lambda>x. m\<lparr>Tags := x\<rparr>) (as_strings v)
      else if named ''skip_checking'' then map_option (\<lambda>x. m\<lparr>SkipChecking := x\<rparr>) (as_bool (SkipChecking m) v)
      else if named ''paused'' then map_option (\<lambda>x. m\<lparr>Paused := x\<rparr>) (as_bool (Paused m) v)
      else if named ''root_folder'' then map_option (\<lambda>x. m\<lparr>RootFolder := x\<rparr>) (as_bool (RootFolder m) v)
      else if named ''password'' then map_option (\<lambda>x. m\<lparr>Password := x\<rparr>) (as_string (Password m) v)
      else if named ''post_processing'' then map_option (\<lambda>x. m\<lparr>PostProcessing := x\<rparr>) (as_int (PostProcessing m) v)
      else if named ''as_queued'' then map_option (\<lambda>x. m\<lparr>AsQueued := x\<rparr>) (as_bool (AsQueued m) v)
      else if named ''add_only_if_cached'' then map_option (\<lambda>x. m\<lparr>AddOnlyIfCached := x\<rparr>) (as_bool (AddOnlyIfCached m) v)
      else if named ''uploaded_filename'' then map_option (\<lambda>x. m\<lparr>UploadedFilename := x\<rparr>) (as_string (UploadedFilename m) v)
      else if named ''original_filename'' then map_option (\<lambda>x. m\<lparr>OriginalFilename := x\<rparr>) (as_string (OriginalFilename m) v)
      else Some m)"

fun assign_all :: "submission_metadata \<Rightarrow> json_object \<Rightarrow> submission_metadata option" where
  "assign_all m [] = Some m"
| "assign_all m ((key, v) # rest) = (case assign key v m of None \<Rightarrow> None | Some m \<Rightarrow> assign_all m rest)"

definition metadata_of :: "json \<Rightarrow> submission_metadata option" where
  "metadata_of v = (case v of JNull \<Rightarrow> Some no_metadata | JObject members \<Rightarrow> assign_all no_metadata members | _ \<Rightarrow> None)"

section \<open>Rows\<close>

definition boolToInt :: "bool \<Rightarrow> int" where
  "boolToInt b = (if b then 1 else 0)"

definition nullableTime :: "time option \<Rightarrow> string option" where
  "nullableTime v = (case v of None \<Rightarrow> None | Some t \<Rightarrow> Some (formatTime t))"

definition nullableState :: "job_state option \<Rightarrow> string option" where
  "nullableState v = (case v of None \<Rightarrow> None | Some s \<Rightarrow> Some (state_text s))"

record job_row =
  cId :: string
  cPublicId :: string
  cSourceType :: string
  cClientKind :: string
  cCategory :: string
  cState :: string
  cSubmissionKey :: string
  cRemoteId :: "string option"
  cQueuedId :: "string option"
  cQueueAuthId :: "string option"
  cRemoteHash :: "string option"
  cDisplayName :: string
  cInfoHash :: "string option"
  cSourceUri :: "string option"
  cPayloadRef :: "string option"
  cStagingPath :: "string option"
  cCompletedPath :: "string option"
  cBytesTotal :: int
  cBytesDone :: int
  cErrorMessage :: "string option"
  cRetryCount :: int
  cNextRunAt :: "string option"
  cLastRemoteStatus :: "string option"
  cMetadataJson :: string
  cDeleteRequested :: int
  cClaimedBy :: "string option"
  cClaimedAt :: "string option"
  cCreatedAt :: string
  cUpdatedAt :: string

text \<open>The columns of a job; an insert leaves the claim NULL.\<close>

definition row_of :: "row_codec \<Rightarrow> job \<Rightarrow> job_row" where
  "row_of jc job =
     \<lparr>cId = jID job, cPublicId = jPublicID job, cSourceType = source_text (jSourceType job),
      cClientKind = kind_text (jClientKind job), cCategory = jCategory job, cState = state_text (jState job),
      cSubmissionKey = jSubmissionKey job, cRemoteId = jRemoteID job, cQueuedId = jQueuedID job,
      cQueueAuthId = jQueueAuthID job, cRemoteHash = jRemoteHash job, cDisplayName = jDisplayName job,
      cInfoHash = jInfoHash job, cSourceUri = jSourceURI job, cPayloadRef = jPayloadRef job,
      cStagingPath = jStagingPath job, cCompletedPath = jCompletedPath job, cBytesTotal = jBytesTotal job,
      cBytesDone = jBytesDone job, cErrorMessage = jErrorMessage job, cRetryCount = jRetryCount job,
      cNextRunAt = nullableTime (jNextRunAt job), cLastRemoteStatus = jLastRemoteStatus job,
      cMetadataJson = jcMarshal jc (metadata_json (jMetadata job)), cDeleteRequested = boolToInt (jDeleteRequested job),
      cClaimedBy = jClaimedBy job, cClaimedAt = nullableTime (jClaimedAt job),
      cCreatedAt = formatTime (jCreatedAt job), cUpdatedAt = formatTime (jUpdatedAt job)\<rparr>"

definition insert_row :: "row_codec \<Rightarrow> job \<Rightarrow> job_row" where
  "insert_row jc job = (row_of jc job)\<lparr>cClaimedBy := None, cClaimedAt := None\<rparr>"

text \<open>\<open>UPDATE jobs SET ... WHERE id = ?\<close>: every column but the identifiers and the creation time.\<close>

definition update_row :: "row_codec \<Rightarrow> job \<Rightarrow> job_row \<Rightarrow> job_row" where
  "update_row jc job r =
     (insert_row jc job)\<lparr>cId := cId r, cPublicId := cPublicId r, cCreatedAt := cCreatedAt r\<rparr>"

text \<open>The constant of a column's text; the model has no job with another kind or state.\<close>

definition source_of :: "string \<Rightarrow> source_type" where
  "source_of s = (if s = ''torrent'' then SourceTypeTorrent else if s = ''nzb'' then SourceTypeNZB else OtherSource s)"

definition kind_of :: "string \<Rightarrow> client_kind option" where
  "kind_of s = find (\<lambda>k. kind_text k = s) [ClientKindQBit, ClientKindSAB]"

definition all_states :: "job_state list" where
  "all_states = active_states @ [StateRemoteFailed, StateRemoved, StateFailed]"

definition job_state_of :: "string \<Rightarrow> job_state option" where
  "job_state_of s = find (\<lambda>k. state_text k = s) all_states"

definition scan_time :: "row_codec \<Rightarrow> string option \<Rightarrow> (go_error + time option)" where
  "scan_time jc v =
     (case v of
        None \<Rightarrow> Inr None
      | Some s \<Rightarrow> (case parseTime (jcQuote jc) s of Inl e \<Rightarrow> Inl e | Inr t \<Rightarrow> Inr (Some t)))"

definition scan_metadata :: "row_codec \<Rightarrow> string \<Rightarrow> go_error + submission_metadata" where
  "scan_metadata jc s =
     (if s = [] then Inr no_metadata
      else case Option.bind (jcUnmarshal jc s) metadata_of of
        Some m \<Rightarrow> Inr m
      | None \<Rightarrow> Inl (ErrWrap ''unmarshal metadata'' (ErrText ''invalid value'')))"

text \<open>
  A row as a job; \<open>None\<close> when the kind or the state is no constant of the program. The start of the
  local download has no column.
\<close>

definition scanJob :: "row_codec \<Rightarrow> job_row \<Rightarrow> (go_error + job) option" where
  "scanJob jc r =
     (case (kind_of (cClientKind r), job_state_of (cState r)) of
        (Some kind, Some s) \<Rightarrow> Some (
          case scan_time jc (cClaimedAt r) of Inl e \<Rightarrow> Inl e | Inr claimedAt \<Rightarrow>
          case scan_time jc (cNextRunAt r) of Inl e \<Rightarrow> Inl e | Inr nextRunAt \<Rightarrow>
          case parseTime (jcQuote jc) (cCreatedAt r) of Inl e \<Rightarrow> Inl e | Inr createdAt \<Rightarrow>
          case parseTime (jcQuote jc) (cUpdatedAt r) of Inl e \<Rightarrow> Inl e | Inr updatedAt \<Rightarrow>
          case scan_metadata jc (cMetadataJson r) of Inl e \<Rightarrow> Inl e | Inr metadata \<Rightarrow>
          Inr \<lparr>jID = cId r, jPublicID = cPublicId r, jSourceType = source_of (cSourceType r), jClientKind = kind,
            jCategory = cCategory r, jState = s, jSubmissionKey = cSubmissionKey r, jRemoteID = cRemoteId r,
            jQueuedID = cQueuedId r, jQueueAuthID = cQueueAuthId r, jRemoteHash = cRemoteHash r,
            jDisplayName = cDisplayName r, jInfoHash = cInfoHash r, jSourceURI = cSourceUri r,
            jPayloadRef = cPayloadRef r, jStagingPath = cStagingPath r, jCompletedPath = cCompletedPath r,
            jBytesTotal = cBytesTotal r, jBytesDone = cBytesDone r, jLocalDownloadStartedAt = None,
            jErrorMessage = cErrorMessage r, jRetryCount = cRetryCount r, jNextRunAt = nextRunAt,
            jLastRemoteStatus = cLastRemoteStatus r, jMetadata = metadata,
            jDeleteRequested = (cDeleteRequested r = 1), jClaimedBy = cClaimedBy r, jClaimedAt = claimedAt,
            jCreatedAt = createdAt, jUpdatedAt = updatedAt\<rparr>)
      | _ \<Rightarrow> None)"

text \<open>The rows of a result in order; the first error ends the scan.\<close>

fun scanJobs :: "row_codec \<Rightarrow> job_row list \<Rightarrow> (go_error + job list) option" where
  "scanJobs jc [] = Some (Inr [])"
| "scanJobs jc (r # rows) =
     (case scanJob jc r of
        None \<Rightarrow> None
      | Some (Inl e) \<Rightarrow> Some (Inl e)
      | Some (Inr job) \<Rightarrow>
          (case scanJobs jc rows of
             None \<Rightarrow> None
           | Some (Inl e) \<Rightarrow> Some (Inl e)
           | Some (Inr jobs) \<Rightarrow> Some (Inr (job # jobs))))"

record part_row =
  tId :: int
  tJobId :: string
  tPartKey :: string
  tFileId :: "string option"
  tSourceUrl :: string
  tTempPath :: string
  tRelativePath :: string
  tContentLength :: int
  tBytesDone :: int
  tEtag :: "string option"
  tCompleted :: int
  tCreatedAt :: string
  tUpdatedAt :: string

definition part_row_of :: "transfer_part \<Rightarrow> part_row" where
  "part_row_of part =
     \<lparr>tId = pID part, tJobId = pJobID part, tPartKey = pPartKey part, tFileId = pFileID part, tSourceUrl = pSourceURL part,
      tTempPath = pTempPath part, tRelativePath = pRelativePath part, tContentLength = pContentLength part,
      tBytesDone = pBytesDone part, tEtag = pETag part, tCompleted = boolToInt (pCompleted part),
      tCreatedAt = formatTime (pCreatedAt part), tUpdatedAt = formatTime (pUpdatedAt part)\<rparr>"

definition scanTransferPart :: "row_codec \<Rightarrow> part_row \<Rightarrow> go_error + transfer_part" where
  "scanTransferPart jc r =
     (case parseTime (jcQuote jc) (tCreatedAt r) of Inl e \<Rightarrow> Inl e | Inr c \<Rightarrow>
      case parseTime (jcQuote jc) (tUpdatedAt r) of Inl e \<Rightarrow> Inl e | Inr u \<Rightarrow>
      Inr \<lparr>pID = tId r, pJobID = tJobId r, pPartKey = tPartKey r, pFileID = tFileId r, pSourceURL = tSourceUrl r,
        pTempPath = tTempPath r, pRelativePath = tRelativePath r, pContentLength = tContentLength r,
        pBytesDone = tBytesDone r, pETag = tEtag r, pCompleted = (tCompleted r = 1), pCreatedAt = c, pUpdatedAt = u\<rparr>)"

section \<open>What is written is read back\<close>

lemma meta_keys:
  "ToLower ''save_path'' = ''save_path''" "ToLower ''rename'' = ''rename''" "ToLower ''tags'' = ''tags''"
  "ToLower ''skip_checking'' = ''skip_checking''" "ToLower ''paused'' = ''paused''" "ToLower ''root_folder'' = ''root_folder''"
  "ToLower ''password'' = ''password''" "ToLower ''post_processing'' = ''post_processing''" "ToLower ''as_queued'' = ''as_queued''"
  "ToLower ''add_only_if_cached'' = ''add_only_if_cached''" "ToLower ''uploaded_filename'' = ''uploaded_filename''"
  "ToLower ''original_filename'' = ''original_filename''"
  by code_simp+

lemma as_strings_JString [simp]: "as_strings (JArray (map JString vs)) = Some vs"
  by (induction vs) (auto simp: as_strings_def as_string_def)

lemma assign_all_append:
  "assign_all m (xs @ ys) = (case assign_all m xs of None \<Rightarrow> None | Some m \<Rightarrow> assign_all m ys)"
  by (induction xs arbitrary: m) (auto split: option.split)

text \<open>A member that is left out is the zero value that is there already.\<close>

lemma assign_members:
  "SavePath m = [] \<Longrightarrow> assign_all m (omit_string ''save_path'' v) = Some (m\<lparr>SavePath := v\<rparr>)"
  "Rename m = [] \<Longrightarrow> assign_all m (omit_string ''rename'' v) = Some (m\<lparr>Rename := v\<rparr>)"
  "Tags m = [] \<Longrightarrow> assign_all m (omit_strings ''tags'' vs) = Some (m\<lparr>Tags := vs\<rparr>)"
  "\<not> SkipChecking m \<Longrightarrow> assign_all m (omit_bool ''skip_checking'' b) = Some (m\<lparr>SkipChecking := b\<rparr>)"
  "\<not> Paused m \<Longrightarrow> assign_all m (omit_bool ''paused'' b) = Some (m\<lparr>Paused := b\<rparr>)"
  "\<not> RootFolder m \<Longrightarrow> assign_all m (omit_bool ''root_folder'' b) = Some (m\<lparr>RootFolder := b\<rparr>)"
  "Password m = [] \<Longrightarrow> assign_all m (omit_string ''password'' v) = Some (m\<lparr>Password := v\<rparr>)"
  "PostProcessing m = 0 \<Longrightarrow> int64_ok n \<Longrightarrow> assign_all m (omit_int ''post_processing'' n) = Some (m\<lparr>PostProcessing := n\<rparr>)"
  "\<not> AsQueued m \<Longrightarrow> assign_all m (omit_bool ''as_queued'' b) = Some (m\<lparr>AsQueued := b\<rparr>)"
  "\<not> AddOnlyIfCached m \<Longrightarrow> assign_all m (omit_bool ''add_only_if_cached'' b) = Some (m\<lparr>AddOnlyIfCached := b\<rparr>)"
  "UploadedFilename m = [] \<Longrightarrow> assign_all m (omit_string ''uploaded_filename'' v) = Some (m\<lparr>UploadedFilename := v\<rparr>)"
  "OriginalFilename m = [] \<Longrightarrow> assign_all m (omit_string ''original_filename'' v) = Some (m\<lparr>OriginalFilename := v\<rparr>)"
  by (simp_all add: omit_string_def omit_strings_def omit_bool_def omit_int_def assign_def Let_def EqualFold_def meta_keys
      as_string_def as_bool_def as_int_def)

lemma metadata_round_trip: "int64_ok (PostProcessing m) \<Longrightarrow> metadata_of (metadata_json m) = Some m"
  by (simp add: metadata_of_def metadata_json_def assign_all_append no_metadata_def assign_members)

lemma state_of_text [simp]: "job_state_of (state_text s) = Some s"
  by (cases s) (simp_all add: job_state_of_def all_states_def active_states_def)

lemma kind_of_text [simp]: "kind_of (kind_text k) = Some k"
  by (cases k) (simp_all add: kind_of_def)

lemma source_text_eq: "s \<noteq> OtherSource ''torrent'' \<Longrightarrow> s \<noteq> OtherSource ''nzb'' \<Longrightarrow> source_of (source_text s) = s"
  by (cases s) (auto simp: source_of_def)

lemma parse_stored [simp]: "time_ok t \<Longrightarrow> parseTime q (formatTime t) = Inr t"
  by (simp add: parseTime_def parse_formatTime)

text \<open>
  A job that a row can hold: its instants are in the range of the text, its counter of
  post-processing fits 64 bits, its source is one value per text, and the JSON of its metadata is
  read as it was printed.
\<close>

definition optional_ok :: "time option \<Rightarrow> bool" where
  "optional_ok v \<longleftrightarrow> (case v of None \<Rightarrow> True | Some t \<Rightarrow> time_ok t)"

definition storable :: "row_codec \<Rightarrow> job \<Rightarrow> bool" where
  "storable jc job \<longleftrightarrow>
     time_ok (jCreatedAt job) \<and> time_ok (jUpdatedAt job) \<and> optional_ok (jNextRunAt job) \<and>
     optional_ok (jClaimedAt job) \<and> int64_ok (PostProcessing (jMetadata job)) \<and>
     jSourceType job \<notin> {OtherSource ''torrent'', OtherSource ''nzb''} \<and>
     (let s = jcMarshal jc (metadata_json (jMetadata job)) in
      s \<noteq> [] \<and> jcUnmarshal jc s = Some (metadata_json (jMetadata job)))"

definition scanned :: "job \<Rightarrow> job" where
  "scanned job = job\<lparr>jLocalDownloadStartedAt := None\<rparr>"

lemma scan_stored_time [simp]: "optional_ok v \<Longrightarrow> scan_time jc (nullableTime v) = Inr v"
  by (cases v) (simp_all add: scan_time_def nullableTime_def optional_ok_def)

lemma scan_stored_metadata: "storable jc job \<Longrightarrow> scan_metadata jc (jcMarshal jc (metadata_json (jMetadata job))) = Inr (jMetadata job)"
  by (simp add: storable_def scan_metadata_def Let_def metadata_round_trip)

lemma scan_row_of: "storable jc job \<Longrightarrow> scanJob jc (row_of jc job) = Some (Inr (scanned job))"
  using scan_stored_metadata [of jc job]
  by (simp add: storable_def scanJob_def row_of_def scanned_def source_text_eq boolToInt_def Let_def)

lemma scan_rows: "\<forall>j\<in>set jobs. storable jc j \<Longrightarrow> scanJobs jc (map (row_of jc) jobs) = Some (Inr (map scanned jobs))"
  by (induction jobs) (simp_all add: scan_row_of)

lemma scan_part_row:
  "time_ok (pCreatedAt p) \<Longrightarrow> time_ok (pUpdatedAt p) \<Longrightarrow> scanTransferPart jc (part_row_of p) = Inr p"
  by (simp add: scanTransferPart_def part_row_of_def boolToInt_def)

text \<open>The rows of an insert and of an update are those of the store's own rows.\<close>

lemma row_of_inserted: "row_of jc (inserted_row job) = insert_row jc job"
  by (simp add: row_of_def insert_row_def inserted_row_def nullableTime_def)

lemma row_of_updated: "row_of jc (updated_row job j) = update_row jc job (row_of jc j)"
  by (simp add: row_of_def insert_row_def update_row_def updated_row_def nullableTime_def)

section \<open>The statements\<close>

text \<open>The states of the partial unique index and of the duplicate search, as the SQL lists them.\<close>

definition active_texts :: "string list" where
  "active_texts = [''accepted'', ''submit_pending'', ''submit_retry'', ''remote_queued'', ''remote_active'',
     ''local_download_pending'', ''local_downloading'', ''local_verify'', ''completed'', ''remove_pending'']"

definition index_conflict :: "job_row \<Rightarrow> job_row list \<Rightarrow> bool" where
  "index_conflict r t \<longleftrightarrow> cState r \<in> set active_texts \<and>
     list_ex (\<lambda>x. cId x \<noteq> cId r \<and> cState x \<in> set active_texts \<and> cSubmissionKey x = cSubmissionKey r) t"

definition sql_insert :: "job_row \<Rightarrow> job_row list \<Rightarrow> go_error + job_row list" where
  "sql_insert r t =
     (if list_ex (\<lambda>x. cId x = cId r) t then Inl (ErrText ''UNIQUE constraint failed: jobs.id'')
      else if list_ex (\<lambda>x. cPublicId x = cPublicId r) t then Inl (ErrText ''UNIQUE constraint failed: jobs.public_id'')
      else if index_conflict r t then Inl (ErrText ''UNIQUE constraint failed: jobs.submission_key'')
      else Inr (t @ [r]))"

definition sql_update :: "string \<Rightarrow> (job_row \<Rightarrow> job_row) \<Rightarrow> job_row list \<Rightarrow> go_error + job_row list" where
  "sql_update i upd t =
     (if list_ex (\<lambda>x. cId x = i \<and> index_conflict (upd x) t) t
      then Inl (ErrText ''UNIQUE constraint failed: jobs.submission_key'')
      else Inr (map (\<lambda>x. if cId x = i then upd x else x) t))"

definition sql_find_active :: "string \<Rightarrow> job_row list \<Rightarrow> job_row option" where
  "sql_find_active key t = find (\<lambda>x. cSubmissionKey x = key \<and> cState x \<in> set active_texts) t"

definition sql_due :: "string list \<Rightarrow> string \<Rightarrow> job_row \<Rightarrow> bool" where
  "sql_due states now r \<longleftrightarrow>
     cState r \<in> set states \<and> (case cNextRunAt r of None \<Rightarrow> True | Some t \<Rightarrow> t \<le> now)"

definition sql_select_due :: "string list \<Rightarrow> string \<Rightarrow> int \<Rightarrow> job_row list \<Rightarrow> job_row list" where
  "sql_select_due states now limit t = sql_limit limit (sort_key cCreatedAt (filter (sql_due states now) t))"

definition sql_claimable :: "string list \<Rightarrow> string \<Rightarrow> int \<Rightarrow> job_row list \<Rightarrow> string list" where
  "sql_claimable states now limit t =
     map cId (sql_limit limit (sort_key cCreatedAt (filter (\<lambda>r. sql_due states now r \<and> cClaimedBy r = None) t)))"

definition sql_claim :: "string \<Rightarrow> string \<Rightarrow> string list \<Rightarrow> job_row list \<Rightarrow> job_row list" where
  "sql_claim worker now ids t =
     map (\<lambda>r. if cId r \<in> set ids then r\<lparr>cClaimedBy := Some worker, cClaimedAt := Some now\<rparr> else r) t"

definition sql_unclaim :: "(job_row \<Rightarrow> bool) \<Rightarrow> job_row list \<Rightarrow> job_row list" where
  "sql_unclaim cond t = map (\<lambda>r. if cond r then r\<lparr>cClaimedBy := None, cClaimedAt := None\<rparr> else r) t"

definition sql_delete_removed :: "string \<Rightarrow> job_row list \<Rightarrow> job_row list" where
  "sql_delete_removed cutoff t = filter (\<lambda>r. \<not> (cState r = ''removed'' \<and> cUpdatedAt r < cutoff)) t"

definition sql_visible :: "string \<Rightarrow> string \<Rightarrow> int \<Rightarrow> job_row list \<Rightarrow> job_row list" where
  "sql_visible kind category limit t =
     sql_limit limit (rev (sort_key cCreatedAt (rev (filter (\<lambda>r. cClientKind r = kind \<and> cState r \<noteq> ''removed'' \<and>
        (category \<noteq> [] \<longrightarrow> cCategory r = category)) t))))"

end
