(* ===== verification/Store_Tables.thy ===== *)
theory Store_Tables
  imports Store_Rows
begin

text \<open>
  The store of jobs implements the tables of rows: each operation of \<open>Store\<close> on the jobs is the SQL
  statement of \<open>Store_Rows\<close> on their rows, and what a query selects is scanned as the jobs that the
  operation returns.
\<close>

section \<open>Rows of the jobs of a store\<close>

definition job_rows :: "row_codec \<Rightarrow> store \<Rightarrow> job_row list" where
  "job_rows jc st = map (row_of jc) (sJobs st)"

lemma row_of_fields [simp]:
  "cId (row_of jc j) = jID j" "cPublicId (row_of jc j) = jPublicID j" "cSubmissionKey (row_of jc j) = jSubmissionKey j"
  "cState (row_of jc j) = state_text (jState j)" "cClientKind (row_of jc j) = kind_text (jClientKind j)"
  "cCategory (row_of jc j) = jCategory j" "cNextRunAt (row_of jc j) = nullableTime (jNextRunAt j)"
  "cClaimedBy (row_of jc j) = jClaimedBy j" "cCreatedAt (row_of jc j) = formatTime (jCreatedAt j)"
  "cUpdatedAt (row_of jc j) = formatTime (jUpdatedAt j)"
  by (simp_all add: row_of_def)

lemma insert_row_fields [simp]:
  "cId (insert_row jc j) = jID j" "cPublicId (insert_row jc j) = jPublicID j" "cSubmissionKey (insert_row jc j) = jSubmissionKey j"
  "cState (insert_row jc j) = state_text (jState j)"
  by (simp_all add: insert_row_def)

lemma update_row_fields [simp]:
  "cId (update_row jc j r) = cId r" "cSubmissionKey (update_row jc j r) = jSubmissionKey j"
  "cState (update_row jc j r) = state_text (jState j)"
  by (simp_all add: update_row_def)

lemma active_text [simp]: "state_text (jState j) \<in> set active_texts \<longleftrightarrow> active j"
  by (cases "jState j") (simp_all add: active_texts_def active_def active_states_def)

lemma state_text_eq [simp]: "state_text a = state_text b \<longleftrightarrow> a = b"
  using inj_state_text by blast

lemma state_text_member [simp]: "state_text s \<in> state_text ` S \<longleftrightarrow> s \<in> S"
  by auto

lemma removed_text [simp]: "state_text s = ''removed'' \<longleftrightarrow> s = StateRemoved"
  by (cases s) simp_all

lemma kind_text_eq [simp]: "kind_text a = kind_text b \<longleftrightarrow> a = b"
  by (cases a; cases b) simp_all

lemma sort_key_map: "sort_key f (map g xs) = map g (sort_key (\<lambda>x. f (g x)) xs)"
proof -
  have "insort_key f (g x) (map g ys) = map g (insort_key (\<lambda>x. f (g x)) x ys)" for x ys
    by (induction ys) auto
  then show ?thesis by (induction xs) auto
qed

lemma sql_limit_map: "sql_limit n (map g xs) = map g (sql_limit n xs)"
  by (simp add: sql_limit_def take_map)

lemma sql_limit_subset: "set (sql_limit n xs) \<subseteq> set xs"
  by (auto simp: sql_limit_def dest: in_set_takeD)

lemma index_conflict_rows:
  "cId r = jID job \<Longrightarrow> cState r = state_text (jState job) \<Longrightarrow> cSubmissionKey r = jSubmissionKey job \<Longrightarrow>
     index_conflict r (job_rows jc st) \<longleftrightarrow> key_taken st job"
  by (auto simp: index_conflict_def key_taken_def job_rows_def list_ex_iff)

lemma due_text: "sql_due (map state_text states) (formatTime now) (row_of jc j) \<longleftrightarrow> jState j \<in> set states \<and> due now j"
  by (simp add: sql_due_def due_def nullableTime_def text_le_def split: option.split)

lemma job_exists_row: "job_exists st i \<longleftrightarrow> (\<exists>x\<in>set (sJobs st). jID x = i)"
  by (auto simp: job_exists_def)

section \<open>Writes\<close>

lemma jID_inserted [simp]: "jID (inserted_row job) = jID job"
  by (simp add: inserted_row_def)

lemma create_rows:
  assumes "CreateJob st now job = (e, st')"
  shows "case sql_insert (insert_row jc job) (job_rows jc st) of
      Inl e' \<Rightarrow> e = Some (ErrWrap ''insert job'' e') \<and> st' = st
    | Inr t \<Rightarrow> e = nil \<and> job_rows jc st' = t"
proof -
  have i: "list_ex (\<lambda>x. cId x = jID job) (job_rows jc st) \<longleftrightarrow> job_exists st (jID job)"
    by (auto simp: job_rows_def list_ex_iff job_exists_row)
  have p: "list_ex (\<lambda>x. cPublicId x = jPublicID job) (job_rows jc st) \<longleftrightarrow> list_ex (\<lambda>r. jPublicID r = jPublicID job) (sJobs st)"
    by (simp add: job_rows_def list_ex_iff)
  have k: "index_conflict (insert_row jc job) (job_rows jc st) \<longleftrightarrow> key_taken st job"
    by (rule index_conflict_rows) simp_all
  show ?thesis
    using assms unfolding sql_insert_def insert_row_fields i p k CreateJob_def AppendEvent_def
    by (auto simp: job_rows_def row_of_inserted job_exists_def split: if_splits)
qed

lemma update_rows:
  assumes "UpdateJob st job = (e, st')"
  shows "case sql_update (jID job) (update_row jc job) (job_rows jc st) of
      Inl e' \<Rightarrow> e = Some (ErrWrap ''update job'' e') \<and> st' = st
    | Inr t \<Rightarrow> e = nil \<and> job_rows jc st' = t"
proof -
  have "index_conflict (update_row jc job x) (job_rows jc st) \<longleftrightarrow> key_taken st job" if "cId x = jID job" for x
    using that by (intro index_conflict_rows) simp_all
  then have c: "list_ex (\<lambda>x. cId x = jID job \<and> index_conflict (update_row jc job x) (job_rows jc st)) (job_rows jc st) \<longleftrightarrow>
      job_exists st (jID job) \<and> key_taken st job"
    by (auto simp: job_rows_def list_ex_iff job_exists_row)
  show ?thesis
    using assms unfolding sql_update_def c UpdateJob_def
    by (auto simp: job_rows_def row_of_updated split: if_splits)
qed

lemma release_rows:
  "job_rows jc (ReleaseAllClaims st) = sql_unclaim (\<lambda>r. cClaimedBy r \<noteq> None) (job_rows jc st)"
  "job_rows jc (ReleaseJobClaim st i) = sql_unclaim (\<lambda>r. cId r = i) (job_rows jc st)"
  by (auto simp: job_rows_def ReleaseAllClaims_def ReleaseJobClaim_def sql_unclaim_def unclaimed_def row_of_def nullableTime_def)

lemma delete_removed_rows:
  "job_rows jc (snd (DeleteRemovedOlderThan st cutoff)) = sql_delete_removed (formatTime cutoff) (job_rows jc st)"
  by (simp add: job_rows_def DeleteRemovedOlderThan_def delete_jobs_def Let_def sql_delete_removed_def filter_map o_def
      prunable_def text_less_def)

section \<open>Queries\<close>

lemma find_active_rows:
  "sql_find_active key (job_rows jc st) = map_option (row_of jc) (FindActiveBySubmissionKey st key)"
proof -
  have "find P (map (row_of jc) xs) = map_option (row_of jc) (find (\<lambda>j. P (row_of jc j)) xs)" for P xs
    by (induction xs) auto
  then show ?thesis by (simp add: sql_find_active_def job_rows_def FindActiveBySubmissionKey_def)
qed

lemma select_due_rows:
  "states \<noteq> [] \<Longrightarrow> sql_select_due (map state_text states) (formatTime now) limit (job_rows jc st) =
     map (row_of jc) (ListJobsDue st states now limit)"
  by (simp add: sql_select_due_def job_rows_def ListJobsDue_def by_created_def filter_map o_def due_text sort_key_map sql_limit_map)

lemma visible_rows:
  "sql_visible (kind_text kind) category limit (job_rows jc st) = map (row_of jc) (ListVisibleClientJobs st kind category limit)"
  by (simp add: sql_visible_def job_rows_def ListVisibleClientJobs_def by_created_desc_def filter_map o_def sort_key_map
      sql_limit_map rev_map)

lemma claimable_rows:
  "sql_claimable (map state_text states) (formatTime now) limit (job_rows jc st) = claim_ids st states now limit"
  by (simp add: sql_claimable_def claim_ids_def job_rows_def by_created_def claimable_def [abs_def] filter_map o_def due_text sort_key_map
      sql_limit_map conj_assoc)

lemma claim_rows:
  assumes "ClaimJobsDue st worker states now limit = (jobs, st')" and "states \<noteq> []"
  shows "job_rows jc st' = sql_claim worker (formatTime now)
    (sql_claimable (map state_text states) (formatTime now) limit (job_rows jc st)) (job_rows jc st)"
proof -
  have "row_of jc (mark_claimed worker now ids j) =
      (if jID j \<in> set ids then (row_of jc j)\<lparr>cClaimedBy := Some worker, cClaimedAt := Some (formatTime now)\<rparr> else row_of jc j)" for ids j
    by (simp add: mark_claimed_def row_of_def nullableTime_def)
  then show ?thesis using assms unfolding claimable_rows sql_claim_def by (auto simp: ClaimJobsDue_def Let_def job_rows_def)
qed

section \<open>The store over its tables\<close>

text \<open>Every job of the store can be held by a row, and has no start of a local download.\<close>

definition all_storable :: "row_codec \<Rightarrow> store \<Rightarrow> bool" where
  "all_storable jc st \<longleftrightarrow> (\<forall>j\<in>set (sJobs st). storable jc j \<and> jLocalDownloadStartedAt j = None)"

lemma scan_selection:
  assumes "all_storable jc st" and "set jobs \<subseteq> set (sJobs st)"
  shows "scanJobs jc (map (row_of jc) jobs) = Some (Inr jobs)"
proof -
  have "map scanned jobs = jobs" using assms by (intro map_idI) (auto simp: all_storable_def scanned_def)
  moreover have "scanJobs jc (map (row_of jc) jobs) = Some (Inr (map scanned jobs))"
    using assms by (intro scan_rows) (auto simp: all_storable_def)
  ultimately show ?thesis by simp
qed

lemma ListJobsDue_subset: "set (ListJobsDue st states now limit) \<subseteq> set (sJobs st)"
  by (auto simp: ListJobsDue_def by_created_def dest!: subsetD [OF sql_limit_subset] split: if_splits)

lemma ListVisible_subset: "set (ListVisibleClientJobs st kind category limit) \<subseteq> set (sJobs st)"
  by (auto simp: ListVisibleClientJobs_def by_created_desc_def dest!: subsetD [OF sql_limit_subset])


text \<open>
  C25. A row is a faithful record: a job whose instants have four-digit years and whose metadata the
  JSON codec reads back is scanned from its columns as it was, but for the start of the local
  download, which has no column; so is a transfer part; and the text of an instant is read back as the
  instant.
\<close>

theorem rows_round_trip:
  assumes "storable jc job" and "time_ok (pCreatedAt part)" and "time_ok (pUpdatedAt part)"
  shows "scanJob jc (row_of jc job) = Some (Inr (job\<lparr>jLocalDownloadStartedAt := None\<rparr>)) \<and>
    scanTransferPart jc (part_row_of part) = Inr part \<and>
    parseTime (jcQuote jc) (formatTime (jCreatedAt job)) = Inr (jCreatedAt job)"
  using assms scan_row_of [OF assms(1)] by (simp add: scanned_def scan_part_row storable_def)

section \<open>A table of two jobs\<close>

definition plain_codec :: row_codec where
  "plain_codec = \<lparr>jcMarshal = (\<lambda>v. if v = JObject [] then ''{}'' else ''?''),
     jcUnmarshal = (\<lambda>s. if s = ''{}'' then Some (JObject []) else None), jcQuote = (\<lambda>s. s)\<rparr>"

definition stored_job :: job where
  "stored_job = zero_job\<lparr>jID := ''a'', jPublicID := ''pa'', jState := StateSubmitPending, jSubmissionKey := ''k'',
     jNextRunAt := Some (3 * second div 2), jCreatedAt := second, jUpdatedAt := second\<rparr>"

definition other_job :: job where
  "other_job = stored_job\<lparr>jID := ''b'', jPublicID := ''pb''\<rparr>"

definition stored_part :: transfer_part where
  "stored_part = \<lparr>pID = 1, pJobID = ''a'', pPartKey = ''p'', pFileID = None, pSourceURL = ''u'', pTempPath = ''/s/a'',
     pRelativePath = ''a'', pContentLength = 3, pBytesDone = 3, pETag = Some ''e'', pCompleted = True,
     pCreatedAt = 0, pUpdatedAt = second\<rparr>"

lemma stored_storable: "storable plain_codec stored_job"
  by code_simp

theorem rows_round_trip_witness:
  "scanJob plain_codec (row_of plain_codec stored_job) = Some (Inr stored_job) \<and>
   cNextRunAt (row_of plain_codec stored_job) = Some ''1970-01-01T00:00:01.5Z'' \<and>
   scanTransferPart plain_codec (part_row_of stored_part) = Inr stored_part"
proof -
  have t: "time_ok (pCreatedAt stored_part)" "time_ok (pUpdatedAt stored_part)" by code_simp+
  have l: "stored_job\<lparr>jLocalDownloadStartedAt := None\<rparr> = stored_job" by (simp add: stored_job_def zero_job_def)
  have "cNextRunAt (row_of plain_codec stored_job) = Some ''1970-01-01T00:00:01.5Z''" by code_simp
  with rows_round_trip [OF stored_storable t] l show ?thesis by simp
qed

definition table_store :: store where
  "table_store = empty_store\<lparr>sJobs := [stored_job]\<rparr>"


end
