(* ===== verification/Startup.thy ===== *)
theory Startup
  imports Config Api_Access Orchestrator Limiter
begin

text \<open>
  The start of the program (\<open>cmd/torboxarr/main.go\<close>): the configuration is loaded, the directories are
  made, the database is opened, the server and the orchestrator are built from one configuration over
  one store and one layout, and the orchestrator reconciles the store with the file tree before the
  workers and the server run. What opening the database yields, the device of a directory, how
  \<open>net/url\<close> takes a URL apart, the digests and two texts of the standard library are the platform.
\<close>

section \<open>The parts\<close>

record platform =
  pfDevice :: "string list \<Rightarrow> int"
  pfOpen :: "string \<Rightarrow> int \<Rightarrow> go_error + store"
  pfParse :: "string \<Rightarrow> url option"
  pfSha1 :: "string \<Rightarrow> string"
  pfSha256 :: "string \<Rightarrow> string"
  pfUnescape :: "string \<Rightarrow> string"
  pfQuote :: "string \<Rightarrow> string"

datatype log_level = LevelDebug | LevelInfo | LevelWarn | LevelError

definition newLogger :: "string \<Rightarrow> log_level" where
  "newLogger level =
     (let level = ToUpper (TrimSpace level) in
      if level = ''DEBUG'' then LevelDebug
      else if level = ''WARN'' then LevelWarn
      else if level = ''ERROR'' then LevelError
      else LevelInfo)"

definition layout_of :: "config \<Rightarrow> layout" where
  "layout_of cfg = NewLayout (cgDataRoot cfg) (cgStaging cfg) (cgCompleted cfg) (cgPayloads cfg)"

definition NewQBitSessionManager :: "string \<Rightarrow> string \<Rightarrow> int \<Rightarrow> session_manager" where
  "NewQBitSessionManager username password ttl = \<lparr>smUsername = username, smPassword = password, smTTL = ttl\<rparr>"

definition NewSABAuth :: "string \<Rightarrow> string \<Rightarrow> sab_auth" where
  "NewSABAuth apiKey nzbKey = \<lparr>saApiKey = apiKey, saNzbKey = nzbKey\<rparr>"

definition NewServer :: "platform \<Rightarrow> config \<Rightarrow> layout \<Rightarrow> session_manager \<Rightarrow> sab_auth \<Rightarrow> server" where
  "NewServer pf cfg l sessions keys =
     \<lparr>vLayout = l, vDefaultCategory = cgDefaultCategory cfg, vBaseURL = cgServerBaseURL cfg, vQBitVersion = cgQBitVersion cfg,
      vQBitWebAPI = cgQBitWebAPI cfg, vSABVersion = cgSABVersion cfg, vSessions = sessions, vKeys = keys,
      vParse = pfParse pf, vSha1 = pfSha1 pf, vSha256 = pfSha256 pf\<rparr>"

definition NewOrchestrator :: "platform \<Rightarrow> config \<Rightarrow> layout \<Rightarrow> orchestrator" where
  "NewOrchestrator pf cfg l =
     \<lparr>oWorkers = \<lparr>SubmitInterval = cgSubmitInterval cfg, PollInterval = cgPollInterval cfg, DownloadInterval = cgDownloadInterval cfg,
        FinalizeInterval = cgFinalizeInterval cfg, RemoveInterval = cgRemoveInterval cfg, PruneInterval = cgPruneInterval cfg,
        SubmitRetryMin = cgSubmitRetryMin cfg, SubmitRetryMax = cgSubmitRetryMax cfg, RemovedRetention = cgRemovedRetention cfg,
        BatchSize = cgBatchSize cfg\<rparr>,
      oLayout = l, oUnescape = pfUnescape pf, oQuote = pfQuote pf\<rparr>"

text \<open>The limiters of the three kinds of calls: for creations, for polls, for links.\<close>

definition limiters :: "config \<Rightarrow> token_bucket list" where
  "limiters cfg = [NewTokenBucket (cgCreatePerHour cfg) hour, NewTokenBucket (cgPollPerMinute cfg) minute,
     NewTokenBucket (cgDownloadLinkPerMinute cfg) minute]"

text \<open>\<open>store.Open\<close> and the migrations; the files of the database are not in the tree of the model.\<close>

definition Open :: "platform \<Rightarrow> string \<Rightarrow> int \<Rightarrow> fs \<Rightarrow> (go_error + store) \<times> fs" where
  "Open pf path busyTimeout fs =
     (if path \<noteq> '':memory:''
      then (case MkdirAll fs (Dir path) of
              (Some e, fs) \<Rightarrow> (Inl (wrap_errno ''ensure sqlite parent dir'' ''mkdir'' (Dir path) e), fs)
            | (None, fs) \<Rightarrow> (pfOpen pf path busyTimeout, fs))
      else (pfOpen pf path busyTimeout, fs))"

text \<open>\<open>Start\<close> of the orchestrator, up to the loops of the workers.\<close>

definition Start :: "orchestrator \<Rightarrow> time \<Rightarrow> store \<times> fs \<Rightarrow> err \<times> store \<times> fs" where
  "Start orc now s = reconcileStartup orc now s"

text \<open>The loops it then starts: the name of the worker and the period of its timer.\<close>

definition worker_loops :: "orchestrator \<Rightarrow> (string \<times> int) list" where
  "worker_loops orc =
     [(''submitter'', SubmitInterval (oWorkers orc)), (''poller'', PollInterval (oWorkers orc)),
      (''downloader'', DownloadInterval (oWorkers orc)), (''finalizer'', FinalizeInterval (oWorkers orc)),
      (''remover'', RemoveInterval (oWorkers orc)), (''pruner'', PruneInterval (oWorkers orc))]"

record program =
  pgConfig :: config
  pgLevel :: log_level
  pgServer :: server
  pgOrchestrator :: orchestrator
  pgLimiters :: "token_bucket list"
  pgState :: "store \<times> fs"

definition start_run :: "platform \<Rightarrow> dotenv \<Rightarrow> environment \<Rightarrow> time \<Rightarrow> fs \<Rightarrow> go_error + program" where
  "start_run pf source env now fs =
     (case fst (Load source env) of
        Inl e \<Rightarrow> Inl e
      | Inr cfg \<Rightarrow>
          let l = layout_of cfg in
          (case Ensure (pfDevice pf) l fs of
             (Some e, fs) \<Rightarrow> Inl e
           | (None, fs) \<Rightarrow>
               (case Open pf (cgDatabasePath cfg) (cgBusyTimeout cfg) fs of
                  (Inl e, fs) \<Rightarrow> Inl e
                | (Inr st, fs) \<Rightarrow>
                    let sessions = NewQBitSessionManager (cgQBitUsername cfg) (cgQBitPassword cfg) (cgSessionTTL cfg);
                        keys = NewSABAuth (cgSABAPIKey cfg) (cgSABNZBKey cfg);
                        orc = NewOrchestrator pf cfg l
                    in (case Start orc now (st, fs) of
                          (Some e, s) \<Rightarrow> Inl e
                        | (None, s) \<Rightarrow>
                            Inr \<lparr>pgConfig = cfg, pgLevel = newLogger (cgLoggingLevel cfg), pgServer = NewServer pf cfg l sessions keys,
                              pgOrchestrator = orc, pgLimiters = limiters cfg, pgState = s\<rparr>))))"

section \<open>What a started program has\<close>

lemma start_run_cases:
  assumes "start_run pf source env now fs = Inr pg"
  shows "\<exists>env' fs1 fs2 st. Load source env = (Inr (pgConfig pg), env') \<and>
    Ensure (pfDevice pf) (layout_of (pgConfig pg)) fs = (nil, fs1) \<and>
    Open pf (cgDatabasePath (pgConfig pg)) (cgBusyTimeout (pgConfig pg)) fs1 = (Inr st, fs2) \<and>
    reconcileStartup (pgOrchestrator pg) now (st, fs2) = (nil, pgState pg) \<and>
    pgOrchestrator pg = NewOrchestrator pf (pgConfig pg) (layout_of (pgConfig pg)) \<and>
    pgServer pg = NewServer pf (pgConfig pg) (layout_of (pgConfig pg))
      (NewQBitSessionManager (cgQBitUsername (pgConfig pg)) (cgQBitPassword (pgConfig pg)) (cgSessionTTL (pgConfig pg)))
      (NewSABAuth (cgSABAPIKey (pgConfig pg)) (cgSABNZBKey (pgConfig pg))) \<and>
    pgLimiters pg = limiters (pgConfig pg)"
proof -
  obtain cfg env' where l: "Load source env = (Inr cfg, env')"
    using assms by (cases "Load source env") (auto simp: start_run_def split: sum.splits)
  obtain fs1 where e: "Ensure (pfDevice pf) (layout_of cfg) fs = (nil, fs1)"
    using assms l by (auto simp: start_run_def Let_def split: prod.splits option.splits)
  obtain st fs2 where o: "Open pf (cgDatabasePath cfg) (cgBusyTimeout cfg) fs1 = (Inr st, fs2)"
    using assms l e by (auto simp: start_run_def Let_def split: prod.splits option.splits sum.splits)
  obtain s where r: "reconcileStartup (NewOrchestrator pf cfg (layout_of cfg)) now (st, fs2) = (nil, s)"
    using assms l e o by (auto simp: start_run_def Start_def Let_def split: prod.splits option.splits)
  have "start_run pf source env now fs = Inr
      \<lparr>pgConfig = cfg, pgLevel = newLogger (cgLoggingLevel cfg),
       pgServer = NewServer pf cfg (layout_of cfg) (NewQBitSessionManager (cgQBitUsername cfg) (cgQBitPassword cfg) (cgSessionTTL cfg))
         (NewSABAuth (cgSABAPIKey cfg) (cgSABNZBKey cfg)),
       pgOrchestrator = NewOrchestrator pf cfg (layout_of cfg), pgLimiters = limiters cfg, pgState = s\<rparr>"
    unfolding start_run_def Let_def l fst_conv sum.case e prod.case option.case o Start_def r by (rule refl)
  with assms have pg: "pg = \<lparr>pgConfig = cfg, pgLevel = newLogger (cgLoggingLevel cfg),
       pgServer = NewServer pf cfg (layout_of cfg) (NewQBitSessionManager (cgQBitUsername cfg) (cgQBitPassword cfg) (cgSessionTTL cfg))
         (NewSABAuth (cgSABAPIKey cfg) (cgSABNZBKey cfg)),
       pgOrchestrator = NewOrchestrator pf cfg (layout_of cfg), pgLimiters = limiters cfg, pgState = s\<rparr>" by simp
  show ?thesis unfolding pg program.select_convs using l e o r by blast
qed

lemma limiters_positive: "b \<in> set (limiters cfg) \<Longrightarrow> 0 < cgCreatePerHour cfg \<Longrightarrow> 0 < cgPollPerMinute cfg \<Longrightarrow>
    0 < cgDownloadLinkPerMinute cfg \<Longrightarrow> b \<noteq> None"
  by (auto simp: limiters_def NewTokenBucket_def hour_def minute_def)

lemma derived_limits:
  "cgCreatePerHour (applyDerived c) = cgCreatePerHour c" "cgPollPerMinute (applyDerived c) = cgPollPerMinute c"
  "cgDownloadLinkPerMinute (applyDerived c) = cgDownloadLinkPerMinute c"
  by (simp_all add: applyDerived_def Let_def)

lemma default_limits:
  assumes "Load source env = (Inr cfg, env')"
  shows "cgCreatePerHour cfg = 60 \<and> cgPollPerMinute cfg = 300 \<and> cgDownloadLinkPerMinute cfg = 300"
proof -
  have "cfg = applyDerived (applyEnv env' defaultConfig)" using Load_cases [OF assms] by (rule conjunct1)
  then show ?thesis by (simp add: derived_limits applyEnv_def) (simp add: defaultConfig_def derived_limits)
qed


definition sample_platform :: platform where
  "sample_platform = \<lparr>pfDevice = (\<lambda>_. 1), pfOpen = (\<lambda>path t. Inr (sample_store StateLocalDownloading)), pfParse = (\<lambda>_. None),
     pfSha1 = (\<lambda>s. s), pfSha256 = (\<lambda>s. s), pfUnescape = (\<lambda>s. s), pfQuote = (\<lambda>s. s)\<rparr>"

definition sample_layout_tree :: fs where
  "sample_layout_tree = snd (Ensure (\<lambda>_. 1) (layout_of sample_config) sample_tree)"

definition sample_db_tree :: fs where
  "sample_db_tree = snd (MkdirAll sample_layout_tree ''/config'')"

lemma sample_config_parts:
  "layout_of sample_config = NewLayout ''/data'' ''/data/staging'' ''/data/completed'' ''/data/payloads''"
  "cgDatabasePath sample_config = ''/config/torboxarr.db''"
  by code_simp+

lemma sample_ensure: "Ensure (\<lambda>_. 1) (layout_of sample_config) sample_tree = (nil, sample_layout_tree)"
proof -
  have "fst (Ensure (\<lambda>_. 1) (layout_of sample_config) sample_tree) = nil" unfolding sample_config_parts by code_simp
  then show ?thesis unfolding sample_layout_tree_def by (simp add: prod_eq_iff)
qed

lemma sample_open: "Open sample_platform (cgDatabasePath sample_config) t sample_layout_tree =
    (Inr (sample_store StateLocalDownloading), sample_db_tree)"
proof -
  have "fst (MkdirAll sample_layout_tree ''/config'') = None" unfolding sample_layout_tree_def sample_config_parts by code_simp
  then have m: "MkdirAll sample_layout_tree ''/config'' = (None, sample_db_tree)"
    unfolding sample_db_tree_def by (simp add: prod_eq_iff)
  have d: "Dir ''/config/torboxarr.db'' = ''/config''" by code_simp
  show ?thesis unfolding Open_def sample_config_parts d m by (simp add: sample_platform_def)
qed

lemma sample_orchestrator: "NewOrchestrator sample_platform sample_config (layout_of sample_config) = sample_orc"
proof -
  have "layout_of sample_config = sample_layout" unfolding sample_config_parts by code_simp
  moreover have "oWorkers (NewOrchestrator sample_platform sample_config l) = sample_workers" for l by code_simp
  ultimately show ?thesis by (simp add: NewOrchestrator_def sample_platform_def sample_orc_def)
qed

lemma sample_reconcile: "fst (reconcileStartup sample_orc 0 (sample_store StateLocalDownloading, sample_db_tree)) = nil"
  unfolding sample_db_tree_def sample_layout_tree_def sample_config_parts by code_simp


end
