(* ===== verification/Lost_Part.thy ===== *)
theory Lost_Part
  imports Downloader_Facts Finalizer Worker_Samples
begin

text \<open>
  What becomes of a job whose downloaded part is lost before the verification, over rounds of the
  finalizer (\<open>internal/worker/finalize.go\<close>) and the downloader (\<open>internal/worker/download.go\<close>): the
  finalizer sends the job back to be downloaded again, but the downloader passes over the parts that
  are marked complete, so it fetches nothing and sends the job to verification again.
\<close>

section \<open>Rounds about one job\<close>

text \<open>Whatever row of the job is there is handed to the finalizer, then to the downloader.\<close>

definition finalize_then_download ::
  "orchestrator \<Rightarrow> torbox_client \<Rightarrow> http_client \<Rightarrow> time \<Rightarrow> string \<Rightarrow> store \<times> fs \<Rightarrow> store \<times> fs" where
  "finalize_then_download orc tb http now k s =
     (case GetJobByID (fst s) k of
        None \<Rightarrow> s
      | Some job \<Rightarrow>
          (case processFinalizeJob orc now (fst s) (snd s) job of
             ((_, st), fs) \<Rightarrow>
               (case GetJobByID st k of
                  None \<Rightarrow> (st, fs)
                | Some job \<Rightarrow> (case processDownloadJob orc tb http (\<lambda>_. now) st fs job of ((_, st), fs) \<Rightarrow> (st, fs)))))"

fun retry_rounds :: "nat \<Rightarrow> orchestrator \<Rightarrow> torbox_client \<Rightarrow> http_client \<Rightarrow> time \<Rightarrow> string \<Rightarrow> store \<times> fs \<Rightarrow> store \<times> fs" where
  "retry_rounds 0 orc tb http now k s = s"
| "retry_rounds (Suc n) orc tb http now k s = retry_rounds n orc tb http now k (finalize_then_download orc tb http now k s)"

text \<open>A job in verification with all parts complete, one of which is not on disk.\<close>

definition lost_part :: "string \<Rightarrow> string \<Rightarrow> transfer_part \<Rightarrow> store \<times> fs \<Rightarrow> bool" where
  "lost_part k dir p s \<longleftrightarrow> store_wf (fst s) \<and> state_in (fst s) k {StateLocalVerify} \<and>
     map_option jStagingPath (GetJobByID (fst s) k) = Some (Some dir) \<and>
     p \<in> set (ListTransferParts (fst s) k) \<and> list_all pCompleted (ListTransferParts (fst s) k) \<and>
     fs_wf (snd s) \<and> fsFaults (snd s) = [] \<and> dir \<noteq> [] \<and>
     (\<forall>c. prefix c (at (snd s) dir) \<longrightarrow> node_at (snd s) c = None \<or> is_dir (snd s) c) \<and>
     node_at (snd s) (at (snd s) (pTempPath p)) = None \<and> \<not> prefix (at (snd s) (pTempPath p)) (at (snd s) dir)"

lemma write_state:
  assumes "store_wf st" and "GetJobByID st k = Some row" and "active row" and "jID job = k" and "jSubmissionKey job = jSubmissionKey row"
    and "UpdateJobState st now job s m = (e, job', st')"
  shows "e = nil" and "store_wf st'" and "ListTransferParts st' k = ListTransferParts st k"
    and "\<exists>r. GetJobByID st' k = Some r \<and> jState r = s \<and> jStagingPath r = jStagingPath job \<and> jSubmissionKey r = jSubmissionKey job \<and> jID r = k"
proof -
  have ok: "fst (UpdateJobState st now job s m) = nil"
    by (rule UpdateJobState_succeeds [OF assms(1) _ assms(3)]) (use assms(2,4,5) in simp_all)
  with assms(6) show "e = nil" by simp
  show "store_wf st'" using UpdateJobState_wf [OF assms(1), of now job s m] assms(6) by simp
  show "ListTransferParts st' k = ListTransferParts st k"
    using ListTransferParts_job_writes(2) [of st now job s m k] assms(6) by simp
  obtain r where "GetJobByID st (jID job) = Some r"
    "GetJobByID (snd (snd (UpdateJobState st now job s m))) (jID job) = Some (updated_row (job\<lparr>jState := s, jUpdatedAt := now\<rparr>) r)"
    by (rule UpdateJobState_row [OF ok])
  with assms(4,6) GetJobByID_SomeD [of st "jID job" r]
  show "\<exists>r. GetJobByID st' k = Some r \<and> jState r = s \<and> jStagingPath r = jStagingPath job \<and> jSubmissionKey r = jSubmissionKey job \<and> jID r = k"
    by (auto simp: updated_row_def)
qed

lemma download_parts_complete: "list_all pCompleted parts \<Longrightarrow> download_parts orc tb http clock parts s fs = (Inr s, fs)"
  by (induction parts) simp_all

lemma download_skips_complete:
  assumes "ListTransferParts st (jID job) \<noteq> []" and "list_all pCompleted (ListTransferParts st (jID job))"
    and "jStagingPath job = Some dir" and "fst (MkdirAll fs dir) = None"
  shows "processDownloadJob orc tb http clock st fs job =
    (conclude_download orc (clock 1) st job, snd (MkdirAll fs dir))"
proof -
  have job: "with_staging (oLayout orc) job = job" using assms(3) by (simp add: with_staging_def)
  have m: "MkdirAll fs dir = (None, snd (MkdirAll fs dir))" using assms(4) by (simp add: prod_eq_iff)
  have "run_downloads orc tb http clock st fs job =
      (Inr \<lparr>dlJob = job, dlStore = st, dlVisible = (jState job = StateLocalDownloading \<and> 0 < jBytesTotal job),
        dlLastPersist = zero_time, dlTicks = 1, dlCalls = 0\<rparr>, snd (MkdirAll fs dir))"
    unfolding run_downloads_def Let_def job assms(3) deref_simps
    by (subst m) (simp add: resolve_parts_def assms(1) download_parts_complete [OF assms(2)])
  then show ?thesis by (simp add: processDownloadJob_def)
qed

section \<open>One round, and all of them\<close>

lemma lost_part_finalized:
  assumes "lost_part k dir p (st, fs)" and "GetJobByID st k = Some job"
  shows "\<exists>st1 row. processFinalizeJob orc now st fs job = ((nil, st1), fs) \<and> store_wf st1 \<and> GetJobByID st1 k = Some row \<and>
    jState row = StateLocalDownloading \<and> jStagingPath row = Some dir \<and> jID row = k \<and>
    ListTransferParts st1 k = ListTransferParts st k"
proof -
  let ?parts = "ListTransferParts st k"
  have job: "jID job = k" "jState job = StateLocalVerify" "jStagingPath job = Some dir"
    using assms GetJobByID_SomeD [OF assms(2)] by (auto simp: lost_part_def state_in_def)
  have p: "p \<in> set ?parts" "node_at fs (at fs (pTempPath p)) = None" and wf: "store_wf st"
    using assms(1) by (simp_all add: lost_part_def)
  have "Stat fs (pTempPath p) \<noteq> Inr n" for n using Stat_node [of fs "pTempPath p" n] p(2) by auto
  with p(1) have "verify_parts fs ?parts \<noteq> None" unfolding verify_parts_ok by blast
  then obtain msg where v: "verify_parts fs ?parts = Some msg" by auto
  let ?job = "job\<lparr>jErrorMessage := Some msg, jUpdatedAt := now, jNextRunAt := Some (now + DownloadInterval (oWorkers orc))\<rparr>"
  obtain e job' st1 where u: "UpdateJobState st now ?job StateLocalDownloading msg = (e, job', st1)" by (rule prod_cases3)
  have a: "active job" using job(2) by (simp add: active_def active_states_def)
  note w = write_state [OF wf assms(2) a _ _ u, simplified, OF job(1)]
  have "?parts \<noteq> []" using p(1) by auto
  then have "processFinalizeJob orc now st fs job = ((nil, st1), fs)"
    using v u w(1) job(1) by (simp add: processFinalizeJob_def Let_def returning_def)
  with w(2,3,4) job(3) show ?thesis by auto
qed

lemma lost_part_round:
  assumes "lost_part k dir p s"
  shows "lost_part k dir p (finalize_then_download orc tb http now k s) \<and>
    ListTransferParts (fst (finalize_then_download orc tb http now k s)) k = ListTransferParts (fst s) k"
proof -
  obtain st fs where s: "s = (st, fs)" by (rule prod.exhaust)
  obtain job where job: "GetJobByID st k = Some job" using assms s by (auto simp: lost_part_def)
  from lost_part_finalized [OF assms [unfolded s] job] obtain st1 row where
    f: "processFinalizeJob orc now st fs job = ((nil, st1), fs)" "store_wf st1" "GetJobByID st1 k = Some row"
      "jState row = StateLocalDownloading" "jStagingPath row = Some dir" "jID row = k" and
    parts: "ListTransferParts st1 k = ListTransferParts st k" by metis
  let ?parts = "ListTransferParts st k"
  have l: "p \<in> set ?parts" "list_all pCompleted ?parts" "fs_wf fs" "fsFaults fs = []" "dir \<noteq> []"
      "\<forall>c. prefix c (at fs dir) \<longrightarrow> node_at fs c = None \<or> is_dir fs c" "node_at fs (at fs (pTempPath p)) = None"
      "\<not> prefix (at fs (pTempPath p)) (at fs dir)"
    using assms s by (simp_all add: lost_part_def)
  define fs1 where "fs1 = snd (MkdirAll fs dir)"
  note m = MkdirAll_ok [OF l(4,5,6), folded fs1_def]
  have ne: "?parts \<noteq> []" using l(1) by auto
  have d: "processDownloadJob orc tb http (\<lambda>_. now) st1 fs row = (conclude_download orc now st1 row, fs1)"
    unfolding fs1_def by (rule download_skips_complete) (use f(6) parts ne l(2) f(5) m(1) in auto)
  let ?job = "((syncJobBytesFromParts row ?parts)\<lparr>jErrorMessage := None, jUpdatedAt := now\<rparr>)\<lparr>jNextRunAt := Some now\<rparr>"
  obtain e job' st2 where u: "UpdateJobState st1 now ?job StateLocalVerify ''local download finished'' = (e, job', st2)"
    by (rule prod_cases3)
  have a: "active row" using f(4) by (simp add: active_def active_states_def)
  have key: "jSubmissionKey (syncJobBytesFromParts row ?parts) = jSubmissionKey row" by (simp add: syncJobBytesFromParts_def Let_def)
  note w = write_state [OF f(2,3) a _ _ u, simplified, simplified frame_simps key, OF f(6) refl]
  have "conclude_download orc now st1 row = (nil, st2)"
    using u w(1) ne l(2) by (simp add: conclude_download_def f(6) parts allPartsCompleted_def Let_def returning_def)
  then have round: "finalize_then_download orc tb http now k s = (st2, fs1)"
    by (simp add: finalize_then_download_def s job f(1,3) d)
  have cwd: "fsCwd fs1 = fsCwd fs" by (simp add: fs1_def)
  note at1 = at_cong [OF cwd]
  have "node_at fs1 c = None \<or> is_dir fs1 c" if "prefix c (at fs1 dir)" for c
    using that m(2) fs_wf_prefix [of fs1 c "at fs dir"] MkdirAll_facts(1) [OF l(3), of dir, folded fs1_def]
    by (cases "c = at fs dir") (auto simp: at1 is_dir_def strict_prefix_def)
  moreover have "node_at fs1 (at fs1 (pTempPath p)) = None" using MkdirAll_facts(3) [OF l(8), folded fs1_def] l(7) by (simp add: at1)
  moreover have "fs_wf fs1" "fsFaults fs1 = []" using MkdirAll_facts(1,2) l(3,4) by (simp_all add: fs1_def)
  ultimately have "lost_part k dir p (st2, fs1)"
    using w(2-4) f(5) parts l(1,2,5,8) by (auto simp: lost_part_def state_in_def at1 frame_simps)
  with round w(3) parts s show ?thesis by simp
qed

text \<open>
  C13. A part that was marked complete is never fetched again: when it is not on disk at the
  verification, then however often the finalizer and the downloader take the job, and whatever the
  service and the network answer, the rows of the parts stay as they are, the part stays away, and
  the job is in verification again.
\<close>

theorem lost_part_never_fetched:
  "lost_part k dir p s \<Longrightarrow> lost_part k dir p (retry_rounds n orc tb http now k s) \<and>
     ListTransferParts (fst (retry_rounds n orc tb http now k s)) k = ListTransferParts (fst s) k"
proof (induction n arbitrary: s)
  case (Suc n)
  note r = lost_part_round [OF Suc.prems, of orc tb http now]
  with Suc.IH [of "finalize_then_download orc tb http now k s"] show ?case by simp
qed simp

text \<open>Such a state: the process stopped after a promotion and before the job was stored as completed.\<close>

definition promoted_part :: transfer_part where
  "promoted_part = \<lparr>pID = 1, pJobID = ''0a1b'', pPartKey = ''f'', pFileID = None, pSourceURL = ''u'',
     pTempPath = ''/data/staging/0a1b/f.mkv'', pRelativePath = ''f.mkv'', pContentLength = 3, pBytesDone = 3, pETag = None,
     pCompleted = True, pCreatedAt = 0, pUpdatedAt = 0\<rparr>"

definition promoted_store :: store where
  "promoted_store = snd (UpsertTransferPart (sample_store StateLocalVerify) promoted_part)"

definition promoted_tree :: fs where
  "promoted_tree = snd (Promote sample_tree ''/data/staging/0a1b'' ''/data/completed/tv/Show'')"

lemma promoted_part_lost: "lost_part ''0a1b'' ''/data/staging/0a1b'' promoted_part (promoted_store, promoted_tree)"
proof -
  have wf: "store_wf promoted_store"
    unfolding promoted_store_def using sample_store_audited [of StateLocalVerify] by (simp add: audited_def UpsertTransferPart_wf)
  have parts: "ListTransferParts promoted_store ''0a1b'' = [promoted_part]" by code_simp
  have st: "map_option jState (GetJobByID promoted_store ''0a1b'') = Some StateLocalVerify"
    "map_option jStagingPath (GetJobByID promoted_store ''0a1b'') = Some (Some ''/data/staging/0a1b'')" by code_simp+
  have "fst (Promote sample_tree ''/data/staging/0a1b'' ''/data/completed/tv/Show'') = nil" by code_simp
  have "fs_wf promoted_tree" by (rule fs_wf_code) code_simp+
  moreover have "fsFaults promoted_tree = []" by code_simp
  ultimately have fs: "fs_wf promoted_tree" "fsFaults promoted_tree = []" by blast+
  have at: "at promoted_tree ''/data/staging/0a1b'' = [''data'', ''staging'', ''0a1b'']"
    "at promoted_tree ''/data/staging/0a1b/f.mkv'' = [''data'', ''staging'', ''0a1b'', ''f.mkv'']" by code_simp+
  have "list_all (\<lambda>c. node_at promoted_tree c = None \<or> is_dir promoted_tree c) (prefixes [''data'', ''staging'', ''0a1b''])" by code_simp
  then have dirs: "\<forall>c. prefix c [''data'', ''staging'', ''0a1b''] \<longrightarrow> node_at promoted_tree c = None \<or> is_dir promoted_tree c"
    unfolding list_all_iff by (metis in_set_prefixes)
  have gone: "node_at promoted_tree [''data'', ''staging'', ''0a1b'', ''f.mkv''] = None" by code_simp
  show ?thesis
    using wf parts st fs dirs gone
    by (auto simp: lost_part_def at state_in_def promoted_part_def split: option.splits)
qed

definition offline :: http_client where
  "offline = \<lparr>hcNewRequest = (\<lambda>_. nil), hcDo = \<lambda>_ _. Inl (ErrText ''offline'')\<rparr>"

lemma lost_part_row: "lost_part k dir p s \<Longrightarrow> \<exists>row. GetJobByID (fst s) k = Some row \<and> jState row = StateLocalVerify"
  by (auto simp: lost_part_def state_in_def)

theorem lost_part_never_fetched_witness:
  "\<exists>row. GetJobByID (fst (retry_rounds 2 sample_orc silent offline 0 ''0a1b'' (promoted_store, promoted_tree))) ''0a1b'' = Some row \<and>
     jState row = StateLocalVerify"
  by (rule lost_part_row [OF conjunct1 [OF lost_part_never_fetched [OF promoted_part_lost]]])

end
