(* ===== verification/Spec2Isabelle.thy ===== *)
theory Spec2Isabelle
  imports Go_Path Store_Claims Store_Retry Store_Audit Layout_Facts Submitter Poller Downloader_Facts Finalizer Remover Orchestrator Auth Limiter Submission_Facts Torbox_Facts Compat_Facts
    Config Api_Delete Pipeline Store_Tables Startup Lost_Part
begin

text \<open>
  TorBoxarr: a download client for Sonarr and Radarr on top of the TorBox service. It speaks the
  qBittorrent and the SABnzbd protocol to its clients, keeps every submission as a job in SQLite, and
  six workers take the jobs through submission to the service, polling, the download of the files,
  their verification and promotion, and the removal. This is a model of the Go program under \<open>src/\<close>
  and of what it guarantees.

  \<^bold>\<open>The parts and how they meet.\<close> All parts share one store and one directory layout. Clients reach
  the store through the API only (\<open>Router\<close>); each worker claims a batch of due jobs
  (\<open>ClaimJobsDue\<close>), handles them one by one and writes them back (\<open>UpdateJob\<close>, which frees the
  claim). At startup the orchestrator frees old claims and brings the store and the file tree
  together. A state of the whole program is a store and a file tree; \<open>Pipeline\<close> composes the parts
  into runs in which requests, rounds of workers and restarts come in any order.

  \<^bold>\<open>Which theory models what.\<close>

  Foundations. \<open>Go_Prelude\<close>: strings, 64-bit integers, error values, and the collections of rewrite
  rules (\<open>store_simps\<close>, \<open>fs_simps\<close>, \<open>path_simps\<close>, \<open>frame_simps\<close>). \<open>Go_Time\<close>, \<open>Go_Parse_Time\<close>: instants,
  their stored text, its order, and reading it back. \<open>Go_Path\<close>, \<open>Go_Url\<close>, \<open>Go_Unquote\<close>, \<open>Codec\<close>: the
  parts of \<open>path/filepath\<close>, \<open>net/url\<close>, \<open>strconv\<close> and \<open>encoding\<close> that the program uses.

  \<open>internal/store\<close>. \<open>Job_Model\<close>: \<open>model.go\<close>. \<open>Store\<close>: the operations of \<open>store.go\<close> over lists of
  records, one per table, with the constraints of the schema as errors. \<open>Store_Facts\<close>: the invariant
  \<open>store_wf\<close>, what lookups return after writes, and the locale \<open>write_contract\<close>: what a client of
  the store has to keep. \<open>Store_Audit\<close>: the invariant \<open>audited\<close> with the events. \<open>Store_Claims\<close>:
  claims. \<open>Store_Retry\<close>: the retries of a busy database. \<open>Store_Rows\<close>, \<open>Store_Tables\<close>: the columns, the
  scans and the SQL statements, and that \<open>Store\<close> is what they do.

  \<open>internal/files\<close>. \<open>Filesystem\<close>, \<open>Filesystem_Facts\<close>: a file tree with faults and the operations of
  package \<open>os\<close>. \<open>Layout\<close>, \<open>Layout_Facts\<close>: \<open>layout.go\<close>, \<open>samefs_unix.go\<close>. \<open>Range_Downloader\<close>:
  \<open>downloader.go\<close>.

  \<open>internal/torbox\<close>. \<open>Torbox_Client\<close>: the interface the workers use (\<open>client.go\<close>). \<open>Torbox_Json\<close>,
  \<open>Torbox_Http\<close>, \<open>Torbox_Facts\<close>: its implementation (\<open>parse.go\<close>, \<open>http_client.go\<close>, \<open>tasks.go\<close>,
  \<open>download.go\<close>). \<open>Limiter\<close>: \<open>limiter.go\<close>, as sequences of ticks and grants.

  \<open>internal/worker\<close>. \<open>Worker_Base\<close>: \<open>helpers.go\<close> and the loop over a batch, proved once for every
  contract. \<open>Submitter\<close>, \<open>Poller\<close>, \<open>Downloader\<close> with \<open>Downloader_Facts\<close>, \<open>Finalizer\<close>, \<open>Remover\<close> (with the
  pruner), \<open>Orchestrator\<close>: the file of that name. \<open>Worker_Samples\<close>: the inputs of the witnesses.
  \<open>Lost_Part\<close>: rounds of the finalizer and the downloader about a part that is not on disk.

  \<open>internal/api\<close>, \<open>internal/auth\<close>, \<open>internal/compat\<close>, \<open>internal/util\<close>. \<open>Auth\<close>: sessions, cookies, keys.
  \<open>Api_Submission\<close>, \<open>Submission_Facts\<close>: the submissions and their fingerprints (\<open>router.go\<close>).
  \<open>Compat\<close>, \<open>Compat_Facts\<close>: what clients are shown of a job. \<open>Api_Common\<close>: requests, responses and
  the readers of their values. \<open>Api_Sab\<close>, \<open>Api_Qbit\<close>: the handlers of \<open>sab.go\<close> and \<open>qbit.go\<close>.
  \<open>Api_Router\<close>: the routes. \<open>Api_Facts\<close>, \<open>Api_Access\<close>, \<open>Api_Delete\<close>: what requests do to the state.

  The whole. \<open>Config\<close>: \<open>internal/config\<close>. \<open>Startup\<close>: \<open>cmd/torboxarr\<close>. \<open>Pipeline\<close>: the runs.

  \<^bold>\<open>State and operations.\<close> A Go structure is a record with its fields, a constant of an enumerated
  string type a constructor, an error a value of \<open>go_error\<close>, and an operation that returns only an
  error returns \<open>go_error option\<close>. A method takes the state it works on and returns it changed. The
  clock is an argument: one reading per handler, and for the downloader a function of the number of
  readings so far. Random numbers, answers of the service and of the network are arguments too.

  \<^bold>\<open>What is shown.\<close> The pipeline refines the state machine of a job, and a job enters a stage only by
  the step that may put it there. The store keeps its constraints under every sequence of calls;
  claims are exclusive and oldest first; the operations are what the SQL does to the rows, which
  are read back as they were written. Downloads resume, stay in the staging directory whatever the
  service names, and go to verification only when complete; the finalizer promotes exactly what is
  on disk in full; the remover changes nothing outside its roots. A submission is stored once and
  writes only its payload; its fingerprint identifies it. Requests without credentials see and
  change nothing; a deletion reaches exactly the jobs that it names. Retries, limiters and backoffs
  stay in their bounds. A program that starts has its secrets, its directories and a reconciled store.

  \<^bold>\<open>The contract of the store.\<close> The locale \<open>write_contract\<close> names a property of stores together with
  what a written job or part has to satisfy; every handler is proved to keep any such contract, in the
  context of the locale, and the interpretations choose the contract: the rows of other jobs, the
  states a job may be in, the invariants, the sessions, the counts of bytes.
  \<open>part_of_text\<close> is the contract of a printed part and its reader.

  \<^bold>\<open>Bounds and termination.\<close> The only loops without a structural measure are the retries (six attempts,
  \<open>retry_loop\<close>), the scans of texts (their length), and the ticks of a worker (a list of
  events). There is no fuel. Byte counts are \<open>int64\<close> and wrap (\<open>wrap64\<close>); the exponent of the backoff
  stays below its cap.

  \<^bold>\<open>Limits of the model.\<close> Letter case is mapped for ASCII only. Rows with the same creation text keep the
  order of the table. A round of a worker is one atomic step of \<open>Pipeline\<close>, in which faults of the
  database and exhausted retries do not occur; \<open>stale_write_loses_removal\<close> is about a step that is
  not atomic. The file tree has no links; paths are lexical; an error of the operating system names the
  whole path. A JSON number is a decimal and a ratio a rational number, where the program has a
  \<open>float64\<close>. A request is what \<open>net/http\<close> makes of it. Waiting for a limiter only delays a call.
  Contexts are not cancelled.

  \<^bold>\<open>Parameters.\<close> \<open>html.UnescapeString\<close>, the verb \<open>%q\<close>, the printing of JSON arrays, \<open>json.Marshal\<close>,
  \<open>json.Unmarshal\<close>, \<open>url.Parse\<close>, \<open>strconv.ParseFloat\<close>, the digests, the devices of directories, the
  database driver with its migrations, the network and the random source.

  \<^bold>\<open>Not modelled.\<close> Log lines and the functions that only feed them (\<open>withLogging\<close>, \<open>sanitizeDownloadURL\<close>,
  \<open>sanitizeLoggedPath\<close>, \<open>progressRateMBs\<close>), the spawning, waiting and shutting down of goroutines, the
  pragmas of the database and the library that applies the migrations, the test double
  \<open>mock_client.go\<close>, the redirects of the multiplexer for paths that are not clean, and the Windows variant of
  \<open>sameFilesystem\<close>, which compares the names of the volumes.
\<close>

end
